(* ===== verification/Motus_Prelude.thy ===== *)
theory Motus_Prelude
  imports Main "HOL-Library.Word" "HOL-Library.List_Lexorder" "HOL-Library.Char_ord"
begin

text \<open>
  Shared vocabulary of the development: C++ exceptions as values, results of operations that
  may throw, decimal printing (\<open>std::to_string\<close>), the ordered maps \<open>std::map\<close> and
  \<open>std::unordered_set\<close> are modelled by, and the collections of rewrite rules the
  component theories extend.
\<close>

section \<open>Types\<close>

type_synonym u16 = "16 word"
type_synonym u32 = "32 word"
type_synonym i32 = "32 word"
type_synonym i64 = "64 word"

text \<open>
  A thrown C++ object. \<open>Transient_Failure\<close> derives from \<open>std::runtime_error\<close>,
  \<open>Invalid_Argument\<close> and \<open>Length_Error\<close> from \<open>std::logic_error\<close>; they are
  separate constructors because handlers and callers distinguish them. An object that does
  not derive from \<open>std::exception\<close> is caught by \<open>catch (...)\<close> only.
\<close>

datatype exn =
    Runtime_Error string
  | Transient_Failure string
  | Logic_Error string
  | Invalid_Argument string
  | Length_Error string
  | Foreign_Exception nat

type_synonym 'a result = "exn + 'a"

text \<open>\<open>std::exception::what()\<close>.\<close>

fun what :: "exn \<Rightarrow> string" where
  "what (Runtime_Error m) = m"
| "what (Transient_Failure m) = m"
| "what (Logic_Error m) = m"
| "what (Invalid_Argument m) = m"
| "what (Length_Error m) = m"
| "what (Foreign_Exception _) = []"

fun is_std_exception :: "exn \<Rightarrow> bool" where
  "is_std_exception (Foreign_Exception _) = False"
| "is_std_exception _ = True"

text \<open>A text between single quotes, as the diagnostics print names.\<close>

definition quoted :: "string \<Rightarrow> string" where
  "quoted s = CHR 0x27 # s @ [CHR 0x27]"

section \<open>Decimal printing\<close>

definition digit_char :: "nat \<Rightarrow> char" where
  "digit_char d = char_of (48 + d)"

fun to_string :: "nat \<Rightarrow> string" where
  "to_string n =
     (if n < 10 then [digit_char n] else to_string (n div 10) @ [digit_char (n mod 10)])"

declare to_string.simps [simp del]

definition is_digit :: "char \<Rightarrow> bool" where
  "is_digit c \<longleftrightarrow> CHR ''0'' \<le> c \<and> c \<le> CHR ''9''"

definition digit_value :: "char \<Rightarrow> nat" where
  "digit_value c = of_char c - 48"

text \<open>The value of a string of decimal digits, most significant first.\<close>

definition dec_value :: "string \<Rightarrow> nat" where
  "dec_value ds = foldl (\<lambda>v c. 10 * v + digit_value c) 0 ds"

section \<open>Ordered maps\<close>

text \<open>
  \<open>std::map\<close> as an association list in key order: iteration visits the entries in
  ascending key order, as the container does. \<open>std::string\<close> keys compare as lists of
  unsigned characters (HOL-Library.List_Lexorder over HOL-Library.Char_ord).
\<close>

type_synonym ('k, 'v) omap = "('k \<times> 'v) list"

fun om_update :: "'k::linorder \<Rightarrow> 'v \<Rightarrow> ('k, 'v) omap \<Rightarrow> ('k, 'v) omap" where
  "om_update k v [] = [(k, v)]"
| "om_update k v ((k', v') # m) =
     (if k < k' then (k, v) # (k', v') # m
      else if k = k' then (k, v) # m
      else (k', v') # om_update k v m)"

definition om_delete :: "'k \<Rightarrow> ('k, 'v) omap \<Rightarrow> ('k, 'v) omap" where
  "om_delete k m = filter (\<lambda>e. fst e \<noteq> k) m"

definition om_keys :: "('k, 'v) omap \<Rightarrow> 'k list" where
  "om_keys m = map fst m"

definition om_ok :: "('k::linorder, 'v) omap \<Rightarrow> bool" where
  "om_ok m \<longleftrightarrow> sorted_wrt (<) (om_keys m)"

section \<open>Rule collections\<close>

named_theorems res_iff \<open>when an operation that may throw succeeds\<close>
named_theorems msg_defs \<open>definitions of the diagnostics\<close>

section \<open>Lemmas on digits\<close>

lemma digit_char_numerals:
  "digit_char 0 = CHR ''0''" "digit_char (Suc 0) = CHR ''1''" "digit_char 1 = CHR ''1''"
  "digit_char 2 = CHR ''2''" "digit_char 3 = CHR ''3''" "digit_char 4 = CHR ''4''"
  "digit_char 5 = CHR ''5''" "digit_char 6 = CHR ''6''" "digit_char 7 = CHR ''7''"
  "digit_char 8 = CHR ''8''" "digit_char 9 = CHR ''9''"
  by (simp_all add: digit_char_def char_of_def bit_0)

lemma of_char_digit_char: "d < 10 \<Longrightarrow> of_char (digit_char d) = (48 + d :: nat)"
  by (simp add: digit_char_def)

lemma is_digit_of_char: "is_digit c \<longleftrightarrow> 48 \<le> (of_char c :: nat) \<and> (of_char c :: nat) \<le> 57"
  by (simp add: is_digit_def less_eq_char_def)

lemma is_digit_digit_char [simp]: "d < 10 \<Longrightarrow> is_digit (digit_char d)"
  by (simp add: is_digit_of_char of_char_digit_char)

lemma digit_value_digit_char [simp]: "d < 10 \<Longrightarrow> digit_value (digit_char d) = d"
  by (simp add: digit_value_def of_char_digit_char)

lemma digit_value_le: "is_digit c \<Longrightarrow> digit_value c \<le> 9"
  unfolding is_digit_of_char digit_value_def by arith

lemma digit_not_colon: "is_digit c \<Longrightarrow> c \<noteq> CHR '':''"
  by (auto simp: is_digit_of_char)

lemma dec_value_Nil [simp]: "dec_value [] = 0"
  by (simp add: dec_value_def)

lemma dec_value_snoc [simp]: "dec_value (ds @ [c]) = 10 * dec_value ds + digit_value c"
  by (simp add: dec_value_def)

lemma to_string_less_10: "n < 10 \<Longrightarrow> to_string n = [digit_char n]"
  by (subst to_string.simps) simp

lemma to_string_ge_10:
  "10 \<le> n \<Longrightarrow> to_string n = to_string (n div 10) @ [digit_char (n mod 10)]"
  by (subst to_string.simps) simp

lemma to_string_not_Nil [simp]: "to_string n \<noteq> []"
  by (subst to_string.simps) simp

lemma to_string_digits: "c \<in> set (to_string n) \<Longrightarrow> is_digit c"
proof (induction n rule: to_string.induct)
  case (1 n)
  then show ?case
    by (subst (asm) to_string.simps) (auto split: if_splits)
qed

lemma dec_value_to_string [simp]: "dec_value (to_string n) = n"
proof (induction n rule: to_string.induct)
  case (1 n)
  show ?case
  proof (cases "n < 10")
    case True
    then show ?thesis using dec_value_snoc [of "[]"] by (subst to_string.simps) simp
  next
    case False
    with "1.IH" show ?thesis by (subst to_string.simps) simp
  qed
qed

lemma to_string_inj: "to_string m = to_string n \<longleftrightarrow> m = n"
  by (metis dec_value_to_string)

section \<open>Lemmas on words\<close>

lemma sint_eq_iff: "sint v = sint w \<longleftrightarrow> v = w"
  by (auto intro: signed_word_eqI)

lemma sint_of_nat_i32: "n < 2 ^ 31 \<Longrightarrow> sint (of_nat n :: i32) = int n"
  by (simp add: signed_of_nat signed_take_bit_int_eq_self)

lemma sint_eq_1_iff: "sint (v :: i32) = 1 \<longleftrightarrow> v = 1"
proof -
  have "sint v = sint (1 :: i32) \<longleftrightarrow> v = 1" by (rule sint_eq_iff)
  then show ?thesis by (simp only: signed_1) simp
qed

lemma of_nat_i32_eq_1_iff:
  assumes "n < 2 ^ 31"
  shows "(of_nat n :: i32) = 1 \<longleftrightarrow> n = 1"
  unfolding sint_eq_1_iff [symmetric] sint_of_nat_i32 [OF assms] by simp

section \<open>Lemmas on ordered maps\<close>

lemma om_lookup_update [simp]: "map_of (om_update k v m) = (map_of m)(k \<mapsto> v)"
  by (induction k v m rule: om_update.induct) (auto simp: fun_eq_iff)

lemma om_keys_Nil [simp]: "om_keys [] = []"
  by (simp add: om_keys_def)

lemma om_keys_Cons [simp]: "om_keys (e # m) = fst e # om_keys m"
  by (simp add: om_keys_def)

lemma set_om_keys: "set (om_keys m) = dom (map_of m)"
  by (simp add: om_keys_def dom_map_of_conv_image_fst)

lemma set_om_keys_update [simp]: "set (om_keys (om_update k v m)) = insert k (set (om_keys m))"
  by (simp add: set_om_keys)

lemma om_keys_update_same:
  "om_ok m \<Longrightarrow> k \<in> set (om_keys m) \<Longrightarrow> om_keys (om_update k v m) = om_keys m"
proof (induction k v m rule: om_update.induct)
  case (2 k v k' v' m)
  then show ?case by (auto simp: om_ok_def)
qed simp

lemma om_ok_Nil [simp]: "om_ok []"
  by (simp add: om_ok_def)

lemma om_ok_update [simp, intro]: "om_ok m \<Longrightarrow> om_ok (om_update k v m)"
proof (induction k v m rule: om_update.induct)
  case (2 k v k' v' m)
  then show ?case by (auto simp: om_ok_def)
qed (simp add: om_ok_def)

lemma om_lookup_delete [simp]: "map_of (om_delete k m) = (map_of m)(k := None)"
  by (induction m) (auto simp: om_delete_def fun_eq_iff)

lemma om_keys_delete: "om_keys (om_delete k m) = filter (\<lambda>x. x \<noteq> k) (om_keys m)"
  by (induction m) (auto simp: om_delete_def)

lemma om_ok_delete [simp, intro]: "om_ok m \<Longrightarrow> om_ok (om_delete k m)"
  by (simp add: om_ok_def om_keys_delete sorted_wrt_filter)

lemma om_ok_distinct: "om_ok m \<Longrightarrow> distinct (om_keys m)"
  by (simp add: om_ok_def strict_sorted_iff)

lemma om_ok_Cons: "om_ok ((k, v) # m) \<longleftrightarrow> om_ok m \<and> (\<forall>k' \<in> dom (map_of m). k < k')"
  by (auto simp: om_ok_def simp flip: set_om_keys)

lemma om_eqI: "om_ok m \<Longrightarrow> om_ok m' \<Longrightarrow> map_of m = map_of m' \<Longrightarrow> m = m'"
proof (induction m arbitrary: m')
  case Nil
  then show ?case by simp
next
  case (Cons e m)
  obtain k v where e: "e = (k, v)" by fastforce
  from Cons.prems(3) e obtain k' v' n where m': "m' = (k', v') # n"
    by (cases m') (auto dest: fun_cong [of _ _ k])
  have lt: "\<forall>x \<in> dom (map_of m). k < x" "\<forall>x \<in> dom (map_of n). k' < x" "om_ok m" "om_ok n"
    using Cons.prems e m' by (auto simp: om_ok_Cons)
  have eq: "(map_of m)(k \<mapsto> v) = (map_of n)(k' \<mapsto> v')" using Cons.prems(3) e m' by (simp add: fun_eq_iff)
  have "k = k'"
  proof (rule ccontr)
    assume "k \<noteq> k'"
    then have "map_of n k = Some v" "map_of m k' = Some v'"
      using fun_cong [OF eq, of k] fun_cong [OF eq, of k'] by auto
    then have "k' < k" "k < k'" using lt by auto
    then show False by simp
  qed
  moreover have "map_of m k = None" "map_of n k' = None"
    using lt \<open>k = k'\<close> by (auto simp: dom_def)
  moreover have "v = v'" using fun_cong [OF eq, of k] \<open>k = k'\<close> by simp
  moreover have "map_of m x = map_of n x" if "x \<noteq> k" for x
    using fun_cong [OF eq, of x] that \<open>k = k'\<close> by simp
  ultimately have "v = v'" "map_of m = map_of n" by (auto intro!: ext) metis
  with \<open>k = k'\<close> Cons.IH [of n] lt e m' show ?case by simp
qed

lemma om_update_id: "om_ok m \<Longrightarrow> map_of m k = Some v \<Longrightarrow> om_update k v m = m"
  by (rule om_eqI) (auto simp: fun_eq_iff)

lemma om_keys_update_declared:
  "om_ok m \<Longrightarrow> map_of m k \<noteq> None \<Longrightarrow> om_keys (om_update k v m) = om_keys m"
  by (rule om_keys_update_same) (auto simp: set_om_keys)

lemma in_set_tl: "x \<in> set (tl xs) \<Longrightarrow> x \<in> set xs"
  by (cases xs) auto

section \<open>Numbers in places\<close>

text \<open>
  Numbers handed out by a counter that stands at \<open>n\<close>: each lies in at most one place, at most
  once, and those in \<open>R\<close> are held outside the places.
\<close>

definition placed :: "nat \<Rightarrow> nat set \<Rightarrow> ('p \<Rightarrow> nat list) \<Rightarrow> bool" where
  "placed n R f \<longleftrightarrow>
     (\<forall>p. distinct (f p)) \<and> (\<forall>p q. p \<noteq> q \<longrightarrow> set (f p) \<inter> set (f q) = {}) \<and>
     (\<forall>p. set (f p) \<inter> R = {}) \<and> (\<forall>p. \<forall>x \<in> set (f p). x \<le> n) \<and> (\<forall>x \<in> R. x \<le> n)"

lemma placedD:
  assumes "placed n R f"
  shows "distinct (f p)" "p = q \<or> set (f p) \<inter> set (f q) = {}" "set (f p) \<inter> R = {}"
  using assms by (auto simp: placed_def)

lemma placed_counter: "placed n R f \<Longrightarrow> n \<le> n' \<Longrightarrow> placed n' R f"
  by (fastforce simp: placed_def)

lemma placed_subset: "placed n R f \<Longrightarrow> R' \<subseteq> R \<Longrightarrow> placed n R' f"
  by (fastforce simp: placed_def)

lemma placed_fresh: "placed n R f \<Longrightarrow> n < x \<Longrightarrow> x \<notin> R \<and> x \<notin> set (f p)"
  by (fastforce simp: placed_def)

lemma placed_remove:
  assumes "placed n R f" "distinct xs" "set xs \<subseteq> set (f p)"
  shows "placed n R (f(p := xs))"
  using assms unfolding placed_def by (simp add: disjoint_iff) blast

lemma placed_add:
  assumes "placed n R f" "distinct xs" "set xs \<subseteq> insert x (set (f p))"
    and "x \<le> n" "x \<notin> R" "\<And>q. x \<notin> set (f q)"
  shows "placed n R (f(p := xs))"
  using assms unfolding placed_def by (simp add: disjoint_iff) blast

lemma placed_take:
  assumes "placed n R f" "f p = x # xs"
  shows "placed n (insert x R) (f(p := xs))"
proof -
  have x: "x \<le> n" "x \<notin> set xs" "distinct xs" "\<And>q. q \<noteq> p \<Longrightarrow> x \<notin> set (f q)"
  proof -
    have "distinct (x # xs)" using assms unfolding placed_def by metis
    moreover have "x \<in> set (f p)" using assms(2) by simp
    moreover have "x \<notin> set (f q)" if "q \<noteq> p" for q
      using assms(1) \<open>x \<in> set (f p)\<close> that unfolding placed_def by blast
    ultimately show "x \<le> n" "x \<notin> set xs" "distinct xs" "\<And>q. q \<noteq> p \<Longrightarrow> x \<notin> set (f q)"
      using assms(1) unfolding placed_def by auto
  qed
  have "placed n R (f(p := xs))"
    using assms x by (intro placed_remove) auto
  then show ?thesis using x unfolding placed_def by auto
qed

lemma placed_return:
  assumes "placed n R f" "x \<in> R"
  shows "placed n (R - {x}) (f(p := x # f p))"
proof (rule placed_add [where x = x])
  show "placed n (R - {x}) f" using assms(1) by (rule placed_subset) auto
  show "distinct (x # f p)" "x \<le> n" "\<And>q. x \<notin> set (f q)"
    using assms unfolding placed_def by auto
qed auto

end
