(* ===== verification/Wire_Envelope.thy ===== *)
theory Wire_Envelope
  imports Motus_Prelude
begin

text \<open>
  The wire format: \<open>include/motus/ByteMessage.hpp\<close>. A payload travels as
  \<open>motus:<version>:<payload bytes>\<close>, bounded at 4 MiB. Strings are byte strings, as
  \<open>std::string\<close> is; sizes are \<open>nat\<close> (a \<open>std::string\<close> cannot be long enough for
  the sum of two sizes to pass 64 bits). The version is a 32-bit signed integer, kept at its
  width. The lemmas show that decoding inverts encoding, which bytes are accepted, and that
  the version arithmetic never overflows.
\<close>

section \<open>Definitions\<close>

record byte_message =
  payload :: string

definition FORMAT_VERSION :: i32 where
  "FORMAT_VERSION = 1"

definition MAX_PAYLOAD_BYTES :: nat where
  "MAX_PAYLOAD_BYTES = 4 * 1024 * 1024"

text \<open>\<open>std::to_string(int)\<close>.\<close>

definition to_string_int :: "i32 \<Rightarrow> string" where
  "to_string_int v =
     (if sint v < 0 then CHR ''-'' # to_string (nat (- sint v)) else to_string (nat (sint v)))"

definition envelopePrefix :: string where
  "envelopePrefix = ''motus:'' @ to_string_int FORMAT_VERSION @ '':''"

definition msg_encoded_oversize :: "nat \<Rightarrow> string" where
  "msg_encoded_oversize n =
     ''encoded message is '' @ to_string n @ '' bytes, over the '' @
     to_string MAX_PAYLOAD_BYTES @ '' byte limit''"

definition serialize :: "byte_message \<Rightarrow> string result" where
  "serialize m =
     (if MAX_PAYLOAD_BYTES < length envelopePrefix + length (payload m)
      then Inl (Length_Error (msg_encoded_oversize (length envelopePrefix + length (payload m))))
      else Inr (envelopePrefix @ payload m))"

definition msg_body_oversize :: "nat \<Rightarrow> string" where
  "msg_body_oversize n =
     ''message body is '' @ to_string n @ '' bytes, over the '' @
     to_string MAX_PAYLOAD_BYTES @ '' byte limit''"

definition msg_no_magic :: string where
  "msg_no_magic = ''body is not a motus envelope (missing 'motus:' prefix)''"

definition msg_no_version :: string where
  "msg_no_version = ''malformed motus envelope: no version field''"

definition msg_non_numeric :: string where
  "msg_non_numeric = ''malformed motus envelope: non-numeric version field''"

definition msg_out_of_range :: string where
  "msg_out_of_range = ''malformed motus envelope: version field out of range''"

definition msg_unsupported :: "i32 \<Rightarrow> string" where
  "msg_unsupported v =
     ''unsupported format_version '' @ to_string_int v @ '' (this build understands '' @
     to_string_int FORMAT_VERSION @ '')''"

definition magic :: string where
  "magic = ''motus:''"

text \<open>\<open>std::string::find(c, i)\<close>: the first occurrence at or after index \<open>i\<close>.\<close>

definition find_from :: "char \<Rightarrow> nat \<Rightarrow> string \<Rightarrow> nat option" where
  "find_from c i s =
     (let j = i + length (takeWhile (\<lambda>x. x \<noteq> c) (drop i s))
      in if j < length s then Some j else None)"

text \<open>The digit loop over the version field; \<open>48\<close> is the code of \<open>'0'\<close>.\<close>

fun parse_version :: "i32 \<Rightarrow> string \<Rightarrow> i32 result" where
  "parse_version version [] = Inr version"
| "parse_version version (c # cs) =
     (if c < CHR ''0'' \<or> c > CHR ''9'' then Inl (Runtime_Error msg_non_numeric)
      else if sint version > 100000 then Inl (Runtime_Error msg_out_of_range)
      else parse_version (version * 10 + (of_nat (of_char c) - 48)) cs)"

definition deserialize :: "string \<Rightarrow> byte_message result" where
  "deserialize wire =
     (if MAX_PAYLOAD_BYTES < length wire
      then Inl (Length_Error (msg_body_oversize (length wire)))
      else if take (length magic) wire \<noteq> magic then Inl (Runtime_Error msg_no_magic)
      else
        (let versionBegin = length magic in
         case find_from CHR '':'' versionBegin wire of
           None \<Rightarrow> Inl (Runtime_Error msg_no_version)
         | Some versionEnd \<Rightarrow>
             if versionEnd = versionBegin then Inl (Runtime_Error msg_no_version)
             else
               (case parse_version 0 (take (versionEnd - versionBegin) (drop versionBegin wire)) of
                  Inl e \<Rightarrow> Inl e
                | Inr version \<Rightarrow>
                    if version \<noteq> FORMAT_VERSION then Inl (Runtime_Error (msg_unsupported version))
                    else Inr \<lparr>payload = drop (versionEnd + 1) wire\<rparr>)))"

definition byteCount :: "byte_message \<Rightarrow> nat" where
  "byteCount m = length (payload m)"

text \<open>The digit loop over unbounded integers, which the 32-bit loop is compared with.\<close>

fun parse_version_int :: "int \<Rightarrow> string \<Rightarrow> int result" where
  "parse_version_int version [] = Inr version"
| "parse_version_int version (c # cs) =
     (if \<not> is_digit c then Inl (Runtime_Error msg_non_numeric)
      else if version > 100000 then Inl (Runtime_Error msg_out_of_range)
      else parse_version_int (version * 10 + int (digit_value c)) cs)"

section \<open>The prefix and the search\<close>

lemma to_string_int_1: "to_string_int 1 = ''1''"
  by (simp add: to_string_int_def to_string_less_10 digit_char_numerals)

lemma envelopePrefix_eq: "envelopePrefix = ''motus:1:''"
  by (simp add: envelopePrefix_def FORMAT_VERSION_def to_string_int_1)

lemma length_envelopePrefix [simp]: "length envelopePrefix = 8"
  by (simp add: envelopePrefix_eq)

lemma find_from_append:
  assumes "c \<notin> set ds" "length pre = i"
  shows "find_from c i (pre @ ds @ c # rest) = Some (i + length ds)"
  using assms by (simp add: find_from_def takeWhile_append)

lemma find_from_Some:
  assumes "find_from c i s = Some j" "i \<le> length s"
  shows "s = take i s @ take (j - i) (drop i s) @ c # drop (j + 1) s"
    and "c \<notin> set (take (j - i) (drop i s))" and "i \<le> j"
proof -
  let ?w = "takeWhile (\<lambda>x. x \<noteq> c) (drop i s)"
  from assms have j: "j = i + length ?w" "j < length s"
    by (auto simp: find_from_def Let_def split: if_splits)
  have w: "take (j - i) (drop i s) = ?w"
    unfolding j(1) by (simp add: takeWhile_eq_take [symmetric])
  then show "c \<notin> set (take (j - i) (drop i s))"
    by (auto dest: set_takeWhileD)
  from j show "i \<le> j" by simp
  have "length ?w < length (drop i s)" using j by simp
  then have "drop i s ! length ?w = c"
    using nth_length_takeWhile [of "\<lambda>x. x \<noteq> c" "drop i s"] by simp
  then have "s ! j = c" using j assms(2) by simp
  then have "drop j s = c # drop (j + 1) s"
    using j(2) by (simp add: Cons_nth_drop_Suc [symmetric])
  moreover have "drop i s = take (j - i) (drop i s) @ drop j s"
    using \<open>i \<le> j\<close> by (metis append_take_drop_id drop_drop le_add_diff_inverse2)
  ultimately show "s = take i s @ take (j - i) (drop i s) @ c # drop (j + 1) s"
    by (metis append_take_drop_id)
qed

section \<open>The version loop\<close>

text \<open>
  Below the range check the next value is at most 1000009: no step of the 32-bit loop wraps,
  and it agrees with the loop over unbounded integers.
\<close>

lemma not_digit_char: "(c < CHR ''0'' \<or> c > CHR ''9'') \<longleftrightarrow> \<not> is_digit c"
  by (auto simp: is_digit_def)

lemma digit_word:
  "is_digit c \<Longrightarrow> (of_nat (of_char c) :: i32) - 48 = of_nat (digit_value c)"
  by (simp add: is_digit_of_char digit_value_def of_nat_diff)

lemma sint_small:
  assumes "0 \<le> (x :: int)" "x < 2 ^ 31"
  shows "sint (word_of_int x :: i32) = x"
  using assms by (simp add: signed_of_int signed_take_bit_int_eq_self)

lemma version_step_no_overflow:
  assumes "0 \<le> sint (v :: i32)" "sint v \<le> 100000" "d \<le> 9"
  shows "sint (v * 10 + of_nat d) = sint v * 10 + int d"
proof -
  have "v * 10 + of_nat d = word_of_int (sint v * 10 + int d)"
    by simp
  moreover have "sint (word_of_int (sint v * 10 + int d) :: i32) = sint v * 10 + int d"
    using assms by (intro sint_small) auto
  ultimately show ?thesis by simp
qed

lemma parse_version_refines:
  assumes "0 \<le> sint version"
  shows "map_sum id sint (parse_version version cs) = parse_version_int (sint version) cs"
  using assms
proof (induction version cs rule: parse_version.induct)
  case (2 version c cs)
  show ?case
  proof (cases "is_digit c \<and> sint version \<le> 100000")
    case True
    let ?v' = "version * 10 + (of_nat (of_char c) - 48)"
    have "sint ?v' = sint version * 10 + int (digit_value c)"
      using True "2.prems" unfolding digit_word [OF conjunct1 [OF True]]
      by (intro version_step_no_overflow) (auto simp: digit_value_le)
    with 2 True show ?thesis by (auto simp: not_digit_char)
  next
    case False
    then show ?thesis by (auto simp: not_digit_char)
  qed
qed simp

lemma parse_version_int_digits:
  "parse_version_int v cs = Inr r \<Longrightarrow> \<forall>c \<in> set cs. is_digit c"
  by (induction v cs rule: parse_version_int.induct) (auto split: if_splits)

lemma parse_version_int_value:
  "parse_version_int v cs = Inr r \<Longrightarrow> r = foldl (\<lambda>v c. v * 10 + int (digit_value c)) v cs"
  by (induction v cs rule: parse_version_int.induct) (auto split: if_splits)

lemma foldl_digits_ge:
  "0 \<le> v \<Longrightarrow> v \<le> foldl (\<lambda>v c. v * 10 + int (digit_value c)) v cs"
proof (induction cs arbitrary: v)
  case (Cons c cs)
  from Cons.prems have "v \<le> v * 10 + int (digit_value c)" by simp
  also have "\<dots> \<le> foldl (\<lambda>v c. v * 10 + int (digit_value c)) (v * 10 + int (digit_value c)) cs"
    using Cons.prems by (intro Cons.IH) simp
  finally show ?case by simp
qed simp

lemma foldl_digits_dec_value:
  "foldl (\<lambda>v c. v * 10 + int (digit_value c)) (int v) cs
     = int (foldl (\<lambda>v c. 10 * v + digit_value c) v cs)"
proof (induction cs arbitrary: v)
  case (Cons c cs)
  show ?case using Cons.IH [of "10 * v + digit_value c"] by (simp add: algebra_simps)
qed simp

lemma parse_version_int_accepts:
  assumes "\<forall>c \<in> set cs. is_digit c" "0 \<le> v"
    and "foldl (\<lambda>v c. v * 10 + int (digit_value c)) v cs \<le> 100000"
  shows "parse_version_int v cs = Inr (foldl (\<lambda>v c. v * 10 + int (digit_value c)) v cs)"
  using assms
proof (induction v cs rule: parse_version_int.induct)
  case (2 v c cs)
  have "v \<le> foldl (\<lambda>v c. v * 10 + int (digit_value c)) v (c # cs)"
    using 2(3) by (rule foldl_digits_ge)
  with 2 show ?case by simp
qed simp

lemma parse_version_is_1:
  "parse_version 0 cs = Inr 1 \<longleftrightarrow> (\<forall>c \<in> set cs. is_digit c) \<and> dec_value cs = 1"
proof -
  let ?f = "foldl (\<lambda>v c. v * 10 + int (digit_value c)) 0 cs"
  have fv: "?f = int (dec_value cs)"
    using foldl_digits_dec_value [of 0 cs] by (simp add: dec_value_def)
  have ref: "map_sum id sint (parse_version 0 cs) = parse_version_int 0 cs"
    using parse_version_refines [of 0 cs] by simp
  have "parse_version 0 cs = Inr 1 \<longleftrightarrow> parse_version_int 0 cs = Inr 1"
    by (cases "parse_version 0 cs") (auto simp: sint_eq_1_iff simp flip: ref)
  also have "\<dots> \<longleftrightarrow> (\<forall>c \<in> set cs. is_digit c) \<and> ?f = 1"
    using parse_version_int_digits [of 0 cs 1] parse_version_int_value [of 0 cs 1]
      parse_version_int_accepts [of cs 0] by auto
  finally show ?thesis by (simp add: fv)
qed


lemma parse_version_int_snoc:
  assumes "\<forall>c \<in> set ds. is_digit c" "is_digit c"
  shows "parse_version_int v (ds @ [c]) =
    (case parse_version_int v ds of
       Inl e \<Rightarrow> Inl e
     | Inr r \<Rightarrow> if r > 100000 then Inl (Runtime_Error msg_out_of_range)
               else Inr (r * 10 + int (digit_value c)))"
  using assms by (induction v ds rule: parse_version_int.induct) auto

lemma parse_version_int_to_string:
  "parse_version_int 0 (to_string n) =
     (if n \<le> 1000009 then Inr (int n) else Inl (Runtime_Error msg_out_of_range))"
proof (induction n rule: to_string.induct)
  case (1 n)
  show ?case
  proof (cases "n < 10")
    case True
    then show ?thesis by (simp add: to_string_less_10)
  next
    case False
    have "parse_version_int 0 (to_string n) =
      (case parse_version_int 0 (to_string (n div 10)) of
         Inl e \<Rightarrow> Inl e
       | Inr r \<Rightarrow> if r > 100000 then Inl (Runtime_Error msg_out_of_range)
                 else Inr (r * 10 + int (n mod 10)))"
      using False
      by (simp add: to_string_ge_10 parse_version_int_snoc to_string_digits split: sum.split)
    moreover have "int (n div 10) * 10 + int (n mod 10) = int n"
      by presburger
    ultimately show ?thesis using "1.IH" [OF False] by auto
  qed
qed

lemma parse_version_to_string:
  "parse_version 0 (to_string n) =
     (if n \<le> 1000009 then Inr (of_nat n) else Inl (Runtime_Error msg_out_of_range))"
proof -
  have ref: "map_sum id sint (parse_version 0 (to_string n)) = parse_version_int 0 (to_string n)"
    using parse_version_refines [of 0 "to_string n"] by simp
  have "sint (of_nat n :: i32) = int n" if "n \<le> 1000009"
    using that by (simp add: sint_of_nat_i32)
  then have "v = of_nat n" if "sint v = int n" "n \<le> 1000009" for v :: i32
    using that by (metis sint_eq_iff)
  then show ?thesis
    using ref
    by (cases "parse_version 0 (to_string n)") (auto simp: parse_version_int_to_string split: if_splits)
qed

section \<open>Decoding\<close>

lemma take_magic: "take (length magic) w = magic \<Longrightarrow> w = magic @ drop (length magic) w"
  by (metis append_take_drop_id)

lemma deserialize_split:
  assumes "CHR '':'' \<notin> set ds" "length (magic @ ds @ CHR '':'' # p) \<le> MAX_PAYLOAD_BYTES"
  shows "deserialize (magic @ ds @ CHR '':'' # p) =
    (if ds = [] then Inl (Runtime_Error msg_no_version)
     else case parse_version 0 ds of
       Inl e \<Rightarrow> Inl e
     | Inr version \<Rightarrow>
         if version \<noteq> FORMAT_VERSION then Inl (Runtime_Error (msg_unsupported version))
         else Inr \<lparr>payload = p\<rparr>)"
  using assms by (simp add: deserialize_def find_from_append split: sum.split)

lemma deserialize_Inr_split:
  assumes "deserialize w = Inr m"
  shows "length w \<le> MAX_PAYLOAD_BYTES"
    and "\<exists>ds. w = magic @ ds @ CHR '':'' # payload m \<and> CHR '':'' \<notin> set ds"
proof -
  show len: "length w \<le> MAX_PAYLOAD_BYTES"
    using assms by (auto simp: deserialize_def split: if_splits)
  from assms have "take (length magic) w = magic"
    by (auto simp: deserialize_def split: if_splits)
  then have mag: "take (length magic) w = magic" "length magic \<le> length w"
    by (auto dest: arg_cong [of _ _ length])
  from assms obtain j where j: "find_from CHR '':'' (length magic) w = Some j"
    and m: "payload m = drop (j + 1) w"
    by (auto simp: deserialize_def Let_def split: if_splits option.splits sum.splits)
  from find_from_Some [OF j mag(2)] mag(1) m
  show "\<exists>ds. w = magic @ ds @ CHR '':'' # payload m \<and> CHR '':'' \<notin> set ds"
    by metis
qed

lemma deserialize_envelope:
  assumes "8 + byteCount m \<le> MAX_PAYLOAD_BYTES"
  shows "deserialize (envelopePrefix @ payload m) = Inr m"
proof -
  have w: "envelopePrefix @ payload m = magic @ ''1'' @ CHR '':'' # payload m"
    by (simp add: envelopePrefix_eq magic_def)
  have "parse_version 0 ''1'' = Inr FORMAT_VERSION"
    using parse_version_to_string [of 1]
    by (simp add: to_string_less_10 digit_char_numerals FORMAT_VERSION_def)
  then show ?thesis
    using assms unfolding w by (subst deserialize_split) (simp_all add: magic_def byteCount_def)
qed

section \<open>Properties\<close>

text \<open>
  C34: encoding either refuses a message, exactly when prefix and payload together pass the
  4 MiB bound, or yields a body within the bound that decodes to the same message. The prefix is
  eight bytes long, not ten as the comment in ByteMessage.hpp says.
\<close>

theorem envelope_roundtrip:
  "case serialize m of
     Inl e \<Rightarrow> MAX_PAYLOAD_BYTES < 8 + byteCount m \<and>
              e = Length_Error (msg_encoded_oversize (8 + byteCount m))
   | Inr w \<Rightarrow> 8 + byteCount m \<le> MAX_PAYLOAD_BYTES \<and> length w = 8 + byteCount m \<and>
              deserialize w = Inr m"
proof (cases "MAX_PAYLOAD_BYTES < 8 + byteCount m")
  case False
  with deserialize_envelope [of m] show ?thesis by (simp add: serialize_def byteCount_def)
qed (simp add: serialize_def byteCount_def)

text \<open>
  C35: the decoder accepts a body exactly when it fits the bound and is the magic word, a
  non-empty run of decimal digits of value 1, a colon and the payload, verbatim. In
  particular leading zeros of the version are accepted.
\<close>

theorem deserialize_accepts_iff:
  "deserialize w = Inr m \<longleftrightarrow>
     length w \<le> MAX_PAYLOAD_BYTES \<and>
     (\<exists>ds. w = ''motus:'' @ ds @ '':'' @ payload m \<and> ds \<noteq> [] \<and> list_all is_digit ds \<and>
           dec_value ds = 1)"
proof -
  have eq: "deserialize w = Inr m \<longleftrightarrow> ds \<noteq> [] \<and> list_all is_digit ds \<and> dec_value ds = 1"
    if "CHR '':'' \<notin> set ds" "w = magic @ ds @ CHR '':'' # payload m" "length w \<le> MAX_PAYLOAD_BYTES"
    for ds
    using that parse_version_is_1 [of ds] deserialize_split [of ds "payload m"]
    by (auto simp: FORMAT_VERSION_def list_all_iff split: sum.splits if_splits)
  have nc: "CHR '':'' \<notin> set ds" if "list_all is_digit ds" for ds
    using that digit_not_colon by (auto simp: list_all_iff)
  show ?thesis (is "_ \<longleftrightarrow> ?R")
  proof
    assume acc: "deserialize w = Inr m"
    then obtain ds where ds: "w = magic @ ds @ CHR '':'' # payload m" "CHR '':'' \<notin> set ds"
      using deserialize_Inr_split(2) by blast
    with acc eq [of ds] deserialize_Inr_split(1) [OF acc] show ?R
      by (intro conjI exI [of _ ds]) (simp_all add: magic_def)
  next
    assume ?R
    then obtain ds where "length w \<le> MAX_PAYLOAD_BYTES" "w = magic @ ds @ CHR '':'' # payload m"
      "ds \<noteq> [] \<and> list_all is_digit ds \<and> dec_value ds = 1"
      by (auto simp: magic_def)
    with eq [of ds] nc [of ds] show "deserialize w = Inr m" by simp
  qed
qed

text \<open>
  The decoder names what is wrong. A body with the decimal version \<open>n\<close> is refused for
  its size, decoded when \<open>n\<close> is this build's version, refused by name for every other
  version up to 1000009 and as out of range beyond.
\<close>

theorem deserialize_version:
  "deserialize (''motus:'' @ to_string n @ '':'' @ p) =
     (if MAX_PAYLOAD_BYTES < 7 + length (to_string n) + length p
      then Inl (Length_Error (msg_body_oversize (7 + length (to_string n) + length p)))
      else if n = 1 then Inr \<lparr>payload = p\<rparr>
      else if n \<le> 1000009 then Inl (Runtime_Error (msg_unsupported (of_nat n)))
      else Inl (Runtime_Error msg_out_of_range))"
proof (cases "MAX_PAYLOAD_BYTES < 7 + length (to_string n) + length p")
  case True
  have "length (''motus:'' @ to_string n @ '':'' @ p) = 7 + length (to_string n) + length p"
    by simp
  with True show ?thesis unfolding deserialize_def by (simp only: if_True)
next
  case False
  have nc: "CHR '':'' \<notin> set (to_string n)"
    using to_string_digits digit_not_colon by blast
  have one: "(of_nat n :: i32) = 1 \<longleftrightarrow> n = 1" if "n \<le> 1000009"
    using that by (intro of_nat_i32_eq_1_iff) simp
  show ?thesis
    using False deserialize_split [OF nc, of p] one
    by (simp add: magic_def parse_version_to_string FORMAT_VERSION_def)
qed

text \<open>
  C36: the 32-bit signed arithmetic of the version loop never overflows: on every byte string
  it computes what the loop over unbounded integers computes, errors included.
\<close>

theorem version_loop_no_overflow:
  "map_sum id sint (parse_version 0 cs) = parse_version_int 0 cs"
  using parse_version_refines [of 0 cs] by simp

end
