(* ===== verification/Route_Match.thy ===== *)
theory Route_Match
  imports Motus_Prelude
begin

text \<open>
  What \<open>Routing::Pattern\<close> means: \<open>routeMatches\<close> of
  \<open>include/motus/transport/ITransport.hpp\<close>. A binding and a route are dot-separated words;
  \<open>*\<close> stands for one word and \<open>#\<close> for any number of words. The matcher is the recursion
  over two indices the code has, with its \<open>for\<close> loop over the end of a \<open>#\<close>. It is compared
  with a specification that does not mention indices: the words of the route split into one
  segment per pattern word.
\<close>

section \<open>Definitions\<close>

text \<open>
  The splitting loop: \<open>start\<close> is represented by the text that is left. A text without a dot
  is one word, and the empty text is one empty word.
\<close>

function split_words :: "string \<Rightarrow> string list" where
  "split_words str =
     (case dropWhile (\<lambda>c. c \<noteq> CHR ''.'') str of
        [] \<Rightarrow> [str]
      | _ # rest \<Rightarrow> takeWhile (\<lambda>c. c \<noteq> CHR ''.'') str # split_words rest)"
  by pat_completeness auto
termination
proof (relation "measure length")
  fix str :: string and c rest
  assume "dropWhile (\<lambda>c. c \<noteq> CHR ''.'') str = c # rest"
  then have "length (c # rest) \<le> length str"
    by (metis length_dropWhile_le)
  then show "(rest, str) \<in> measure length" by simp
qed simp

declare split_words.simps [simp del]

text \<open>\<open>Matcher::at\<close>: does the pattern from word \<open>i\<close> match the route from word \<open>j\<close>?\<close>

function matcher_at :: "string list \<Rightarrow> string list \<Rightarrow> nat \<Rightarrow> nat \<Rightarrow> bool" where
  "matcher_at p k i j =
     (if i \<ge> length p then j = length k
      else if p ! i = ''#'' then list_ex (\<lambda>n. matcher_at p k (i + 1) n) [j ..< length k + 1]
      else if j \<ge> length k then False
      else if p ! i \<noteq> ''*'' \<and> p ! i \<noteq> k ! j then False
      else matcher_at p k (i + 1) (j + 1))"
  by pat_completeness auto
termination
  by (relation "measure (\<lambda>(p, k, i, j). length p - i)") auto

declare matcher_at.simps [simp del]

definition routeMatches :: "string \<Rightarrow> string \<Rightarrow> bool" where
  "routeMatches binding rt = matcher_at (split_words binding) (split_words rt) 0 0"

text \<open>
  The specification: \<open>fits p seg\<close> says which run of words one pattern word stands for, and a
  pattern matches a route when the route is such runs put one after the other.
\<close>

definition fits :: "string \<Rightarrow> string list \<Rightarrow> bool" where
  "fits p seg \<longleftrightarrow> p = ''#'' \<or> (\<exists>w. seg = [w] \<and> (p = ''*'' \<or> p = w))"

definition words_match :: "string list \<Rightarrow> string list \<Rightarrow> bool" where
  "words_match ps ws \<longleftrightarrow> (\<exists>segs. list_all2 fits ps segs \<and> concat segs = ws)"

text \<open>The words put back together, separated by dots.\<close>

fun join_words :: "string list \<Rightarrow> string" where
  "join_words [] = []"
| "join_words [w] = w"
| "join_words (w # ws) = w @ CHR ''.'' # join_words ws"

section \<open>Splitting\<close>

lemma split_words_not_Nil [simp]: "split_words str \<noteq> []"
  by (subst split_words.simps) (simp split: list.split)

lemma split_words_no_dot: "CHR ''.'' \<notin> set w \<Longrightarrow> split_words w = [w]"
proof -
  assume "CHR ''.'' \<notin> set w"
  then have "dropWhile (\<lambda>c. c \<noteq> CHR ''.'') w = []" by auto
  then show ?thesis by (simp only: split_words.simps [of w] list.case)
qed

lemma split_words_dot:
  assumes "CHR ''.'' \<notin> set w"
  shows "split_words (w @ CHR ''.'' # rest) = w # split_words rest"
proof -
  have "\<forall>c \<in> set w. c \<noteq> CHR ''.''" using assms by auto
  then show ?thesis by (subst split_words.simps) (simp add: dropWhile_append2)
qed

lemma join_words_Cons: "ws \<noteq> [] \<Longrightarrow> join_words (w # ws) = w @ CHR ''.'' # join_words ws"
  by (cases ws) auto

lemma text_at_dot:
  fixes str :: string
  assumes "dropWhile (\<lambda>c. c \<noteq> CHR ''.'') str = c # rest"
  shows "str = takeWhile (\<lambda>c. c \<noteq> CHR ''.'') str @ CHR ''.'' # rest"
proof -
  have "c = CHR ''.''" using assms by (auto simp: dropWhile_eq_Cons_conv)
  then show ?thesis using assms takeWhile_dropWhile_id [of "\<lambda>c. c \<noteq> CHR ''.''" str] by simp
qed

lemma takeWhile_no_dot: "CHR ''.'' \<notin> set (takeWhile (\<lambda>c. c \<noteq> CHR ''.'') str)"
  by (auto dest: set_takeWhileD)

lemma join_split_words: "join_words (split_words str) = str"
proof (induction str rule: split_words.induct)
  case (1 str)
  show ?case
  proof (cases "dropWhile (\<lambda>c. c \<noteq> CHR ''.'') str")
    case Nil
    then have "CHR ''.'' \<notin> set str" by auto
    then show ?thesis by (simp add: split_words_no_dot)
  next
    case (Cons c rest)
    then have "split_words str = takeWhile (\<lambda>c. c \<noteq> CHR ''.'') str # split_words rest"
      by (subst split_words.simps) simp
    with 1 [OF Cons] text_at_dot [OF Cons] show ?thesis by (simp add: join_words_Cons)
  qed
qed

lemma split_words_no_dots: "w \<in> set (split_words str) \<Longrightarrow> CHR ''.'' \<notin> set w"
proof (induction str rule: split_words.induct)
  case (1 str)
  show ?case
  proof (cases "dropWhile (\<lambda>c. c \<noteq> CHR ''.'') str")
    case Nil
    then have "CHR ''.'' \<notin> set str" by auto
    then show ?thesis using "1.prems" by (simp add: split_words_no_dot)
  next
    case (Cons c rest)
    then have "split_words str = takeWhile (\<lambda>c. c \<noteq> CHR ''.'') str # split_words rest"
      by (subst split_words.simps) simp
    then show ?thesis using "1.IH" [OF Cons] "1.prems" takeWhile_no_dot by auto
  qed
qed

lemma join_words_snoc: "ws \<noteq> [] \<Longrightarrow> join_words (ws @ [w]) = join_words ws @ CHR ''.'' # w"
  by (induction ws rule: join_words.induct) (auto simp: join_words_Cons)

lemma split_join_words:
  "ws \<noteq> [] \<Longrightarrow> list_all (\<lambda>w. CHR ''.'' \<notin> set w) ws \<Longrightarrow> split_words (join_words ws) = ws"
  by (induction ws rule: join_words.induct) (auto simp: split_words_no_dot split_words_dot)

section \<open>The matcher against its specification\<close>

lemma words_match_Nil [simp]: "words_match [] ws \<longleftrightarrow> ws = []"
  by (auto simp: words_match_def)

lemma words_match_Cons:
  "words_match (p # ps) ws \<longleftrightarrow> (\<exists>n \<le> length ws. fits p (take n ws) \<and> words_match ps (drop n ws))"
    (is "_ \<longleftrightarrow> ?R")
proof
  assume "words_match (p # ps) ws"
  then obtain seg segs where "fits p seg" "list_all2 fits ps segs" "ws = seg @ concat segs"
    by (auto simp: words_match_def list_all2_Cons1)
  then show ?R by (intro exI [of _ "length seg"]) (auto simp: words_match_def)
next
  assume ?R
  then obtain n segs where "fits p (take n ws)" "list_all2 fits ps segs" "concat segs = drop n ws"
    by (auto simp: words_match_def)
  then show "words_match (p # ps) ws"
    unfolding words_match_def by (intro exI [of _ "take n ws # segs"]) auto
qed

lemma words_match_hash:
  "words_match (''#'' # ps) ws \<longleftrightarrow> (\<exists>n \<le> length ws. words_match ps (drop n ws))"
  by (simp add: words_match_Cons fits_def)

lemma words_match_word:
  assumes "p \<noteq> ''#''"
  shows "words_match (p # ps) ws \<longleftrightarrow>
    (\<exists>w ws'. ws = w # ws' \<and> (p = ''*'' \<or> p = w) \<and> words_match ps ws')"
proof -
  have fits_word: "fits p seg \<longleftrightarrow> (\<exists>w. seg = [w] \<and> (p = ''*'' \<or> p = w))" for seg
    using assms by (simp add: fits_def)
  have "words_match (p # ps) ws \<longleftrightarrow>
      (\<exists>seg segs. fits p seg \<and> list_all2 fits ps segs \<and> seg @ concat segs = ws)"
    unfolding words_match_def list_all2_Cons1 by force
  also have "\<dots> \<longleftrightarrow>
      (\<exists>w segs. (p = ''*'' \<or> p = w) \<and> list_all2 fits ps segs \<and> w # concat segs = ws)"
    unfolding fits_word by (metis append_Cons append_Nil)
  also have "\<dots> \<longleftrightarrow> (\<exists>w ws'. ws = w # ws' \<and> (p = ''*'' \<or> p = w) \<and> words_match ps ws')"
    unfolding words_match_def by (metis (no_types, lifting))
  finally show ?thesis .
qed

lemma ex_drop_shift:
  assumes "j \<le> length k"
  shows "(\<exists>n \<in> {j..length k}. P (drop n k)) \<longleftrightarrow> (\<exists>n \<le> length k - j. P (drop n (drop j k)))"
    (is "?L \<longleftrightarrow> ?R")
proof
  assume ?L
  then obtain n where "j \<le> n" "n \<le> length k" "P (drop n k)" by auto
  then show ?R by (intro exI [of _ "n - j"]) auto
next
  assume ?R
  then obtain n where "n \<le> length k - j" "P (drop n (drop j k))" by auto
  with assms show ?L by (intro bexI [of _ "n + j"]) (auto simp: add.commute)
qed

lemma matcher_at_words_match:
  "i \<le> length p \<Longrightarrow> j \<le> length k \<Longrightarrow>
     matcher_at p k i j \<longleftrightarrow> words_match (drop i p) (drop j k)"
proof (induction p k i j rule: matcher_at.induct)
  case (1 p k i j)
  show ?case
  proof (cases "i < length p")
    case False
    with "1.prems" show ?thesis by (subst matcher_at.simps) auto
  next
    case i: True
    then have dp: "drop i p = p ! i # drop (i + 1) p" by (simp add: Cons_nth_drop_Suc)
    show ?thesis
    proof (cases "p ! i = ''#''")
      case True
      have "matcher_at p k i j \<longleftrightarrow> (\<exists>n \<in> {j..length k}. words_match (drop (i + 1) p) (drop n k))"
        using 1 i True
        by (auto simp: matcher_at.simps [of p k i j] list_ex_iff Bex_def simp del: upt_Suc)
      also have "\<dots> \<longleftrightarrow> (\<exists>n \<le> length k - j. words_match (drop (i + 1) p) (drop n (drop j k)))"
        using "1.prems" by (intro ex_drop_shift)
      finally show ?thesis by (simp add: dp True words_match_hash)
    next
      case p: False
      show ?thesis
      proof (cases "j < length k")
        case False
        then show ?thesis using "1.prems" i p
          by (subst matcher_at.simps) (simp add: dp words_match_word)
      next
        case True
        then have "drop j k = k ! j # drop (j + 1) k" by (simp add: Cons_nth_drop_Suc)
        with 1 i p True show ?thesis
          by (auto simp: matcher_at.simps [of p k i j] dp words_match_word)
      qed
    qed
  qed
qed

lemma routeMatches_words: "routeMatches b r \<longleftrightarrow> words_match (split_words b) (split_words r)"
  by (simp add: routeMatches_def matcher_at_words_match)

lemma words_match_literal:
  "list_all (\<lambda>w. w \<noteq> ''#'' \<and> w \<noteq> ''*'') ps \<Longrightarrow> words_match ps ws \<longleftrightarrow> ws = ps"
  by (induction ps arbitrary: ws) (auto simp: words_match_word)

lemma words_match_append:
  assumes "words_match ps vs" "words_match qs ws"
  shows "words_match (ps @ qs) (vs @ ws)"
  using assms unfolding words_match_def by (metis concat_append list_all2_appendI)

section \<open>Properties\<close>

text \<open>
  C33: the matcher, which backtracks over word indices, decides the specification of pattern
  routing: the words of the route are runs put end to end, one run per word of the binding,
  any run for \<open>#\<close>, one word for \<open>*\<close>, the word itself otherwise.
\<close>

theorem routeMatches_spec:
  "routeMatches binding rt \<longleftrightarrow>
     (\<exists>segs. list_all2 fits (split_words binding) segs \<and> concat segs = split_words rt)"
  by (simp add: routeMatches_words words_match_def)

text \<open>
  Splitting at dots loses nothing and is unambiguous: the words put back together with
  dots are the text, and no word holds a dot.
\<close>

theorem split_words_roundtrip:
  "join_words (split_words str) = str \<and>
   list_all (\<lambda>w. CHR ''.'' \<notin> set w) (split_words str) \<and> split_words str \<noteq> []"
  by (simp add: join_split_words list_all_iff split_words_no_dots)

text \<open>
  A binding whose words are no wildcards matches itself and nothing else, so that pattern
  routing of literal names agrees with exact routing.
\<close>

theorem routeMatches_literal:
  assumes "list_all (\<lambda>w. w \<noteq> ''#'' \<and> w \<noteq> ''*'') (split_words binding)"
  shows "routeMatches binding rt \<longleftrightarrow> rt = binding"
proof -
  have "routeMatches binding rt \<longleftrightarrow> split_words rt = split_words binding"
    using assms by (simp add: routeMatches_words words_match_literal)
  also have "\<dots> \<longleftrightarrow> rt = binding" by (metis join_split_words)
  finally show ?thesis .
qed

lemma split_words_eval:
  "split_words [] = [[]]"
  "split_words (c # cs) =
     (if c = CHR ''.'' then [] # split_words cs
      else (c # hd (split_words cs)) # tl (split_words cs))"
proof -
  show "split_words [] = [[]]" by (simp add: split_words_no_dot)
  show "split_words (c # cs) =
     (if c = CHR ''.'' then [] # split_words cs
      else (c # hd (split_words cs)) # tl (split_words cs))"
  proof (cases "CHR ''.'' \<in> set cs")
    case True
    then obtain w rest where "cs = w @ CHR ''.'' # rest" "CHR ''.'' \<notin> set w"
      by (auto dest: split_list_first)
    then show ?thesis
      using split_words_dot [of "[]" cs] split_words_dot [of w rest] split_words_dot [of "c # w" rest]
      by auto
  next
    case False
    then show ?thesis
      using split_words_dot [of "[]" cs] split_words_no_dot [of cs] split_words_no_dot [of "c # cs"]
      by auto
  qed
qed

theorem routeMatches_literal_witness:
  "routeMatches ''TOPIC.Nav'' ''TOPIC.Nav'' \<and> \<not> routeMatches ''TOPIC.Nav'' ''TOPIC.Nav.Position''"
proof -
  have lit: "list_all (\<lambda>w. w \<noteq> ''#'' \<and> w \<noteq> ''*'') (split_words ''TOPIC.Nav'')"
    by (simp add: split_words_eval)
  show ?thesis
    using routeMatches_literal [OF lit, of "''TOPIC.Nav''"]
      routeMatches_literal [OF lit, of "''TOPIC.Nav.Position''"] by simp
qed

text \<open>
  A trailing \<open>#\<close> matches the prefix itself and every route below it (so \<open>TOPIC.#\<close>
  matches \<open>TOPIC\<close>, \<open>TOPIC.Nav\<close> and \<open>TOPIC.Nav.A\<close>), and nothing outside the prefix.
\<close>

theorem routeMatches_trailing_hash:
  assumes "list_all (\<lambda>w. w \<noteq> ''#'' \<and> w \<noteq> ''*'') (split_words pre)"
  shows "routeMatches (pre @ ''.#'') rt \<longleftrightarrow>
    take (length (split_words pre)) (split_words rt) = split_words pre"
proof -
  have "split_words (pre @ ''.#'') = split_words pre @ [''#'']"
  proof -
    have "join_words (split_words pre @ [''#'']) = pre @ ''.#''"
      by (simp add: join_words_snoc join_split_words)
    then show ?thesis
      using split_join_words [of "split_words pre @ [''#'']"]
      by (simp add: list_all_iff split_words_no_dots)
  qed
  moreover have "words_match (ps @ [''#'']) ws \<longleftrightarrow> take (length ps) ws = ps"
    if "list_all (\<lambda>w. w \<noteq> ''#'' \<and> w \<noteq> ''*'') ps" for ps ws
    using that
  proof (induction ps arbitrary: ws)
    case Nil
    show ?case by (auto simp: words_match_hash)
  next
    case (Cons p ps)
    then show ?case by (cases ws) (auto simp: words_match_word)
  qed
  ultimately show ?thesis using assms by (simp add: routeMatches_words)
qed

theorem routeMatches_trailing_hash_witness:
  "routeMatches ''TOPIC.#'' ''TOPIC'' \<and> routeMatches ''TOPIC.#'' ''TOPIC.Nav.A'' \<and>
   \<not> routeMatches ''TOPIC.#'' ''OTHER.Nav''"
proof -
  have lit: "list_all (\<lambda>w. w \<noteq> ''#'' \<and> w \<noteq> ''*'') (split_words ''TOPIC'')"
    by (simp add: split_words_eval)
  show ?thesis
    using routeMatches_trailing_hash [OF lit, of "''TOPIC''"]
      routeMatches_trailing_hash [OF lit, of "''TOPIC.Nav.A''"]
      routeMatches_trailing_hash [OF lit, of "''OTHER.Nav''"]
    by (simp add: split_words_eval)
qed

end
