(* ===== verification/Seam.thy ===== *)
theory Seam
  imports Motus_Prelude
begin

text \<open>
  The vocabulary of the transport seam: \<open>include/motus/transport/ITransport.hpp\<close> without
  the pattern matcher, which is theory Route_Match. Enumerations, option structs with their
  default member initialisers, the reserved dead-letter names, the forensic pressure
  classification and \<open>checkTopicOptions\<close>. The lemmas characterise when a declaration is
  admitted and which diagnostic it gets otherwise, and the thresholds of the pressure alarm.
\<close>

section \<open>Definitions\<close>

datatype disposition = Ack | Reject | Requeue | Deferred

type_synonym topic = string

text \<open>Where the middleware is; \<open>ep_port = 0\<close> means the backend's default port.\<close>

record endpoint =
  ep_host :: string
  ep_port :: u16
  ep_user :: string
  ep_password :: string
  ep_realm :: string

definition default_endpoint :: endpoint where
  "default_endpoint =
     \<lparr>ep_host = ''127.0.0.1'', ep_port = 0, ep_user = ''guest'', ep_password = ''guest'',
      ep_realm = ''/''\<rparr>"

record capabilities =
  cap_name :: string
  durableDelivery :: bool
  publisherConfirms :: bool
  manualAcknowledgement :: bool
  redeliveryFlag :: bool
  deadLetterCap :: bool
  routingGroups :: bool
  fifoPerTopic :: bool
  competingConsumers :: bool
  topicDepthCap :: bool
  purgeCap :: bool
  requeueCap :: bool
  reconnectCap :: bool
  deferredAcknowledgement :: bool
  boundedQueue :: bool

definition default_capabilities :: capabilities where
  "default_capabilities =
     \<lparr>cap_name = ''unknown'', durableDelivery = False, publisherConfirms = False,
      manualAcknowledgement = False, redeliveryFlag = False, deadLetterCap = False,
      routingGroups = False, fifoPerTopic = False, competingConsumers = False,
      topicDepthCap = False, purgeCap = False, requeueCap = False, reconnectCap = False,
      deferredAcknowledgement = False, boundedQueue = False\<rparr>"

datatype routing = Exact | Pattern | Broadcast

datatype overflow_policy = DropHead | RejectPublish | RejectPublishDlx

fun overflowPolicyName :: "overflow_policy \<Rightarrow> string" where
  "overflowPolicyName DropHead = ''drop-head''"
| "overflowPolicyName RejectPublish = ''reject-publish''"
| "overflowPolicyName RejectPublishDlx = ''reject-publish-dlx''"

record topic_options =
  durable :: bool
  shared :: bool
  deleteWhenUnused :: bool
  deadLetter :: bool
  maxLength :: u32
  overflow :: overflow_policy
  group :: string
  route :: string
  routing :: routing

definition default_topic_options :: topic_options where
  "default_topic_options =
     \<lparr>durable = True, shared = True, deleteWhenUnused = False, deadLetter = True,
      maxLength = 0, overflow = DropHead, group = [], route = [], routing = Pattern\<rparr>"

definition kDeadLetterExchange :: string where
  "kDeadLetterExchange = ''motus.dead-letter''"

definition kDeadLetterPrefix :: string where
  "kDeadLetterPrefix = ''motus.dead-letter.''"

definition kForensicMaxLength :: u32 where
  "kForensicMaxLength = 2000"

definition deadLetterTopic :: "topic \<Rightarrow> topic" where
  "deadLetterTopic source = kDeadLetterPrefix @ source"

datatype forensic_pressure = Normal | NearCap | AtCap

text \<open>The two products are taken in 64 bits, as the casts in the source say.\<close>

definition forensicPressure :: "u32 \<Rightarrow> u32 \<Rightarrow> forensic_pressure" where
  "forensicPressure depth cap =
     (if cap = 0 then Normal
      else if depth \<ge> cap then AtCap
      else if (ucast depth :: 64 word) * 10 \<ge> (ucast cap :: 64 word) * 9 then NearCap
      else Normal)"

definition forensicTopicOptions :: "topic \<Rightarrow> topic_options" where
  "forensicTopicOptions source =
     default_topic_options
       \<lparr>group := kDeadLetterExchange, route := source, routing := Exact, deadLetter := False,
        maxLength := kForensicMaxLength, overflow := RejectPublish\<rparr>"

record send_options =
  so_durable :: bool
  so_confirm :: bool
  so_route :: string

definition default_send_options :: send_options where
  "default_send_options = \<lparr>so_durable = True, so_confirm = False, so_route = []\<rparr>"

text \<open>Delays in milliseconds, at the width of \<open>std::chrono::milliseconds::rep\<close>.\<close>

record reconnect_policy =
  rp_enabled :: bool
  rp_maxAttempts :: u32
  rp_initialDelay :: i64
  rp_maxDelay :: i64

definition default_reconnect_policy :: reconnect_policy where
  "default_reconnect_policy =
     \<lparr>rp_enabled = False, rp_maxAttempts = 5, rp_initialDelay = 250, rp_maxDelay = 5000\<rparr>"

text \<open>
  Counters and delivery tags of 64 bits are \<open>nat\<close>: they only count up, by one or by the size
  of a payload, so that a wrap is outside the model.
\<close>

record delivery =
  d_body :: string
  d_redelivered :: bool
  d_tag :: nat

text \<open>
  A delivery handler runs over the memory \<open>'h\<close> its closure captures by reference, and either
  decides or throws.
\<close>

type_synonym 'h delivery_handler = "delivery \<Rightarrow> 'h \<Rightarrow> disposition result \<times> 'h"

record stats =
  bytesSent :: nat
  bytesReceived :: nat
  sent :: nat
  received :: nat
  acksPerformed :: nat
  rejectsPerformed :: nat
  requeuesPerformed :: nat
  abandoned :: nat
  reconnects :: nat

definition no_stats :: stats where
  "no_stats =
     \<lparr>bytesSent = 0, bytesReceived = 0, sent = 0, received = 0, acksPerformed = 0,
      rejectsPerformed = 0, requeuesPerformed = 0, abandoned = 0, reconnects = 0\<rparr>"

section \<open>Checking a declaration\<close>

definition msg_no_deadLetter :: "string \<Rightarrow> string" where
  "msg_no_deadLetter backend =
     ''backend '' @ quoted backend @
     '' cannot preserve rejected messages (Capabilities::deadLetter is false), but '' @
     ''dead-lettering was requested. Refused at declaration rather than silently '' @
     ''discarding the forensic payload.''"

definition msg_no_groups :: "string \<Rightarrow> string \<Rightarrow> string" where
  "msg_no_groups backend grp =
     ''backend '' @ quoted backend @
     '' cannot group destinations (Capabilities::routingGroups is false), but the '' @
     ''routing group '' @ quoted grp @
     '' was requested. Refused at declaration rather than ignored: a silently dropped '' @
     ''group publishes to the default destination and looks exactly like success.''"

definition msg_no_bound :: "string \<Rightarrow> u32 \<Rightarrow> string" where
  "msg_no_bound backend n =
     ''backend '' @ quoted backend @
     '' cannot bound a destination's depth (Capabilities::boundedQueue is false), but '' @
     ''maxLength='' @ to_string (unat n) @
     '' was requested. Refused at declaration rather than ignored: a silently unbounded '' @
     '''bounded' destination is exactly the failure this struct exists to make loud.''"

definition msg_asymmetric :: "string \<Rightarrow> string" where
  "msg_asymmetric offender =
     ''topic property '' @ quoted offender @
     '' differs from the default. Producer and Consumer declare the same destination, so '' @
     ''whichever started second would be refused with PRECONDITION_FAILED. Pass '' @
     ''allowAsymmetric if that is intended, or declare through ITransport directly.''"

text \<open>The first property, in this order, that differs from its default.\<close>

definition asymmetric_property :: "topic_options \<Rightarrow> string option" where
  "asymmetric_property options =
     (let defaults = default_topic_options in
      if durable options \<noteq> durable defaults then Some ''durable''
      else if shared options \<noteq> shared defaults then Some ''shared''
      else if deleteWhenUnused options \<noteq> deleteWhenUnused defaults then Some ''deleteWhenUnused''
      else if deadLetter options \<noteq> deadLetter defaults then Some ''deadLetter''
      else if maxLength options \<noteq> maxLength defaults then Some ''maxLength''
      else if overflow options \<noteq> overflow defaults then Some ''overflow''
      else None)"

definition checkTopicOptions :: "capabilities \<Rightarrow> topic_options \<Rightarrow> bool \<Rightarrow> unit result" where
  "checkTopicOptions caps options allowAsymmetric =
     (if deadLetter options \<and> \<not> deadLetterCap caps
      then Inl (Runtime_Error (msg_no_deadLetter (cap_name caps)))
      else if group options \<noteq> [] \<and> \<not> routingGroups caps
      then Inl (Runtime_Error (msg_no_groups (cap_name caps) (group options)))
      else if maxLength options > 0 \<and> \<not> boundedQueue caps
      then Inl (Runtime_Error (msg_no_bound (cap_name caps) (maxLength options)))
      else if allowAsymmetric then Inr ()
      else
        (case asymmetric_property options of
           Some offender \<Rightarrow> Inl (Runtime_Error (msg_asymmetric offender))
         | None \<Rightarrow> Inr ()))"

text \<open>
  What a declaration needs of a backend, and the six properties every declarer must agree
  on, as predicates: the specification \<open>checkTopicOptions\<close> is compared with.
\<close>

definition supported :: "capabilities \<Rightarrow> topic_options \<Rightarrow> bool" where
  "supported caps options \<longleftrightarrow>
     (deadLetter options \<longrightarrow> deadLetterCap caps) \<and>
     (group options \<noteq> [] \<longrightarrow> routingGroups caps) \<and>
     (maxLength options \<noteq> 0 \<longrightarrow> boundedQueue caps)"

definition same_declaration :: "topic_options \<Rightarrow> topic_options \<Rightarrow> bool" where
  "same_declaration a b \<longleftrightarrow>
     durable a = durable b \<and> shared a = shared b \<and>
     deleteWhenUnused a = deleteWhenUnused b \<and> deadLetter a = deadLetter b \<and>
     maxLength a = maxLength b \<and> overflow a = overflow b"

section \<open>Lemmas\<close>

lemma asymmetric_property_None:
  "asymmetric_property options = None \<longleftrightarrow> same_declaration options default_topic_options"
  by (simp add: asymmetric_property_def same_declaration_def Let_def)

lemma same_declaration_refl [simp]: "same_declaration a a"
  by (simp add: same_declaration_def)

lemma checkTopicOptions_Inr [res_iff]:
  "checkTopicOptions caps options allow = Inr u \<longleftrightarrow>
     supported caps options \<and> (allow \<or> same_declaration options default_topic_options)"
  by (auto simp: checkTopicOptions_def supported_def word_gt_0
      simp flip: asymmetric_property_None split: option.split)

lemma forensicTopicOptions_sel [simp]:
  "durable (forensicTopicOptions s)" "shared (forensicTopicOptions s)"
  "\<not> deleteWhenUnused (forensicTopicOptions s)" "\<not> deadLetter (forensicTopicOptions s)"
  "maxLength (forensicTopicOptions s) = 2000" "overflow (forensicTopicOptions s) = RejectPublish"
  "group (forensicTopicOptions s) = kDeadLetterExchange" "route (forensicTopicOptions s) = s"
  "routing (forensicTopicOptions s) = Exact"
  by (simp_all add: forensicTopicOptions_def default_topic_options_def kForensicMaxLength_def)

lemma kDeadLetterExchange_not_Nil [simp]: "kDeadLetterExchange \<noteq> []"
  by (simp add: kDeadLetterExchange_def)

lemma length_deadLetterTopic [simp]: "length (deadLetterTopic t) = length t + 18"
  by (simp add: deadLetterTopic_def kDeadLetterPrefix_def)

lemma deadLetterTopic_inj [simp]: "deadLetterTopic s = deadLetterTopic t \<longleftrightarrow> s = t"
  by (simp add: deadLetterTopic_def)

lemma deadLetterTopic_neq [simp]: "deadLetterTopic t \<noteq> t" "t \<noteq> deadLetterTopic t"
  by (auto dest: arg_cong [of _ _ length])

lemma deadLetterTopic_not_Nil [simp]: "deadLetterTopic t \<noteq> []"
  by (simp add: deadLetterTopic_def kDeadLetterPrefix_def)

lemma unat_times_64:
  fixes w :: u32
  assumes "k \<le> 10"
  shows "unat ((ucast w :: 64 word) * of_nat k) = unat w * k"
proof -
  have w: "unat w < 2 ^ 32" using unsigned_less [of w] by simp
  then have "unat w * k \<le> 2 ^ 32 * 10"
    using assms by (intro mult_mono) auto
  then have "unat w * k < 2 ^ 64" by simp
  moreover have "unat (of_nat n :: 64 word) = n" if "n < 2 ^ 64" for n
    using that by (simp add: unsigned_of_nat take_bit_nat_eq_self)
  moreover have "(ucast w :: 64 word) * of_nat k = of_nat (unat w * k)"
    by simp
  ultimately show ?thesis by metis
qed

section \<open>Properties\<close>

text \<open>
  A declaration is admitted exactly when the backend supports what it asks for and, unless
  the caller opts out by name, its six shared properties are the defaults.
\<close>

theorem checkTopicOptions_admits_iff:
  "checkTopicOptions caps options allowAsymmetric = Inr () \<longleftrightarrow>
     supported caps options \<and>
     (allowAsymmetric \<or> same_declaration options default_topic_options)"
  by (simp add: checkTopicOptions_Inr)

text \<open>
  The alarm on a forensic queue has exact thresholds, free of 32-bit wrap-around: it is
  at its cap from \<open>cap\<close> messages on, near it from nine tenths of the cap on, and an unbounded
  queue (cap 0) is always normal.
\<close>

theorem forensicPressure_thresholds:
  "forensicPressure depth cap =
     (if unat cap = 0 then Normal
      else if unat cap \<le> unat depth then AtCap
      else if 9 * unat cap \<le> 10 * unat depth then NearCap
      else Normal)"
proof -
  have "(ucast cap :: 64 word) * 9 \<le> (ucast depth :: 64 word) * 10 \<longleftrightarrow>
      unat ((ucast cap :: 64 word) * of_nat 9) \<le> unat ((ucast depth :: 64 word) * of_nat 10)"
    by (simp add: word_le_nat_alt)
  also have "\<dots> \<longleftrightarrow> 9 * unat cap \<le> 10 * unat depth"
    by (subst (1 2) unat_times_64) auto
  finally show ?thesis
    by (simp add: forensicPressure_def word_le_nat_alt unat_eq_zero)
qed

end
