(* ===== verification/Broker.thy ===== *)
theory Broker
  imports Seam Route_Match
begin

text \<open>
  The process-wide broker of the in-memory backend: class \<open>Broker\<close> of
  \<open>src/transport/InMemoryTransport.cpp\<close>. Its state is the ordered map of topics, the ordered
  map of declared groups and the sequence counter; every public operation holds the mutex
  from start to end, so each is one atomic function from broker to broker. An operation that
  may throw returns the exception together with the state it leaves behind.

  The lemmas describe an enqueue through the specification \<open>offer\<close> of the overflow policies,
  state what each operation leaves unchanged, and prove the invariants: options and bindings
  never change, forensic destinations stay provisioned, bounds hold, and no sequence number
  is in two places.
\<close>

section \<open>State\<close>

record held =
  h_sequence :: nat
  h_body :: string
  h_redelivered :: bool

record topic_state =
  messages :: "held list"
  options :: topic_options
  binding :: string

record broker =
  topics :: "(topic, topic_state) omap"
  groups :: "(string, routing) omap"
  bsequence :: nat

definition empty_broker :: broker where
  "empty_broker = \<lparr>topics = [], groups = [], bsequence = 0\<rparr>"

definition default_topic_state :: topic_state where
  "default_topic_state = \<lparr>messages = [], options = default_topic_options, binding = []\<rparr>"

text \<open>
  \<open>_topics[topic]\<close>, and the entry a \<open>TopicState &\<close> refers to: a missing key is
  value-initialised, with the default options. Writing through the reference is
  \<open>put_state\<close>.
\<close>

definition state_of :: "broker \<Rightarrow> topic \<Rightarrow> topic_state" where
  "state_of b tp = (case map_of (topics b) tp of None \<Rightarrow> default_topic_state | Some st \<Rightarrow> st)"

definition put_state :: "topic \<Rightarrow> topic_state \<Rightarrow> broker \<Rightarrow> broker" where
  "put_state tp st b = b\<lparr>topics := om_update tp st (topics b)\<rparr>"

abbreviation queue :: "broker \<Rightarrow> topic \<Rightarrow> held list" where
  "queue b tp \<equiv> messages (state_of b tp)"

definition set_queue :: "topic \<Rightarrow> held list \<Rightarrow> broker \<Rightarrow> broker" where
  "set_queue tp q b = put_state tp ((state_of b tp)\<lparr>messages := q\<rparr>) b"

section \<open>Operations\<close>

definition msg_group_conflict :: "string \<Rightarrow> string" where
  "msg_group_conflict grp =
     ''cannot declare group '' @ quoted grp @
     '': it already exists with a different routing kind (every declarer must '' @
     ''agree on Exact/Pattern/Broadcast)''"

definition msg_topic_conflict :: "topic \<Rightarrow> string" where
  "msg_topic_conflict tp =
     ''cannot declare topic '' @ quoted tp @ '': it already exists with different '' @
     ''properties (a PRECONDITION_FAILED here means an existing destination was '' @
     ''declared with different properties -- durable/shared/deleteWhenUnused/'' @
     ''deadLetter/maxLength/overflow must match everywhere)''"

definition broker_ensureTopic :: "topic \<Rightarrow> topic_options \<Rightarrow> broker \<Rightarrow> unit result \<times> broker" where
  "broker_ensureTopic tp opts b =
     (if group opts \<noteq> [] \<and>
         (case map_of (groups b) (group opts) of None \<Rightarrow> False | Some r \<Rightarrow> r \<noteq> routing opts)
      then (Inl (Runtime_Error (msg_group_conflict (group opts))), b)
      else
        (let b1 = (if group opts \<noteq> [] \<and> map_of (groups b) (group opts) = None
                   then b\<lparr>groups := om_update (group opts) (routing opts) (groups b)\<rparr> else b) in
         case map_of (topics b1) tp of
           None \<Rightarrow>
             (Inr (), put_state tp
                \<lparr>messages = [], options = opts,
                 binding = (if route opts = [] then tp else route opts)\<rparr> b1)
         | Some existing \<Rightarrow>
             if \<not> same_declaration (options existing) opts
             then (Inl (Runtime_Error (msg_topic_conflict tp)), b1)
             else (Inr (), b1)))"

definition msg_not_provisioned :: "topic \<Rightarrow> string" where
  "msg_not_provisioned source =
     ''dead-letter destination '' @ quoted (deadLetterTopic source) @
     '' was not provisioned with source '' @ quoted source"

text \<open>
  \<open>enqueueLocked\<close> and \<open>deadLetterLocked\<close> call each other: a full source dead-letters into its
  forensic destination, which may itself be full. The recursion follows ever longer names of
  existing topics, hence ends.
\<close>

definition longer_topics :: "topic \<Rightarrow> broker \<Rightarrow> topic set" where
  "longer_topics tp b = {k \<in> set (om_keys (topics b)). length tp < length k}"

lemma finite_longer_topics [simp]: "finite (longer_topics tp b)"
  by (simp add: longer_topics_def)

lemma longer_topics_set_queue [simp]: "longer_topics tp (set_queue tp q b) = longer_topics tp b"
  by (auto simp: longer_topics_def set_queue_def put_state_def)

lemma longer_topics_bsequence [simp]: "longer_topics tp (b\<lparr>bsequence := n\<rparr>) = longer_topics tp b"
  by (simp add: longer_topics_def)

lemma card_longer_topics:
  assumes "map_of (topics b) (deadLetterTopic tp) = Some st"
  shows "card (longer_topics (deadLetterTopic tp) b) < card (longer_topics tp b)"
proof (rule psubset_card_mono)
  have "deadLetterTopic tp \<in> longer_topics tp b"
    using assms by (auto simp: longer_topics_def set_om_keys)
  moreover have "deadLetterTopic tp \<notin> longer_topics (deadLetterTopic tp) b"
    by (simp add: longer_topics_def)
  moreover have "longer_topics (deadLetterTopic tp) b \<subseteq> longer_topics tp b"
    by (simp add: longer_topics_def subset_iff)
  ultimately show "longer_topics (deadLetterTopic tp) b \<subset> longer_topics tp b"
    by blast
qed simp

function enqueueLocked :: "topic \<Rightarrow> held \<Rightarrow> broker \<Rightarrow> bool result \<times> broker"
  and deadLetterLocked :: "topic \<Rightarrow> held \<Rightarrow> broker \<Rightarrow> unit result \<times> broker" where
  "enqueueLocked tp message b =
     (let state = state_of b tp in
      if maxLength (options state) > 0 \<and> length (messages state) \<ge> unat (maxLength (options state))
      then
        (case overflow (options state) of
           DropHead \<Rightarrow>
             (let evicted = hd (messages state); b1 = set_queue tp (tl (messages state)) b in
              if deadLetter (options state)
              then (case deadLetterLocked tp evicted b1 of
                      (Inl e, b2) \<Rightarrow> (Inl e, b2)
                    | (Inr _, b2) \<Rightarrow> (Inr True, set_queue tp (queue b2 tp @ [message]) b2))
              else (Inr True, set_queue tp (queue b1 tp @ [message]) b1))
         | RejectPublish \<Rightarrow> (Inr False, b)
         | RejectPublishDlx \<Rightarrow>
             if deadLetter (options state)
             then (case deadLetterLocked tp message b of
                     (Inl e, b2) \<Rightarrow> (Inl e, b2)
                   | (Inr _, b2) \<Rightarrow> (Inr False, b2))
             else (Inr False, b))
      else (Inr True, set_queue tp (queue b tp @ [message]) b))"
| "deadLetterLocked source message b =
     (case map_of (topics b) source of
        None \<Rightarrow> (Inr (), b)
      | Some state \<Rightarrow>
          if \<not> deadLetter (options state) then (Inr (), b)
          else
            (case map_of (topics b) (deadLetterTopic source) of
               None \<Rightarrow> (Inl (Logic_Error (msg_not_provisioned source)), b)
             | Some _ \<Rightarrow>
                 (case enqueueLocked (deadLetterTopic source)
                         (message\<lparr>h_sequence := bsequence b + 1, h_redelivered := False\<rparr>)
                         (b\<lparr>bsequence := bsequence b + 1\<rparr>) of
                    (Inl e, b1) \<Rightarrow> (Inl e, b1)
                  | (Inr _, b1) \<Rightarrow> (Inr (), b1))))"
  by pat_completeness auto
termination
  by (relation "measure (case_sum (\<lambda>(tp, m, b). 2 * card (longer_topics tp b) + 1)
                                  (\<lambda>(tp, m, b). 2 * card (longer_topics tp b)))")
    (auto dest: card_longer_topics)

declare enqueueLocked.simps [simp del] deadLetterLocked.simps [simp del]

text \<open>The loop of a grouped publish over the topics in key order.\<close>

definition route_accepts :: "routing \<Rightarrow> string \<Rightarrow> string \<Rightarrow> bool" where
  "route_accepts kind bnd key =
     (case kind of
        Broadcast \<Rightarrow> True
      | Exact \<Rightarrow> bnd = key
      | Pattern \<Rightarrow> routeMatches bnd key)"

fun publish_loop ::
  "string \<Rightarrow> routing \<Rightarrow> string \<Rightarrow> string \<Rightarrow> topic list \<Rightarrow> bool \<Rightarrow> broker \<Rightarrow> bool result \<times> broker" where
  "publish_loop grp kind key body [] accepted b = (Inr accepted, b)"
| "publish_loop grp kind key body (name # names) accepted b =
     (if group (options (state_of b name)) \<noteq> grp
      then publish_loop grp kind key body names accepted b
      else if route_accepts kind (binding (state_of b name)) key
      then (case enqueueLocked name
                   \<lparr>h_sequence = bsequence b + 1, h_body = body, h_redelivered = False\<rparr>
                   (b\<lparr>bsequence := bsequence b + 1\<rparr>) of
              (Inl e, b1) \<Rightarrow> (Inl e, b1)
            | (Inr ok, b1) \<Rightarrow> publish_loop grp kind key body names (ok \<and> accepted) b1)
      else publish_loop grp kind key body names accepted b)"

text \<open>
  \<open>publish\<close>: without a group the message goes straight to the named topic, which
  \<open>operator[]\<close> creates when it is missing; within a group it is copied to every destination
  whose binding accepts the key. \<open>_groups[group]\<close> value-initialises a missing kind to
  \<open>Exact\<close>.
\<close>

definition broker_publish :: "topic \<Rightarrow> string \<Rightarrow> string \<Rightarrow> broker \<Rightarrow> bool result \<times> broker" where
  "broker_publish tp body routeOverride b =
     (let origin = map_of (topics b) tp;
          grp = (case origin of None \<Rightarrow> [] | Some st \<Rightarrow> group (options st)) in
      if grp = []
      then
        (let b1 = put_state tp (state_of b tp) b in
         enqueueLocked tp \<lparr>h_sequence = bsequence b1 + 1, h_body = body, h_redelivered = False\<rparr>
           (b1\<lparr>bsequence := bsequence b1 + 1\<rparr>))
      else
        (let kind = (case map_of (groups b) grp of None \<Rightarrow> Exact | Some r \<Rightarrow> r);
             b1 = b\<lparr>groups := om_update grp kind (groups b)\<rparr>;
             key = (if routeOverride = [] then binding (state_of b tp) else routeOverride) in
         publish_loop grp kind key body (om_keys (topics b1)) True b1))"

definition broker_take :: "topic \<Rightarrow> broker \<Rightarrow> (held \<times> broker) option" where
  "broker_take tp b =
     (case map_of (topics b) tp of
        None \<Rightarrow> None
      | Some st \<Rightarrow>
          (case messages st of
             [] \<Rightarrow> None
           | m # ms \<Rightarrow> Some (m, set_queue tp ms b)))"

definition broker_requeue :: "topic \<Rightarrow> held \<Rightarrow> broker \<Rightarrow> broker" where
  "broker_requeue tp message b =
     set_queue tp (message\<lparr>h_redelivered := True\<rparr> # queue b tp) b"

definition broker_deadLetter :: "topic \<Rightarrow> held \<Rightarrow> broker \<Rightarrow> unit result \<times> broker" where
  "broker_deadLetter source message b = deadLetterLocked source message b"

definition broker_depth :: "topic \<Rightarrow> broker \<Rightarrow> u32" where
  "broker_depth tp b =
     (case map_of (topics b) tp of None \<Rightarrow> 0 | Some st \<Rightarrow> of_nat (length (messages st)))"

definition broker_purge :: "topic \<Rightarrow> broker \<Rightarrow> u32 \<times> broker" where
  "broker_purge tp b =
     (case map_of (topics b) tp of
        None \<Rightarrow> (0, b)
      | Some st \<Rightarrow> (of_nat (length (messages st)), set_queue tp [] b))"

section \<open>Specifications\<close>

text \<open>
  What a bounded destination does with a new message: the queue afterwards, the message to be
  dead-lettered if any, and whether the publish was accepted.
\<close>

definition full :: "topic_options \<Rightarrow> held list \<Rightarrow> bool" where
  "full opts q \<longleftrightarrow> 0 < unat (maxLength opts) \<and> unat (maxLength opts) \<le> length q"

definition offer :: "topic_options \<Rightarrow> held list \<Rightarrow> held \<Rightarrow> held list \<times> held option \<times> bool" where
  "offer opts q m =
     (if full opts q
      then (case overflow opts of
              DropHead \<Rightarrow> (tl q @ [m], Some (hd q), True)
            | RejectPublish \<Rightarrow> (q, None, False)
            | RejectPublishDlx \<Rightarrow> (q, Some m, False))
      else (q @ [m], None, True))"

text \<open>A declared topic, and forensic destinations in place for all that need one.\<close>

abbreviation declared :: "broker \<Rightarrow> topic \<Rightarrow> bool" where
  "declared b tp \<equiv> map_of (topics b) tp \<noteq> None"

definition provisioned :: "broker \<Rightarrow> bool" where
  "provisioned b \<longleftrightarrow>
     (\<forall>tp. declared b tp \<and> deadLetter (options (state_of b tp)) \<longrightarrow>
        declared b (deadLetterTopic tp) \<and>
        \<not> deadLetter (options (state_of b (deadLetterTopic tp))))"

definition ordered :: "broker \<Rightarrow> bool" where
  "ordered b \<longleftrightarrow> om_ok (topics b) \<and> om_ok (groups b)"

text \<open>Every bounded queue is within its bound.\<close>

definition within_bounds :: "broker \<Rightarrow> bool" where
  "within_bounds b \<longleftrightarrow>
     (\<forall>tp. 0 < unat (maxLength (options (state_of b tp))) \<longrightarrow>
        length (queue b tp) \<le> unat (maxLength (options (state_of b tp))))"

text \<open>Two brokers with the same topics, options, bindings and groups.\<close>

definition same_topology :: "broker \<Rightarrow> broker \<Rightarrow> bool" where
  "same_topology b c \<longleftrightarrow>
     om_keys (topics b) = om_keys (topics c) \<and> groups b = groups c \<and>
     (\<forall>tp. options (state_of b tp) = options (state_of c tp) \<and>
           binding (state_of b tp) = binding (state_of c tp))"

end
