(* ===== verification/Fifo.thy ===== *)
theory Fifo
  imports Main
begin

text \<open>
  The interface of a first-in first-out channel. Two components hand items over through one: a
  topic of the in-memory broker (theory Broker_Props) and the settlement queue between worker
  threads and a consumer (theory Consumer_Props). The laws are stated over the contents of the
  channel; the client lemmas say what a drain delivers.
\<close>

section \<open>Draining\<close>

text \<open>At most \<open>n\<close> items taken out one after the other, and the channel that is left.\<close>

fun take_items :: "('q \<Rightarrow> ('a \<times> 'q) option) \<Rightarrow> nat \<Rightarrow> 'q \<Rightarrow> 'a list \<times> 'q" where
  "take_items get 0 q = ([], q)"
| "take_items get (Suc n) q =
     (case get q of
        None \<Rightarrow> ([], q)
      | Some (x, q') \<Rightarrow> (case take_items get n q' of (xs, q'') \<Rightarrow> (x # xs, q'')))"

fun put_items :: "('a \<Rightarrow> 'q \<Rightarrow> 'q) \<Rightarrow> 'a list \<Rightarrow> 'q \<Rightarrow> 'q" where
  "put_items put [] q = q"
| "put_items put (x # xs) q = put_items put xs (put x q)"

section \<open>The interface\<close>

locale fifo_channel =
  fixes put :: "'a \<Rightarrow> 'q \<Rightarrow> 'q"
    and get :: "'q \<Rightarrow> ('a \<times> 'q) option"
    and contents :: "'q \<Rightarrow> 'a list"
    and usable :: "'q \<Rightarrow> bool"
  assumes put_contents: "usable q \<Longrightarrow> contents (put x q) = contents q @ [x]"
    and put_usable: "usable q \<Longrightarrow> usable (put x q)"
    and get_None: "usable q \<Longrightarrow> contents q = [] \<Longrightarrow> get q = None"
    and get_Some: "usable q \<Longrightarrow> contents q = x # xs \<Longrightarrow>
      \<exists>q'. get q = Some (x, q') \<and> contents q' = xs \<and> usable q'"
begin

lemma put_items_contents:
  "usable q \<Longrightarrow> contents (put_items put xs q) = contents q @ xs \<and> usable (put_items put xs q)"
  by (induction xs arbitrary: q) (auto simp: put_contents put_usable)

lemma take_items_contents:
  "usable q \<Longrightarrow>
     fst (take_items get n q) = take n (contents q) \<and>
     contents (snd (take_items get n q)) = drop n (contents q) \<and>
     usable (snd (take_items get n q))"
proof (induction n arbitrary: q)
  case (Suc n)
  show ?case
  proof (cases "contents q")
    case Nil
    with Suc.prems show ?thesis by (simp add: get_None)
  next
    case (Cons x xs)
    then obtain q' where q': "get q = Some (x, q')" "contents q' = xs" "usable q'"
      using get_Some [OF Suc.prems] by blast
    with Suc.IH [OF q'(3)] Cons show ?thesis by (auto split: prod.split)
  qed
qed simp

lemma in_order_out:
  assumes "usable q" "length (contents q) + length xs \<le> n"
  shows "fst (take_items get n (put_items put xs q)) = contents q @ xs"
  using assms put_items_contents [of q xs] take_items_contents [of "put_items put xs q" n] by simp

end

end
