(* ===== verification/Broker_Props.thy ===== *)
theory Broker_Props
  imports Broker Fifo
begin

text \<open>
  Lemmas and properties of the in-memory broker: the closed form of an enqueue
  (\<open>enqueueLocked_admit\<close>), frame and invariant lemmas for each operation, and the
  properties of overflow, routing, ordering and sequence numbers.
\<close>

section \<open>Reading and writing entries\<close>

lemma state_of_put_state [simp]:
  "state_of (put_state tp st b) u = (if u = tp then st else state_of b u)"
  by (simp add: state_of_def put_state_def)

lemma state_of_set_queue [simp]:
  "state_of (set_queue tp q b) u =
     (if u = tp then (state_of b tp)\<lparr>messages := q\<rparr> else state_of b u)"
  by (simp add: set_queue_def)

lemma state_of_bsequence [simp]: "state_of (b\<lparr>bsequence := n\<rparr>) = state_of b"
  by (simp add: state_of_def fun_eq_iff)

lemma state_of_groups [simp]: "state_of (b\<lparr>groups := g\<rparr>) = state_of b"
  by (simp add: state_of_def fun_eq_iff)

lemma lookup_put_state [simp]:
  "map_of (topics (put_state tp st b)) = (map_of (topics b))(tp \<mapsto> st)"
  by (simp add: put_state_def)

lemma lookup_set_queue [simp]:
  "map_of (topics (set_queue tp q b)) =
     (map_of (topics b))(tp \<mapsto> (state_of b tp)\<lparr>messages := q\<rparr>)"
  by (simp add: set_queue_def)

lemma put_state_sel [simp]:
  "groups (put_state tp st b) = groups b" "bsequence (put_state tp st b) = bsequence b"
  by (simp_all add: put_state_def)

lemma set_queue_sel [simp]:
  "groups (set_queue tp q b) = groups b" "bsequence (set_queue tp q b) = bsequence b"
  by (simp_all add: set_queue_def)

lemma lookup_state_of: "map_of (topics b) tp = Some st \<Longrightarrow> state_of b tp = st"
  by (simp add: state_of_def)

lemma state_of_undeclared: "map_of (topics b) tp = None \<Longrightarrow> state_of b tp = default_topic_state"
  by (simp add: state_of_def)

lemma default_topic_state_sel [simp]:
  "messages default_topic_state = []" "options default_topic_state = default_topic_options"
  "binding default_topic_state = []"
  by (simp_all add: default_topic_state_def)

lemma ordered_put_state [simp, intro]: "ordered b \<Longrightarrow> ordered (put_state tp st b)"
  by (simp add: ordered_def put_state_def om_ok_update)

lemma ordered_set_queue [simp, intro]: "ordered b \<Longrightarrow> ordered (set_queue tp q b)"
  by (simp add: set_queue_def ordered_put_state)

lemma ordered_bsequence [simp]: "ordered (b\<lparr>bsequence := n\<rparr>) = ordered b"
  by (simp add: ordered_def)

lemma broker_eqI:
  assumes "ordered b" "ordered c" "map_of (topics b) = map_of (topics c)"
    and "groups b = groups c" "bsequence b = bsequence c"
  shows "b = c"
  using assms om_eqI [of "topics b" "topics c"] by (simp add: ordered_def)

lemma set_queue_same: "ordered b \<Longrightarrow> declared b tp \<Longrightarrow> set_queue tp (queue b tp) b = b"
  by (rule broker_eqI) (auto simp: state_of_def fun_eq_iff)

lemma set_queue_twice: "ordered b \<Longrightarrow> set_queue tp q (set_queue tp p b) = set_queue tp q b"
  by (rule broker_eqI) (auto simp: fun_eq_iff)

lemma set_queue_commute:
  "ordered b \<Longrightarrow> t \<noteq> u \<Longrightarrow> set_queue t p (set_queue u q b) = set_queue u q (set_queue t p b)"
  by (rule broker_eqI) (auto simp: fun_eq_iff)

lemma set_queue_bsequence:
  "set_queue tp q (b\<lparr>bsequence := n\<rparr>) = (set_queue tp q b)\<lparr>bsequence := n\<rparr>"
  by (simp add: set_queue_def put_state_def)

lemma provisionedD:
  "provisioned b \<Longrightarrow> declared b tp \<Longrightarrow> deadLetter (options (state_of b tp)) \<Longrightarrow>
     declared b (deadLetterTopic tp) \<and> \<not> deadLetter (options (state_of b (deadLetterTopic tp)))"
  by (simp add: provisioned_def)

lemma provisioned_set_queue [simp, intro]:
  assumes "provisioned b" "declared b tp"
  shows "provisioned (set_queue tp q b)"
  using assms by (auto simp: provisioned_def)

lemma provisioned_bsequence [simp]: "provisioned (b\<lparr>bsequence := n\<rparr>) = provisioned b"
  by (simp add: provisioned_def)

section \<open>The closed form of an enqueue\<close>

text \<open>
  Dead-lettering a message from \<open>source\<close> offers it to the forensic destination under a fresh
  sequence number; admitting a message applies \<open>offer\<close> and dead-letters what falls out.
\<close>

definition bury :: "topic \<Rightarrow> held \<Rightarrow> broker \<Rightarrow> broker" where
  "bury source m b =
     (if declared b source \<and> deadLetter (options (state_of b source))
      then
        (let f = deadLetterTopic source;
             m' = m\<lparr>h_sequence := bsequence b + 1, h_redelivered := False\<rparr> in
         set_queue f (fst (offer (options (state_of b f)) (queue b f) m'))
           (b\<lparr>bsequence := bsequence b + 1\<rparr>))
      else b)"

definition admit :: "topic \<Rightarrow> held \<Rightarrow> broker \<Rightarrow> bool result \<times> broker" where
  "admit tp m b =
     (case offer (options (state_of b tp)) (queue b tp) m of
        (q, out, ok) \<Rightarrow>
          (Inr ok, set_queue tp q (case out of None \<Rightarrow> b | Some x \<Rightarrow> bury tp x b)))"

lemma full_iff:
  "maxLength opts > 0 \<and> length q \<ge> unat (maxLength opts) \<longleftrightarrow> full opts q"
  by (auto simp: full_def word_less_nat_alt)

lemma full_not_Nil: "full opts q \<Longrightarrow> q \<noteq> []"
  by (auto simp: full_def)

lemma enqueueLocked_offer:
  assumes "\<not> deadLetter (options (state_of b tp))" "ordered b" "declared b tp"
  shows "enqueueLocked tp m b =
    (case offer (options (state_of b tp)) (queue b tp) m of
       (q, out, ok) \<Rightarrow> (Inr ok, set_queue tp q b))"
  using assms
  by (simp add: enqueueLocked.simps [of tp m b] full_iff Let_def offer_def set_queue_twice
      set_queue_same split: overflow_policy.split)

lemma deadLetterLocked_bury:
  assumes "provisioned b" "ordered b"
  shows "deadLetterLocked source m b = (Inr (), bury source m b)"
proof (cases "declared b source \<and> deadLetter (options (state_of b source))")
  case False
  then show ?thesis
    by (auto simp: deadLetterLocked.simps [of source m b] bury_def state_of_def split: option.splits)
next
  case True
  then obtain f where f: "map_of (topics b) (deadLetterTopic source) = Some f"
    "\<not> deadLetter (options (state_of b (deadLetterTopic source)))"
    using provisionedD [OF assms(1)] by blast
  from True obtain st where "map_of (topics b) source = Some st" "deadLetter (options st)"
    by (auto simp: state_of_def)
  with True f assms show ?thesis
    by (simp add: deadLetterLocked.simps [of source m b] bury_def Let_def enqueueLocked_offer
        split: prod.split)
qed

lemma bury_queue_source [simp]: "queue (bury tp m b) tp = queue b tp"
  by (simp add: bury_def Let_def)

lemma options_bury [simp]: "options (state_of (bury tp m b) u) = options (state_of b u)"
  by (simp add: bury_def Let_def)

lemma binding_bury [simp]: "binding (state_of (bury tp m b) u) = binding (state_of b u)"
  by (simp add: bury_def Let_def)

lemma ordered_bury [simp, intro]: "ordered b \<Longrightarrow> ordered (bury tp m b)"
  by (simp add: bury_def Let_def)

lemma declared_bury:
  "provisioned b \<Longrightarrow> declared (bury tp m b) u \<longleftrightarrow> declared b u"
  using provisionedD [of b tp] by (auto simp: bury_def Let_def)

lemma bury_set_queue_commute:
  assumes "ordered b" "declared b tp"
  shows "bury tp m (set_queue tp q b) = set_queue tp q (bury tp m b)"
  using assms
  by (simp add: bury_def Let_def set_queue_commute [of _ tp] set_queue_bsequence)

lemma enqueueLocked_admit:
  assumes "provisioned b" "ordered b" "declared b tp"
  shows "enqueueLocked tp m b = admit tp m b"
proof (cases "deadLetter (options (state_of b tp))")
  case False
  then show ?thesis
    using assms by (auto simp: enqueueLocked_offer admit_def bury_def split: prod.split option.split)
next
  case True
  let ?q = "queue b tp"
  have "deadLetterLocked tp x (set_queue tp (tl ?q) b) = (Inr (), set_queue tp (tl ?q) (bury tp x b))"
    for x using assms by (simp add: deadLetterLocked_bury bury_set_queue_commute)
  moreover have "deadLetterLocked tp m b = (Inr (), bury tp m b)"
    using assms by (simp add: deadLetterLocked_bury)
  moreover have "set_queue tp ?q (bury tp m b) = bury tp m b"
    using set_queue_same [OF ordered_bury [OF assms(2)] declared_bury [OF assms(1), THEN iffD2, OF assms(3)],
        of tp m] by simp
  ultimately show ?thesis
    using assms True
    by (simp add: enqueueLocked.simps [of tp m b] full_iff Let_def admit_def offer_def
        set_queue_twice set_queue_same split: overflow_policy.split)
qed

section \<open>What an enqueue preserves\<close>

definition well_formed :: "broker \<Rightarrow> bool" where
  "well_formed b \<longleftrightarrow> ordered b \<and> provisioned b"

abbreviation seqs :: "broker \<Rightarrow> topic \<Rightarrow> nat list" where
  "seqs b tp \<equiv> map h_sequence (queue b tp)"

text \<open>
  Sequence numbers in the queues are unique, below the counter and disjoint from those in
  \<open>R\<close>, which are out at consumers.
\<close>

definition unique_seqs :: "nat set \<Rightarrow> broker \<Rightarrow> bool" where
  "unique_seqs R b \<longleftrightarrow> placed (bsequence b) R (seqs b)"

lemma offer_cases:
  obtains "full opts q" "offer opts q m = (tl q @ [m], Some (hd q), True)" "overflow opts = DropHead"
  | "full opts q" "offer opts q m = (q, None, False)" "overflow opts = RejectPublish"
  | "full opts q" "offer opts q m = (q, Some m, False)" "overflow opts = RejectPublishDlx"
  | "\<not> full opts q" "offer opts q m = (q @ [m], None, True)"
  by (cases "full opts q"; cases "overflow opts") (auto simp: offer_def)

lemma offer_bounded:
  assumes "0 < unat (maxLength opts)" "length q \<le> unat (maxLength opts)"
  shows "length (fst (offer opts q m)) \<le> unat (maxLength opts)"
  using assms by (cases rule: offer_cases [of opts q m]) (auto simp: full_def)

lemma within_bounds_set_queue:
  assumes "within_bounds b"
    and "0 < unat (maxLength (options (state_of b tp))) \<Longrightarrow>
      length q \<le> unat (maxLength (options (state_of b tp)))"
  shows "within_bounds (set_queue tp q b)"
  using assms by (simp add: within_bounds_def)

lemma within_bounds_bsequence [simp]: "within_bounds (b\<lparr>bsequence := n\<rparr>) = within_bounds b"
  by (simp add: within_bounds_def)

lemma within_bounds_bury: "within_bounds b \<Longrightarrow> within_bounds (bury tp m b)"
  by (auto simp: bury_def Let_def intro!: within_bounds_set_queue offer_bounded)
    (simp add: within_bounds_def)

lemma well_formed_bury: "well_formed b \<Longrightarrow> well_formed (bury tp m b)"
  using provisionedD [of b tp]
  by (auto simp: well_formed_def bury_def Let_def intro!: provisioned_set_queue)

lemma admit_state:
  "snd (admit tp m b) =
     (case offer (options (state_of b tp)) (queue b tp) m of
        (q, out, ok) \<Rightarrow> set_queue tp q (case out of None \<Rightarrow> b | Some x \<Rightarrow> bury tp x b))"
  by (simp add: admit_def split: prod.split)

lemma options_admit [simp]: "options (state_of (snd (admit tp m b)) u) = options (state_of b u)"
  by (cases rule: offer_cases [of "options (state_of b tp)" "queue b tp" m])
    (simp_all add: admit_state)

lemma binding_admit [simp]: "binding (state_of (snd (admit tp m b)) u) = binding (state_of b u)"
  by (cases rule: offer_cases [of "options (state_of b tp)" "queue b tp" m])
    (simp_all add: admit_state)

lemma groups_bury [simp]: "groups (bury tp m b) = groups b"
  by (simp add: bury_def Let_def)

lemma groups_admit [simp]: "groups (snd (admit tp m b)) = groups b"
  by (cases rule: offer_cases [of "options (state_of b tp)" "queue b tp" m])
    (simp_all add: admit_state)

lemma declared_admit:
  assumes "well_formed b" "declared b tp"
  shows "declared (snd (admit tp m b)) u \<longleftrightarrow> declared b u"
  using assms declared_bury [of b tp _ u]
  by (cases rule: offer_cases [of "options (state_of b tp)" "queue b tp" m])
    (simp_all add: admit_state well_formed_def del: not_None_eq)

lemma well_formed_admit:
  assumes "well_formed b" "declared b tp"
  shows "well_formed (snd (admit tp m b))"
proof -
  have "well_formed (set_queue tp q c)" if "well_formed c" "declared c tp" for q c
    using that by (simp add: well_formed_def del: not_None_eq)
  moreover have "declared (bury tp x b) tp" for x
    using assms declared_bury [of b tp x tp] by (simp add: well_formed_def del: not_None_eq)
  ultimately show ?thesis
    using assms well_formed_bury [OF assms(1)]
    by (cases rule: offer_cases [of "options (state_of b tp)" "queue b tp" m])
      (simp_all add: admit_state del: not_None_eq)
qed

lemma within_bounds_admit:
  assumes "within_bounds b"
  shows "within_bounds (snd (admit tp m b))"
proof -
  let ?st = "state_of b tp"
  obtain q out ok where o: "offer (options ?st) (messages ?st) m = (q, out, ok)"
    by (metis prod_cases3)
  have "length q \<le> unat (maxLength (options ?st))" if "0 < unat (maxLength (options ?st))"
    using offer_bounded [OF that, of "messages ?st" m] assms that o by (simp add: within_bounds_def)
  moreover have "within_bounds (case out of None \<Rightarrow> b | Some x \<Rightarrow> bury tp x b)"
    using assms by (simp add: within_bounds_bury split: option.split)
  ultimately show ?thesis
    using o by (auto simp: admit_state intro!: within_bounds_set_queue split: option.split)
qed

lemma seqs_set_queue: "seqs (set_queue tp q b) = (seqs b)(tp := map h_sequence q)"
  by (simp add: fun_eq_iff)

lemma unique_seqs_set_queue:
  "unique_seqs R (set_queue tp q b) \<longleftrightarrow>
     placed (bsequence b) R ((seqs b)(tp := map h_sequence q))"
  by (simp only: unique_seqs_def seqs_set_queue set_queue_sel)

lemma placed_offer:
  assumes "placed n R f" "f tp = map h_sequence q"
    and "h_sequence m \<le> n" "h_sequence m \<notin> R" "\<And>u. h_sequence m \<notin> set (f u)"
  shows "placed n R (f(tp := map h_sequence (fst (offer opts q m))))"
proof -
  have d: "distinct (map h_sequence q)" "h_sequence m \<notin> set (map h_sequence q)"
    using assms(1,2,5) by (auto simp: placed_def simp flip: assms(2))
  then have "distinct (map h_sequence (fst (offer opts q m)))"
    by (cases rule: offer_cases [of opts q m]) (auto simp: map_tl distinct_tl dest: in_set_tl)
  moreover have "set (map h_sequence (fst (offer opts q m))) \<subseteq> insert (h_sequence m) (set (f tp))"
    unfolding assms(2)
    by (cases rule: offer_cases [of opts q m]) (auto dest: full_not_Nil in_set_tl)
  ultimately show ?thesis using assms by (intro placed_add)
qed

lemma unique_seqs_bury:
  assumes "unique_seqs R b"
  shows "unique_seqs R (bury tp m b)"
proof (cases "declared b tp \<and> deadLetter (options (state_of b tp))")
  case True
  let ?m = "m\<lparr>h_sequence := bsequence b + 1, h_redelivered := False\<rparr>"
  let ?f = "deadLetterTopic tp"
  have "placed (bsequence b + 1) R (seqs b)"
    using assms placed_counter by (fastforce simp: unique_seqs_def)
  then have "placed (bsequence b + 1) R
      ((seqs b)(?f := map h_sequence (fst (offer (options (state_of b ?f)) (queue b ?f) ?m))))"
    using assms placed_fresh [of "bsequence b" R "seqs b" "bsequence b + 1"]
    by (intro placed_offer) (auto simp: unique_seqs_def)
  with True show ?thesis
    by (simp add: unique_seqs_set_queue bury_def Let_def)
qed (use assms in \<open>auto simp: bury_def\<close>)

lemma bsequence_bury: "bsequence b \<le> bsequence (bury tp m b)"
  by (simp add: bury_def Let_def)

lemma seqs_bury: "set (seqs (bury tp m b) u) \<subseteq> insert (bsequence b + 1) (set (seqs b u))"
proof -
  have "set (map h_sequence (fst (offer opts q x))) \<subseteq> insert (h_sequence x) (set (map h_sequence q))"
    for opts q x
    by (cases rule: offer_cases [of opts q x]) (auto dest: full_not_Nil in_set_tl)
  note offered = this
  show ?thesis
    using offered [of _ _ "m\<lparr>h_sequence := Suc (bsequence b), h_redelivered := False\<rparr>"]
    by (auto simp: bury_def Let_def)
qed

lemma unique_seqs_admit:
  assumes "unique_seqs R b" and m: "h_sequence m \<le> bsequence b" "h_sequence m \<notin> R"
    "\<And>u. h_sequence m \<notin> set (seqs b u)"
  shows "unique_seqs R (snd (admit tp m b))"
proof -
  let ?st = "state_of b tp"
  obtain q out ok where o: "offer (options ?st) (messages ?st) m = (q, out, ok)"
    by (metis prod_cases3)
  let ?b = "case out of None \<Rightarrow> b | Some x \<Rightarrow> bury tp x b"
  have b: "unique_seqs R ?b" "bsequence b \<le> bsequence ?b"
    using assms(1) unique_seqs_bury bsequence_bury by (auto split: option.split)
  have "set (seqs ?b u) \<subseteq> insert (bsequence b + 1) (set (seqs b u))" for u
    using seqs_bury by (cases out) auto
  then have fresh: "h_sequence m \<notin> set (seqs ?b u)" for u
    using m by fastforce
  have "placed (bsequence ?b) R ((seqs ?b)(tp := map h_sequence (fst (offer (options ?st) (messages ?st) m))))"
    using b m fresh by (intro placed_offer) (auto simp: unique_seqs_def split: option.split)
  then show ?thesis
    using o by (simp add: unique_seqs_set_queue admit_state)
qed

section \<open>Publishing\<close>

text \<open>A publish to one destination: the next sequence number is issued and the copy admitted.\<close>

definition issue :: "topic \<Rightarrow> string \<Rightarrow> broker \<Rightarrow> bool result \<times> broker" where
  "issue tp body b =
     admit tp \<lparr>h_sequence = bsequence b + 1, h_body = body, h_redelivered = False\<rparr>
       (b\<lparr>bsequence := bsequence b + 1\<rparr>)"

lemma enqueueLocked_issue:
  assumes "well_formed b" "declared b tp"
  shows "enqueueLocked tp \<lparr>h_sequence = bsequence b + 1, h_body = body, h_redelivered = False\<rparr>
    (b\<lparr>bsequence := bsequence b + 1\<rparr>) = issue tp body b"
  using assms by (simp add: issue_def enqueueLocked_admit well_formed_def)

lemma issue_Inr: "fst (issue tp body b) = Inr (case offer (options (state_of b tp)) (queue b tp)
    \<lparr>h_sequence = bsequence b + 1, h_body = body, h_redelivered = False\<rparr> of (q, out, ok) \<Rightarrow> ok)"
  by (simp add: issue_def admit_def split: prod.split)

lemma well_formed_bsequence [simp]: "well_formed (b\<lparr>bsequence := n\<rparr>) = well_formed b"
  by (simp add: well_formed_def)

lemma options_issue [simp]: "options (state_of (snd (issue tp body b)) u) = options (state_of b u)"
  by (simp add: issue_def)

lemma binding_issue [simp]: "binding (state_of (snd (issue tp body b)) u) = binding (state_of b u)"
  by (simp add: issue_def)

lemma groups_issue [simp]: "groups (snd (issue tp body b)) = groups b"
  by (simp add: issue_def)

lemma declared_issue:
  "well_formed b \<Longrightarrow> declared b tp \<Longrightarrow> declared (snd (issue tp body b)) u \<longleftrightarrow> declared b u"
  using declared_admit [of "b\<lparr>bsequence := bsequence b + 1\<rparr>" tp] by (simp add: issue_def)

lemma well_formed_issue:
  "well_formed b \<Longrightarrow> declared b tp \<Longrightarrow> well_formed (snd (issue tp body b))"
  by (simp add: issue_def well_formed_admit)

lemma within_bounds_issue: "within_bounds b \<Longrightarrow> within_bounds (snd (issue tp body b))"
  by (simp add: issue_def within_bounds_admit)

lemma unique_seqs_issue:
  assumes "unique_seqs R b"
  shows "unique_seqs R (snd (issue tp body b))"
proof -
  have "unique_seqs R (b\<lparr>bsequence := bsequence b + 1\<rparr>)"
    using assms placed_counter by (fastforce simp: unique_seqs_def)
  moreover have "bsequence b + 1 \<notin> R \<and> bsequence b + 1 \<notin> set (seqs b u)" for u
    using assms placed_fresh unfolding unique_seqs_def by fastforce
  ultimately show ?thesis
    unfolding issue_def by (intro unique_seqs_admit) auto
qed

lemma issue_not_full:
  assumes "\<not> full (options (state_of b tp)) (queue b tp)"
  shows "issue tp body b =
    (Inr True, set_queue tp
       (queue b tp @ [\<lparr>h_sequence = bsequence b + 1, h_body = body, h_redelivered = False\<rparr>])
       (b\<lparr>bsequence := bsequence b + 1\<rparr>))"
  using assms by (simp add: issue_def admit_def offer_def)

lemma broker_publish_ungrouped:
  assumes "well_formed b" "declared b tp" "group (options (state_of b tp)) = []"
  shows "broker_publish tp body r b = issue tp body b"
proof -
  from assms(2) obtain st where st: "map_of (topics b) tp = Some st" by blast
  then have "put_state tp (state_of b tp) b = b"
    using assms(1) by (intro broker_eqI) (auto simp: well_formed_def fun_eq_iff state_of_def)
  then show ?thesis
    using assms st enqueueLocked_issue [OF assms(1,2)]
    by (simp add: broker_publish_def Let_def lookup_state_of)
qed

text \<open>Every property that one issue keeps is kept by the loop of a grouped publish.\<close>

definition same_shape :: "broker \<Rightarrow> broker \<Rightarrow> bool" where
  "same_shape b c \<longleftrightarrow>
     groups b = groups c \<and>
     (\<forall>u. (declared b u \<longleftrightarrow> declared c u) \<and> options (state_of b u) = options (state_of c u) \<and>
          binding (state_of b u) = binding (state_of c u))"

lemma same_shape_refl [simp]: "same_shape b b"
  by (simp add: same_shape_def)

lemma same_shape_trans: "same_shape a b \<Longrightarrow> same_shape b c \<Longrightarrow> same_shape a c"
  by (simp add: same_shape_def)

lemma same_shape_issue:
  "well_formed b \<Longrightarrow> declared b tp \<Longrightarrow> same_shape b (snd (issue tp body b))"
  by (simp add: same_shape_def declared_issue del: not_None_eq)

lemma publish_loop_preserves:
  assumes "well_formed b" "\<forall>n \<in> set names. declared b n" "P b"
    and "\<And>n c. well_formed c \<Longrightarrow> declared c n \<Longrightarrow> P c \<Longrightarrow> P (snd (issue n body c))"
  shows "\<exists>ok b'. publish_loop grp kind key body names acc b = (Inr ok, b') \<and>
    well_formed b' \<and> same_shape b b' \<and> P b'"
  using assms(1-3)
proof (induction names arbitrary: acc b)
  case (Cons n names)
  show ?case
  proof (cases "group (options (state_of b n)) = grp \<and> route_accepts kind (binding (state_of b n)) key")
    case False
    with Cons show ?thesis by auto
  next
    case True
    obtain ok c where ok: "issue n body b = (Inr ok, c)"
      using issue_Inr [of n body b] by (metis prod.collapse)
    have n: "declared b n" using Cons.prems by simp
    have c: "well_formed c" "P c" "same_shape b c"
      using well_formed_issue [OF Cons.prems(1) n, of body]
        same_shape_issue [OF Cons.prems(1) n, of body] assms(4) [OF Cons.prems(1) n Cons.prems(3)]
      by (simp_all add: ok)
    then have names: "\<forall>m \<in> set names. declared c m"
      using Cons.prems(2) by (auto simp: same_shape_def)
    obtain ok' b' where b':
      "publish_loop grp kind key body names (ok \<and> acc) c = (Inr ok', b')"
      "well_formed b' \<and> same_shape c b' \<and> P b'"
      using Cons.IH [OF c(1) names c(2)] by blast
    have "publish_loop grp kind key body (n # names) acc b = (Inr ok', b')"
      using True enqueueLocked_issue [OF Cons.prems(1) n, of body] ok b'(1) by simp
    then show ?thesis using b'(2) c(3) same_shape_trans by blast
  qed
qed simp

lemma declared_keys: "tp \<in> set (om_keys (topics b)) \<longleftrightarrow> declared b tp"
  by (auto simp: set_om_keys)

lemma well_formed_groups: "well_formed b \<Longrightarrow> om_ok g \<Longrightarrow> well_formed (b\<lparr>groups := g\<rparr>)"
  by (simp add: well_formed_def ordered_def provisioned_def)

lemma well_formedD: "well_formed b \<Longrightarrow> om_ok (topics b) \<and> om_ok (groups b)"
  by (simp add: well_formed_def ordered_def)

lemma broker_publish_grouped:
  assumes "declared b tp" "group (options (state_of b tp)) = grp" "grp \<noteq> []"
    and "map_of (groups b) grp = Some kind" "well_formed b"
  shows "broker_publish tp body r b =
    publish_loop grp kind (if r = [] then binding (state_of b tp) else r) body
      (om_keys (topics b)) True b"
proof -
  from assms(1) obtain st where st: "map_of (topics b) tp = Some st" by blast
  have "om_update grp kind (groups b) = groups b"
    using assms well_formedD by (intro om_update_id) auto
  with st assms show ?thesis
    by (auto simp: broker_publish_def lookup_state_of)
qed

lemma broker_publish_preserves:
  assumes b: "well_formed b" "declared b tp" "\<And>g. P (b\<lparr>groups := g\<rparr>)"
    and step: "\<And>n c. well_formed c \<Longrightarrow> declared c n \<Longrightarrow> P c \<Longrightarrow> P (snd (issue n body c))"
  shows "\<exists>ok b'. broker_publish tp body r b = (Inr ok, b') \<and> well_formed b' \<and> P b' \<and>
    (\<forall>u. (declared b' u \<longleftrightarrow> declared b u) \<and> options (state_of b' u) = options (state_of b u))"
proof -
  from b(3) [of "groups b"] have P: "P b" by simp
  from b(2) obtain st where st: "map_of (topics b) tp = Some st" by blast
  let ?grp = "group (options (state_of b tp))"
  show ?thesis
  proof (cases "?grp = []")
    case True
    obtain ok c where ok: "issue tp body b = (Inr ok, c)"
      using issue_Inr [of tp body b] by (metis prod.collapse)
    then have "well_formed c" "P c" "same_shape b c"
      using well_formed_issue [OF b(1,2), of body] step [OF b(1,2) P]
        same_shape_issue [OF b(1,2), of body] by simp_all
    then show ?thesis
      using broker_publish_ungrouped [OF b(1,2) True, of body r] ok unfolding same_shape_def by auto
  next
    case False
    define kind where "kind = (case map_of (groups b) ?grp of None \<Rightarrow> Exact | Some r \<Rightarrow> r)"
    define c where "c = b\<lparr>groups := om_update ?grp kind (groups b)\<rparr>"
    have c: "well_formed c" "\<forall>n \<in> set (om_keys (topics c)). declared c n" "P c"
      using b well_formedD [OF b(1)] unfolding c_def
      by (auto simp: set_om_keys intro!: well_formed_groups)
    have "broker_publish tp body r b =
        publish_loop ?grp kind (if r = [] then binding (state_of b tp) else r) body
          (om_keys (topics c)) True c"
      using False st by (simp add: broker_publish_def Let_def kind_def c_def lookup_state_of)
    moreover obtain ok b' where "publish_loop ?grp kind (if r = [] then binding (state_of b tp) else r) body
          (om_keys (topics c)) True c = (Inr ok, b')" "well_formed b'" "same_shape c b'" "P b'"
      using publish_loop_preserves [where P = P, OF c(1,2,3) step] by blast
    moreover have same: "declared c u \<longleftrightarrow> declared b u" "state_of c u = state_of b u" for u
      by (simp_all add: c_def)
    ultimately show ?thesis
      unfolding same_shape_def same by (metis (no_types, lifting))
  qed
qed

text \<open>The destinations a grouped publish reaches.\<close>

definition receives :: "broker \<Rightarrow> string \<Rightarrow> routing \<Rightarrow> string \<Rightarrow> topic \<Rightarrow> bool" where
  "receives b grp kind key tp \<longleftrightarrow>
     declared b tp \<and> group (options (state_of b tp)) = grp \<and>
     route_accepts kind (binding (state_of b tp)) key"

lemma publish_loop_recipients:
  assumes "well_formed b" "\<forall>n \<in> set names. declared b n" "distinct names"
    and "\<forall>n \<in> set names. receives b grp kind key n \<longrightarrow> \<not> full (options (state_of b n)) (queue b n)"
  shows "\<exists>b' sq. publish_loop grp kind key body names acc b = (Inr acc, b') \<and>
    (\<forall>u. queue b' u = queue b u @
       (if u \<in> set names \<and> receives b grp kind key u
        then [\<lparr>h_sequence = sq u, h_body = body, h_redelivered = False\<rparr>] else []))"
  using assms
proof (induction names arbitrary: acc b)
  case (Cons n names)
  have n: "declared b n" using Cons.prems by simp
  show ?case
  proof (cases "receives b grp kind key n")
    case False
    then have "publish_loop grp kind key body (n # names) acc b =
        publish_loop grp kind key body names acc b"
      using n by (auto simp: receives_def)
    with Cons.IH [of b acc] Cons.prems False show ?thesis by fastforce
  next
    case True
    let ?m = "\<lparr>h_sequence = bsequence b + 1, h_body = body, h_redelivered = False\<rparr>"
    define c where "c = set_queue n (queue b n @ [?m]) (b\<lparr>bsequence := bsequence b + 1\<rparr>)"
    have iss: "issue n body b = (Inr True, c)"
      using Cons.prems True by (simp add: issue_not_full c_def)
    have c: "well_formed c" "same_shape b c"
      using well_formed_issue [OF Cons.prems(1) n, of body]
        same_shape_issue [OF Cons.prems(1) n, of body] by (simp_all add: iss)
    have qc: "queue c u = (if u = n then queue b n @ [?m] else queue b u)" for u
      by (simp add: c_def)
    have rc: "receives c grp kind key u \<longleftrightarrow> receives b grp kind key u" for u
      using c(2) by (simp add: receives_def same_shape_def)
    have step: "publish_loop grp kind key body (n # names) acc b =
        publish_loop grp kind key body names acc c"
      using True enqueueLocked_issue [OF Cons.prems(1) n, of body] iss by (simp add: receives_def)
    have "\<forall>x \<in> set names. declared c x"
      "\<forall>x \<in> set names. receives c grp kind key x \<longrightarrow> \<not> full (options (state_of c x)) (queue c x)"
      using Cons.prems c(2) by (auto simp: rc qc same_shape_def)
    then obtain b' sq where b': "publish_loop grp kind key body names acc c = (Inr acc, b')"
      "\<forall>u. queue b' u = queue c u @
         (if u \<in> set names \<and> receives c grp kind key u
          then [\<lparr>h_sequence = sq u, h_body = body, h_redelivered = False\<rparr>] else [])"
      using Cons.IH [of c acc] c(1) Cons.prems(3) by auto
    have "queue b' u = queue b u @
         (if u \<in> set (n # names) \<and> receives b grp kind key u
          then [\<lparr>h_sequence = (sq(n := bsequence b + 1)) u, h_body = body, h_redelivered = False\<rparr>]
          else [])" for u
      using b'(2) True Cons.prems(3) by (auto simp: qc rc)
    with step b'(1) show ?thesis by metis
  qed
qed auto

section \<open>Taking, returning, purging\<close>

lemma broker_take_Some:
  assumes "broker_take tp b = Some (m, b')"
  shows "queue b tp = m # queue b' tp" "b' = set_queue tp (queue b' tp) b" "declared b tp"
  using assms by (auto simp: broker_take_def lookup_state_of split: option.splits list.splits)

lemma broker_take_None: "broker_take tp b = None \<longleftrightarrow> queue b tp = []"
  by (auto simp: broker_take_def state_of_def split: option.splits list.splits)

lemma broker_take_Cons:
  assumes "queue b tp = m # ms"
  shows "broker_take tp b = Some (m, set_queue tp ms b)"
  using assms by (auto simp: broker_take_def state_of_def split: option.splits)

lemma well_formed_set_queue: "well_formed b \<Longrightarrow> declared b tp \<Longrightarrow> well_formed (set_queue tp q b)"
  by (simp add: well_formed_def del: not_None_eq)

lemma unique_seqs_take:
  assumes "unique_seqs R b" "broker_take tp b = Some (m, b')"
  shows "unique_seqs (insert (h_sequence m) R) b'"
proof -
  note t = broker_take_Some [OF assms(2)]
  have "seqs b tp = h_sequence m # map h_sequence (queue b' tp)" using t(1) by simp
  from placed_take [OF assms(1) [unfolded unique_seqs_def] this]
  show ?thesis by (subst t(2)) (simp only: unique_seqs_set_queue)
qed

lemma unique_seqs_requeue:
  assumes "unique_seqs R b" "h_sequence m \<in> R"
  shows "unique_seqs (R - {h_sequence m}) (broker_requeue tp m b)"
proof -
  have "map h_sequence (m\<lparr>h_redelivered := True\<rparr> # queue b tp) = h_sequence m # seqs b tp"
    by simp
  then show ?thesis
    using placed_return [OF assms(1) [unfolded unique_seqs_def] assms(2), of tp]
    by (simp only: broker_requeue_def unique_seqs_set_queue)
qed

lemma unique_seqs_subset: "unique_seqs R b \<Longrightarrow> S \<subseteq> R \<Longrightarrow> unique_seqs S b"
  by (simp add: unique_seqs_def placed_subset)

lemma unique_seqs_purge:
  assumes "unique_seqs R b"
  shows "unique_seqs R (snd (broker_purge tp b))"
proof (cases "declared b tp")
  case True
  have "unique_seqs R (set_queue tp [] b)"
    using placed_remove [OF assms [unfolded unique_seqs_def], of "[]" tp]
    by (simp add: unique_seqs_set_queue)
  with True show ?thesis by (auto simp: broker_purge_def)
qed (use assms in \<open>simp add: broker_purge_def\<close>)

section \<open>A topic as a first-in first-out channel\<close>

definition publish_to :: "topic \<Rightarrow> string \<Rightarrow> broker \<Rightarrow> broker" where
  "publish_to tp body b = snd (broker_publish tp body [] b)"

definition take_body :: "topic \<Rightarrow> broker \<Rightarrow> (string \<times> broker) option" where
  "take_body tp b = map_option (\<lambda>(m, b'). (h_body m, b')) (broker_take tp b)"

text \<open>A declared topic without a group and without a bound.\<close>

definition plain_topic :: "topic \<Rightarrow> broker \<Rightarrow> bool" where
  "plain_topic tp b \<longleftrightarrow>
     well_formed b \<and> declared b tp \<and> group (options (state_of b tp)) = [] \<and>
     maxLength (options (state_of b tp)) = 0"

lemma plain_topic_publish:
  assumes "plain_topic tp b"
  shows "broker_publish tp body r b = (Inr True, set_queue tp
    (queue b tp @ [\<lparr>h_sequence = bsequence b + 1, h_body = body, h_redelivered = False\<rparr>])
    (b\<lparr>bsequence := bsequence b + 1\<rparr>))"
  using assms issue_not_full [of b tp body]
  by (simp add: plain_topic_def broker_publish_ungrouped full_def del: not_None_eq)

interpretation topic_fifo: fifo_channel "publish_to tp" "take_body tp"
    "\<lambda>b. map h_body (queue b tp)" "plain_topic tp"
  for tp :: topic
proof
  fix b x
  assume b: "plain_topic tp b"
  then show "map h_body (queue (publish_to tp x b) tp) = map h_body (queue b tp) @ [x]"
    by (simp add: publish_to_def plain_topic_publish)
  show "plain_topic tp (publish_to tp x b)"
    using b by (simp add: publish_to_def plain_topic_publish)
      (simp add: plain_topic_def well_formed_set_queue del: not_None_eq)
next
  fix b
  assume "plain_topic tp b" "map h_body (queue b tp) = []"
  then show "take_body tp b = None"
    by (simp add: take_body_def broker_take_None)
next
  fix b x xs
  assume b: "plain_topic tp b" "map h_body (queue b tp) = x # xs"
  then obtain m ms where m: "queue b tp = m # ms" "h_body m = x" "map h_body ms = xs"
    by auto
  show "\<exists>q'. take_body tp b = Some (x, q') \<and> map h_body (queue q' tp) = xs \<and> plain_topic tp q'"
    using b m broker_take_Cons [OF m(1)]
    by (intro exI [of _ "set_queue tp ms b"])
      (simp add: take_body_def plain_topic_def well_formed_set_queue del: not_None_eq)
qed

section \<open>A small broker\<close>

text \<open>
  One topic \<open>t\<close> that holds one message and keeps at most one, and its forensic destination:
  the concrete state at which the properties are instantiated.
\<close>

definition small_options :: topic_options where
  "small_options = default_topic_options\<lparr>maxLength := 1\<rparr>"

definition small_broker :: "topic_options \<Rightarrow> broker" where
  "small_broker opts =
     \<lparr>topics =
        [(deadLetterTopic ''t'',
          \<lparr>messages = [], options = forensicTopicOptions ''t'', binding = ''t''\<rparr>),
         (''t'',
          \<lparr>messages = [\<lparr>h_sequence = 1, h_body = ''a'', h_redelivered = False\<rparr>],
           options = opts, binding = ''t''\<rparr>)],
      groups = [(''g'', Broadcast)], bsequence = 1\<rparr>"

lemma dead_t_less: "deadLetterTopic ''t'' < ''t''" "deadLetterTopic ''t'' \<noteq> ''t''"
  by (simp_all add: deadLetterTopic_def kDeadLetterPrefix_def less_char_def)

lemma state_of_small_broker:
  "state_of (small_broker opts) u =
     (if u = ''t'' then
        \<lparr>messages = [\<lparr>h_sequence = 1, h_body = ''a'', h_redelivered = False\<rparr>],
         options = opts, binding = ''t''\<rparr>
      else if u = deadLetterTopic ''t'' then
        \<lparr>messages = [], options = forensicTopicOptions ''t'', binding = ''t''\<rparr>
      else default_topic_state)"
  using dead_t_less by (auto simp: state_of_def small_broker_def)

lemma declared_small_broker:
  "declared (small_broker opts) u \<longleftrightarrow> u = ''t'' \<or> u = deadLetterTopic ''t''"
  using dead_t_less by (auto simp: small_broker_def)

lemma well_formed_small_broker: "well_formed (small_broker opts)"
proof -
  have "ordered (small_broker opts)"
    using dead_t_less by (simp add: ordered_def small_broker_def om_ok_Cons)
  moreover have "provisioned (small_broker opts)"
    using dead_t_less
    by (simp add: provisioned_def declared_small_broker state_of_small_broker del: not_None_eq)
  ultimately show ?thesis by (simp add: well_formed_def)
qed

lemma unique_seqs_small_broker: "unique_seqs {} (small_broker opts)"
  by (auto simp: unique_seqs_def placed_def state_of_small_broker)
    (simp_all add: small_broker_def)

lemma within_bounds_small_broker: "within_bounds (small_broker opts)"
  by (auto simp: within_bounds_def state_of_small_broker default_topic_options_def)

section \<open>Properties\<close>

text \<open>
  C30: publishing to a declared destination never throws and keeps the broker in order: it stays
  well formed, no sequence number ends up in two places, bounded queues stay within their
  bound, whatever routing, overflow and dead-lettering the publish goes through.
\<close>

theorem publish_safe:
  assumes "well_formed b" "declared b tp" "unique_seqs R b" "within_bounds b"
  shows "\<exists>ok b'. broker_publish tp body r b = (Inr ok, b') \<and>
    well_formed b' \<and> unique_seqs R b' \<and> within_bounds b'"
proof -
  let ?P = "\<lambda>c. unique_seqs R c \<and> within_bounds c"
  have "?P (b\<lparr>groups := g\<rparr>)" for g
    using assms by (simp add: unique_seqs_def within_bounds_def)
  moreover have "?P (snd (issue n body c))" if "?P c" for n c
    using that by (simp add: unique_seqs_issue within_bounds_issue)
  ultimately show ?thesis
    using broker_publish_preserves [where P = ?P and body = body and r = r, OF assms(1,2)] by blast
qed

lemma publish_safe_witness:
  "\<exists>ok b'. broker_publish ''t'' ''x'' [] (small_broker small_options) = (Inr ok, b') \<and>
    well_formed b' \<and> unique_seqs {} b' \<and> within_bounds b'"
  by (rule publish_safe)
    (simp_all add: well_formed_small_broker unique_seqs_small_broker within_bounds_small_broker
      declared_small_broker del: not_None_eq)

text \<open>
  C31: what an overflowing publish does. The destination's queue becomes what the overflow
  policy prescribes, the publish is accepted or refused accordingly, a message that falls
  out is offered to the forensic destination under a new sequence number and as not yet
  delivered, and no other queue changes.
\<close>

theorem publish_overflow:
  assumes "well_formed b" "declared b tp" "group (options (state_of b tp)) = []"
    and offered: "offer (options (state_of b tp)) (queue b tp)
      \<lparr>h_sequence = bsequence b + 1, h_body = body, h_redelivered = False\<rparr> = (q, out, ok)"
  shows "\<exists>b'. broker_publish tp body r b = (Inr ok, b') \<and> queue b' tp = q \<and>
    queue b' (deadLetterTopic tp) =
      (if out = None \<or> \<not> deadLetter (options (state_of b tp)) then queue b (deadLetterTopic tp)
       else fst (offer (options (state_of b (deadLetterTopic tp))) (queue b (deadLetterTopic tp))
              ((the out)\<lparr>h_sequence := bsequence b + 2, h_redelivered := False\<rparr>))) \<and>
    (\<forall>u. u \<noteq> tp \<and> u \<noteq> deadLetterTopic tp \<longrightarrow> queue b' u = queue b u)"
  using assms by (cases out)
    (simp_all add: broker_publish_ungrouped issue_def admit_def bury_def Let_def)

lemma publish_overflow_witness:
  "\<exists>b'. broker_publish ''t'' ''x'' [] (small_broker small_options) = (Inr True, b') \<and>
    queue b' ''t'' = [\<lparr>h_sequence = 2, h_body = ''x'', h_redelivered = False\<rparr>] \<and>
    queue b' (deadLetterTopic ''t'') = [\<lparr>h_sequence = 3, h_body = ''a'', h_redelivered = False\<rparr>]"
proof -
  let ?b = "small_broker small_options"
  have "declared ?b ''t''" by (simp add: declared_small_broker del: not_None_eq)
  moreover have "group (options (state_of ?b ''t'')) = []"
    "offer (options (state_of ?b ''t'')) (queue ?b ''t'')
       \<lparr>h_sequence = bsequence ?b + 1, h_body = ''x'', h_redelivered = False\<rparr> =
     ([\<lparr>h_sequence = 2, h_body = ''x'', h_redelivered = False\<rparr>],
      Some \<lparr>h_sequence = 1, h_body = ''a'', h_redelivered = False\<rparr>, True)"
    by (simp_all add: state_of_small_broker small_options_def default_topic_options_def offer_def
        full_def) (simp add: small_broker_def)
  ultimately show ?thesis
    using publish_overflow [OF well_formed_small_broker, of small_options "''t''" "''x''"]
    by (fastforce simp: state_of_small_broker small_options_def default_topic_options_def offer_def
        full_def small_broker_def [THEN arg_cong, of bsequence])
qed

text \<open>
  What the routing kinds mean: a destination of the group wants every message, or those published
  under its binding, or those whose key is runs of words put end to end that fit the words of its
  binding.
\<close>

definition wants_copy :: "broker \<Rightarrow> string \<Rightarrow> routing \<Rightarrow> string \<Rightarrow> topic \<Rightarrow> bool" where
  "wants_copy b grp kind key tp \<longleftrightarrow>
     declared b tp \<and> group (options (state_of b tp)) = grp \<and>
     (case kind of
        Broadcast \<Rightarrow> True
      | Exact \<Rightarrow> binding (state_of b tp) = key
      | Pattern \<Rightarrow> (\<exists>segs. list_all2 fits (split_words (binding (state_of b tp))) segs \<and>
          concat segs = split_words key))"

lemma wants_copy_receives: "wants_copy b grp kind key tp \<longleftrightarrow> receives b grp kind key tp"
  by (cases kind) (simp_all add: wants_copy_def receives_def route_accepts_def routeMatches_words words_match_def)

text \<open>
  C32: who gets a message published into a routing group. As long as no destination that wants it
  is full, the message is copied, once, to the back of exactly the destinations of the group that
  want the key, under the routing kind of the group, and no other queue changes; when none wants
  it, it disappears. The publish reports success either way.
\<close>

theorem publish_recipients:
  assumes "well_formed b" "declared b tp" "group (options (state_of b tp)) = grp" "grp \<noteq> []"
    and "map_of (groups b) grp = Some kind"
    and "key = (if r = [] then binding (state_of b tp) else r)"
    and "\<forall>u. wants_copy b grp kind key u \<longrightarrow> \<not> full (options (state_of b u)) (queue b u)"
  shows "\<exists>b' sq. broker_publish tp body r b = (Inr True, b') \<and>
    (\<forall>u. queue b' u = queue b u @
       (if wants_copy b grp kind key u
        then [\<lparr>h_sequence = sq u, h_body = body, h_redelivered = False\<rparr>] else []))"
proof -
  have d: "distinct (om_keys (topics b))" "\<forall>n \<in> set (om_keys (topics b)). declared b n"
    using om_ok_distinct well_formedD [OF assms(1)] by (auto simp: declared_keys)
  have r: "u \<in> set (om_keys (topics b)) \<and> receives b grp kind key u \<longleftrightarrow> receives b grp kind key u" for u
    by (auto simp: set_om_keys receives_def)
  obtain b' sq where "publish_loop grp kind key body (om_keys (topics b)) True b = (Inr True, b')"
    "\<forall>u. queue b' u = queue b u @
       (if u \<in> set (om_keys (topics b)) \<and> receives b grp kind key u
        then [\<lparr>h_sequence = sq u, h_body = body, h_redelivered = False\<rparr>] else [])"
    using publish_loop_recipients [OF assms(1) d(2,1), where grp = grp and kind = kind and key = key
        and acc = True and body = body] assms(7) unfolding wants_copy_receives by blast
  moreover have "broker_publish tp body r b =
      publish_loop grp kind key body (om_keys (topics b)) True b"
    unfolding assms(6) by (rule broker_publish_grouped [OF assms(2-5,1)])
  ultimately show ?thesis unfolding r wants_copy_receives by metis
qed

lemma publish_recipients_witness:
  "\<exists>b' sq. broker_publish ''t'' ''x'' [] (small_broker (small_options\<lparr>group := ''g'', maxLength := 0\<rparr>)) =
      (Inr True, b') \<and>
    queue b' ''t'' =
      [\<lparr>h_sequence = 1, h_body = ''a'', h_redelivered = False\<rparr>,
       \<lparr>h_sequence = sq, h_body = ''x'', h_redelivered = False\<rparr>]"
proof -
  let ?b = "small_broker (small_options\<lparr>group := ''g'', maxLength := 0\<rparr>)"
  have full: "\<forall>u. wants_copy ?b ''g'' Broadcast ''t'' u \<longrightarrow> \<not> full (options (state_of ?b u)) (queue ?b u)"
    by (simp add: wants_copy_def state_of_small_broker full_def kDeadLetterExchange_def
        default_topic_options_def)
  have pre: "declared ?b ''t''" "group (options (state_of ?b ''t'')) = ''g''" "''g'' \<noteq> []"
    "map_of (groups ?b) ''g'' = Some Broadcast" "''t'' = (if ([] :: string) = [] then binding (state_of ?b ''t'') else [])"
    by (simp_all only: declared_small_broker state_of_small_broker) (simp_all add: small_broker_def)
  have "wants_copy ?b ''g'' Broadcast ''t'' ''t''"
    by (simp add: wants_copy_def declared_small_broker state_of_small_broker del: not_None_eq)
  then show ?thesis
    using publish_recipients [OF well_formed_small_broker pre full, where body = "''x''"]
    by (auto simp: state_of_small_broker dest!: spec [of _ "''t''"])
qed

text \<open>
  A destination without group and bound is first-in first-out: what is published after the
  waiting messages is delivered after them, in publication order, with nothing lost or
  duplicated.
\<close>

theorem topic_delivers_in_order:
  assumes "plain_topic tp b"
  shows "fst (take_items (take_body tp) (length (queue b tp) + length bodies)
           (put_items (publish_to tp) bodies b)) = map h_body (queue b tp) @ bodies"
  using assms by (intro topic_fifo.in_order_out) simp_all

lemma topic_delivers_in_order_witness:
  "fst (take_items (take_body ''t'') 3 (put_items (publish_to ''t'') [''x'', ''y'']
     (small_broker default_topic_options))) = [''a'', ''x'', ''y'']"
proof -
  have "plain_topic ''t'' (small_broker default_topic_options)"
    by (simp add: plain_topic_def well_formed_small_broker declared_small_broker
        state_of_small_broker default_topic_options_def del: not_None_eq)
  from topic_delivers_in_order [OF this, of "[''x'', ''y'']"] show ?thesis
    by (simp add: state_of_small_broker numeral_3_eq_3 del: take_items.simps)
qed

text \<open>
  A returned message comes back first and flagged as redelivered, and taking it again
  leaves the rest of the queue as it was.
\<close>

theorem requeue_then_take:
  assumes "well_formed b" "declared b tp"
  shows "broker_take tp (broker_requeue tp m b) = Some (m\<lparr>h_redelivered := True\<rparr>, b)"
proof -
  have "broker_take tp (broker_requeue tp m b) =
      Some (m\<lparr>h_redelivered := True\<rparr>, set_queue tp (queue b tp) (broker_requeue tp m b))"
    by (rule broker_take_Cons) (simp add: broker_requeue_def)
  then show ?thesis
    using assms set_queue_twice [of b tp "queue b tp"] set_queue_same [of b tp]
    by (simp add: broker_requeue_def well_formed_def del: not_None_eq)
qed

lemma requeue_then_take_witness:
  "broker_take ''t'' (broker_requeue ''t'' \<lparr>h_sequence = 0, h_body = ''z'', h_redelivered = False\<rparr>
     (small_broker small_options)) =
   Some (\<lparr>h_sequence = 0, h_body = ''z'', h_redelivered = True\<rparr>, small_broker small_options)"
  using requeue_then_take [OF well_formed_small_broker, of small_options "''t''"
      "\<lparr>h_sequence = 0, h_body = ''z'', h_redelivered = False\<rparr>"]
  by (simp add: declared_small_broker del: not_None_eq)

end
