(* ===== verification/Broker_Seqs.thy ===== *)
theory Broker_Seqs
  imports Broker_Props
begin

text \<open>
  Sequence numbers under any publish, also one that creates a destination implicitly or throws
  for a missing forensic destination: the broker never puts one number in two places, whatever
  it was handed and however the operation ends.
\<close>

section \<open>Enqueueing without assumptions\<close>

text \<open>
  From \<open>b\<close> to \<open>c\<close> the counter only grew, and a queue gained at most the numbers in \<open>X\<close> and
  newly issued ones.
\<close>

definition seqs_step :: "nat set \<Rightarrow> nat set \<Rightarrow> broker \<Rightarrow> broker \<Rightarrow> bool" where
  "seqs_step R X b c \<longleftrightarrow>
     unique_seqs R c \<and> bsequence b \<le> bsequence c \<and>
     (\<forall>u. set (seqs c u) \<subseteq> set (seqs b u) \<union> X \<union> {x. bsequence b < x})"

definition fresh_in :: "held \<Rightarrow> nat set \<Rightarrow> broker \<Rightarrow> bool" where
  "fresh_in m R b \<longleftrightarrow>
     h_sequence m \<le> bsequence b \<and> h_sequence m \<notin> R \<and> (\<forall>u. h_sequence m \<notin> set (seqs b u))"

lemma seqs_step_refl: "unique_seqs R b \<Longrightarrow> seqs_step R X b b"
  by (auto simp: seqs_step_def)

lemma seqs_step_unique: "seqs_step R X b c \<Longrightarrow> unique_seqs R c"
  by (simp add: seqs_step_def)

lemma seqs_step_mono: "seqs_step R X b c \<Longrightarrow> X \<subseteq> Y \<Longrightarrow> seqs_step R Y b c"
  unfolding seqs_step_def by blast

lemma seqs_step_trans:
  assumes "seqs_step R X a b" "seqs_step R X b c"
  shows "seqs_step R X a c"
proof -
  have "x \<in> set (seqs a u) \<union> X \<union> {x. bsequence a < x}" if "x \<in> set (seqs c u)" for x u
  proof -
    from that assms(2) have "x \<in> set (seqs b u) \<or> x \<in> X \<or> bsequence b < x"
      unfolding seqs_step_def by blast
    moreover have "x \<in> set (seqs b u) \<Longrightarrow> x \<in> set (seqs a u) \<union> X \<union> {x. bsequence a < x}"
      "bsequence a \<le> bsequence b"
      using assms(1) unfolding seqs_step_def by blast+
    ultimately show ?thesis by auto
  qed
  with assms show ?thesis unfolding seqs_step_def by (meson order.trans subsetI)
qed

lemma fresh_in_step:
  assumes "fresh_in m R b" "seqs_step R {} b c"
  shows "fresh_in m R c"
  using assms unfolding seqs_step_def fresh_in_def
  by (auto dest!: spec subsetD dest: leD simp del: set_map)

lemma seqs_step_append:
  assumes "unique_seqs R b" "fresh_in m R b"
  shows "seqs_step R {h_sequence m} b (set_queue tp (queue b tp @ [m]) b)"
proof -
  have "placed (bsequence b) R ((seqs b)(tp := map h_sequence (queue b tp @ [m])))"
    using assms by (intro placed_add [where x = "h_sequence m"])
      (auto simp: unique_seqs_def fresh_in_def placed_def)
  then show ?thesis
    by (auto simp: seqs_step_def unique_seqs_set_queue)
qed

lemma seqs_step_tl:
  assumes "unique_seqs R b"
  shows "seqs_step R {} b (set_queue tp (tl (queue b tp)) b)"
proof -
  have "placed (bsequence b) R ((seqs b)(tp := map h_sequence (tl (queue b tp))))"
    using assms by (intro placed_remove)
      (auto simp: unique_seqs_def placed_def map_tl distinct_tl dest: in_set_tl)
  then show ?thesis
    by (auto simp: seqs_step_def unique_seqs_set_queue dest: in_set_tl)
qed

lemma fresh_in_next:
  assumes "unique_seqs R b" "h_sequence m = bsequence b + 1"
  shows "unique_seqs R (b\<lparr>bsequence := bsequence b + 1\<rparr>) \<and>
    fresh_in m R (b\<lparr>bsequence := bsequence b + 1\<rparr>)"
  using assms placed_counter [of "bsequence b" R "seqs b" "bsequence b + 1"]
    placed_fresh [of "bsequence b" R "seqs b" "bsequence b + 1"]
  by (simp add: unique_seqs_def fresh_in_def)

lemma seqs_step_next:
  "seqs_step R {h_sequence m} (b\<lparr>bsequence := bsequence b + 1\<rparr>) c \<Longrightarrow>
     h_sequence m = bsequence b + 1 \<Longrightarrow> seqs_step R {} b c"
  by (fastforce simp: seqs_step_def)

lemma enqueueLocked_seqs:
  "unique_seqs R b \<Longrightarrow> fresh_in m R b \<Longrightarrow> seqs_step R {h_sequence m} b (snd (enqueueLocked tp m b))"
  and deadLetterLocked_seqs:
  "unique_seqs R b \<Longrightarrow> seqs_step R {} b (snd (deadLetterLocked tp m b))"
proof (induction tp m b and tp m b rule: enqueueLocked_deadLetterLocked.induct)
  case (1 tp message b)
  note app = seqs_step_append
  have direct: "seqs_step R {h_sequence message} b (set_queue tp (queue c tp @ [message]) c)"
    if "seqs_step R {} b c" for c
    using that app [of R c message tp] fresh_in_step [OF "1.prems"(2) that]
      seqs_step_trans [of R "{h_sequence message}" b c] seqs_step_mono [OF that, of "{h_sequence message}"]
    by (auto simp: seqs_step_def [of R "{}" b c])
  have bury: "seqs_step R {} b (snd (deadLetterLocked tp (hd (messages (state_of b tp)))
      (set_queue tp (tl (messages (state_of b tp))) b)))"
    if "maxLength (options (state_of b tp)) > 0 \<and>
        length (messages (state_of b tp)) \<ge> unat (maxLength (options (state_of b tp)))"
      "overflow (options (state_of b tp)) = DropHead" "deadLetter (options (state_of b tp))"
    using "1.IH"(1) [OF refl that(1,2) refl refl that(3)
        seqs_step_unique [OF seqs_step_tl [OF "1.prems"(1)]]]
    by (rule seqs_step_trans [OF seqs_step_tl [OF "1.prems"(1)]])
  have dlx: "seqs_step R {} b (snd (deadLetterLocked tp message b))"
    if "maxLength (options (state_of b tp)) > 0 \<and>
        length (messages (state_of b tp)) \<ge> unat (maxLength (options (state_of b tp)))"
      "overflow (options (state_of b tp)) = RejectPublishDlx" "deadLetter (options (state_of b tp))"
    using "1.IH"(2) [OF refl that] "1.prems"(1) by blast
  have dropped: "seqs_step R {} b (set_queue tp (tl (messages (state_of b tp))) b)"
    by (rule seqs_step_tl [OF "1.prems"(1)])
  note weaken = seqs_step_mono [OF _ empty_subsetI]
  show ?case
    using direct [OF seqs_step_refl [OF "1.prems"(1)]] direct [OF dropped] dlx [THEN weaken]
      weaken [OF bury] direct [OF bury] seqs_step_refl [OF "1.prems"(1)]
    by (subst enqueueLocked.simps)
      (auto simp: Let_def split: prod.split sum.split overflow_policy.split)
next
  case (2 source message b)
  let ?m = "message\<lparr>h_sequence := bsequence b + 1, h_redelivered := False\<rparr>"
  let ?b = "b\<lparr>bsequence := bsequence b + 1\<rparr>"
  have "seqs_step R {} b (snd (enqueueLocked (deadLetterTopic source) ?m ?b))"
    if "map_of (topics b) source = Some st" "deadLetter (options st)"
      "map_of (topics b) (deadLetterTopic source) = Some f" for st f
  proof -
    have "\<not> \<not> deadLetter (options st)" using that(2) by simp
    from "2.IH" [OF that(1) this that(3)] fresh_in_next [OF "2.prems", of ?m]
    show ?thesis by (intro seqs_step_next [where m = ?m]) simp_all
  qed
  with seqs_step_refl [OF "2.prems"] show ?case
    by (subst deadLetterLocked.simps) (auto split: option.split prod.split sum.split)
qed

section \<open>Every operation keeps the numbers apart\<close>

lemma unique_seqs_enqueue_next:
  assumes "unique_seqs R b"
  shows "unique_seqs R (snd (enqueueLocked tp
    \<lparr>h_sequence = bsequence b + 1, h_body = body, h_redelivered = False\<rparr>
    (b\<lparr>bsequence := bsequence b + 1\<rparr>)))"
  using fresh_in_next [OF assms, of "\<lparr>h_sequence = bsequence b + 1, h_body = body, h_redelivered = False\<rparr>"]
    enqueueLocked_seqs seqs_step_unique by fastforce

lemma unique_seqs_publish_loop:
  "unique_seqs R b \<Longrightarrow> unique_seqs R (snd (publish_loop grp kind key body names acc b))"
proof (induction names arbitrary: acc b)
  case (Cons n names)
  show ?case
    using Cons.IH Cons.prems unique_seqs_enqueue_next [OF Cons.prems, of n body]
    by (auto split: prod.split sum.split)
qed simp

lemma unique_seqs_groups [simp]: "unique_seqs R (b\<lparr>groups := g\<rparr>) = unique_seqs R b"
  by (simp add: unique_seqs_def)

lemma unique_seqs_publish:
  assumes "unique_seqs R b"
  shows "unique_seqs R (snd (broker_publish tp body r b))"
proof -
  have "unique_seqs R (put_state tp (state_of b tp) b)"
    using assms by (simp add: unique_seqs_def if_distrib cong: if_cong) (simp add: placed_def)
  then show ?thesis
    using unique_seqs_enqueue_next [of R "put_state tp (state_of b tp) b" tp body] assms
    by (simp add: broker_publish_def Let_def unique_seqs_publish_loop)
qed

lemma unique_seqs_deadLetter:
  "unique_seqs R b \<Longrightarrow> unique_seqs R (snd (broker_deadLetter tp m b))"
  unfolding broker_deadLetter_def by (rule seqs_step_unique [OF deadLetterLocked_seqs])

lemma unique_seqs_ensureTopic:
  assumes "unique_seqs R b"
  shows "unique_seqs R (snd (broker_ensureTopic tp opts b))"
proof -
  have "unique_seqs R (put_state tp \<lparr>messages = [], options = opts, binding = bnd\<rparr> c)"
    if "unique_seqs R c" for c bnd
    using placed_remove [OF that [unfolded unique_seqs_def], of "[]" tp] that
    by (simp add: unique_seqs_def if_distrib fun_upd_def cong: if_cong)
  then show ?thesis
    using assms by (auto simp: broker_ensureTopic_def Let_def split: option.split)
qed

lemma unique_seqs_held:
  "unique_seqs R b \<Longrightarrow> queue b tp = m # ms \<Longrightarrow> h_sequence m \<notin> R"
  unfolding unique_seqs_def placed_def by (metis disjoint_iff list.set_intros(1) list.simps(9))

lemma unique_seqs_empty [simp]: "unique_seqs {} empty_broker"
  by (simp add: unique_seqs_def placed_def empty_broker_def state_of_def)

end
