(* ===== verification/In_Memory.thy ===== *)
theory In_Memory
  imports Broker_Seqs
begin

text \<open>
  The in-memory transport: class \<open>InMemoryTransport\<close> of
  \<open>src/transport/InMemoryTransport.cpp\<close>. A transport is a record of its members; every
  operation maps the transport, and where it goes through the broker the broker, to its
  result and their new values. The wall clock does not occur: \<open>pump\<close> is given the list of what
  the rest of the process does to the broker while it does not hold the mutex, one entry for
  each iteration the deadline allows, so that a list of length \<open>n\<close> stands for a slice of \<open>n\<close>
  iterations.
\<close>

section \<open>State\<close>

record 'h in_memory =
  im_connected :: bool
  im_subscribed :: bool
  im_topic :: topic
  im_handler :: "'h delivery_handler option"
  im_outstanding :: "(nat, held) omap"
  im_stats :: stats

definition im_new :: "'h in_memory" where
  "im_new =
     \<lparr>im_connected = False, im_subscribed = False, im_topic = [], im_handler = None,
      im_outstanding = [], im_stats = no_stats\<rparr>"

definition im_capabilities :: capabilities where
  "im_capabilities =
     default_capabilities
       \<lparr>cap_name := ''inmemory'', durableDelivery := False, publisherConfirms := True,
        manualAcknowledgement := True, redeliveryFlag := True, deadLetterCap := True,
        routingGroups := True, fifoPerTopic := True, competingConsumers := True,
        topicDepthCap := True, purgeCap := True, requeueCap := True,
        deferredAcknowledgement := True, boundedQueue := True\<rparr>"

definition count :: "(stats \<Rightarrow> stats) \<Rightarrow> 'h in_memory \<Rightarrow> 'h in_memory" where
  "count f t = t\<lparr>im_stats := f (im_stats t)\<rparr>"

section \<open>Connection and topics\<close>

definition im_connect :: "'h in_memory \<Rightarrow> 'h in_memory" where
  "im_connect t = t\<lparr>im_connected := True\<rparr>"

definition im_ready :: "'h in_memory \<Rightarrow> bool" where
  "im_ready t = im_connected t"

text \<open>Highest sequence number first, so that the earliest abandoned message ends up in front.\<close>

definition returnOutstanding :: "'h in_memory \<Rightarrow> broker \<Rightarrow> 'h in_memory \<times> broker" where
  "returnOutstanding t b =
     (t\<lparr>im_outstanding := []\<rparr>,
      foldr (\<lambda>(tag, m). broker_requeue (im_topic t) m) (im_outstanding t) b)"

definition im_close :: "'h in_memory \<Rightarrow> broker \<Rightarrow> 'h in_memory \<times> broker" where
  "im_close t b =
     (case returnOutstanding t b of
        (t1, b1) \<Rightarrow>
          (t1\<lparr>im_connected := False, im_subscribed := False, im_handler := None, im_topic := []\<rparr>, b1))"

definition im_destroy :: "'h in_memory \<Rightarrow> broker \<Rightarrow> broker" where
  "im_destroy t b = snd (returnOutstanding t b)"

definition msg_before_connect :: "string \<Rightarrow> string" where
  "msg_before_connect operation = operation @ ''() called before connect()''"

definition im_ensureTopic ::
  "topic \<Rightarrow> topic_options \<Rightarrow> 'h in_memory \<Rightarrow> broker \<Rightarrow> unit result \<times> broker" where
  "im_ensureTopic tp opts t b =
     (if \<not> im_connected t then (Inl (Logic_Error (msg_before_connect ''ensureTopic'')), b)
      else if deadLetter opts
      then (case broker_ensureTopic (deadLetterTopic tp) (forensicTopicOptions tp) b of
              (Inl e, b1) \<Rightarrow> (Inl e, b1)
            | (Inr _, b1) \<Rightarrow> broker_ensureTopic tp opts b1)
      else broker_ensureTopic tp opts b)"

definition im_topicDepth :: "topic \<Rightarrow> 'h in_memory \<Rightarrow> broker \<Rightarrow> u32 result" where
  "im_topicDepth tp t b =
     (if \<not> im_connected t then Inl (Logic_Error (msg_before_connect ''topicDepth''))
      else Inr (broker_depth tp b))"

definition im_purgeTopic :: "topic \<Rightarrow> 'h in_memory \<Rightarrow> broker \<Rightarrow> u32 result \<times> broker" where
  "im_purgeTopic tp t b =
     (if \<not> im_connected t then (Inl (Logic_Error (msg_before_connect ''purgeTopic'')), b)
      else (case broker_purge tp b of (n, b1) \<Rightarrow> (Inr n, b1)))"

section \<open>Sending\<close>

definition msg_not_durable :: string where
  "msg_not_durable =
     ''backend 'inmemory' cannot deliver durable messages '' @
     ''(Capabilities::durableDelivery is false); check the capability before requesting it''"

definition im_send ::
  "topic \<Rightarrow> string \<Rightarrow> send_options \<Rightarrow> 'h in_memory \<Rightarrow> broker
     \<Rightarrow> bool result \<times> 'h in_memory \<times> broker" where
  "im_send tp payload opts t b =
     (if \<not> im_connected t then (Inl (Logic_Error (msg_before_connect ''send'')), t, b)
      else if so_durable opts then (Inl (Logic_Error msg_not_durable), t, b)
      else
        (case broker_publish tp payload (so_route opts) b of
           (Inl e, b1) \<Rightarrow> (Inl e, t, b1)
         | (Inr accepted, b1) \<Rightarrow>
             (Inr accepted,
              count (\<lambda>s. s\<lparr>sent := sent s + 1, bytesSent := bytesSent s + length payload\<rparr>) t,
              b1)))"

section \<open>Receiving\<close>

definition msg_no_handler :: string where
  "msg_no_handler = ''subscribe() requires a callable handler''"

definition msg_subscribed_twice :: "topic \<Rightarrow> string" where
  "msg_subscribed_twice tp =
     ''subscribe() called twice on one transport; use one transport per '' @
     ''topic instead of overwriting the active subscription to '' @ quoted tp"

definition im_subscribe ::
  "topic \<Rightarrow> 'h delivery_handler option \<Rightarrow> 'h in_memory \<Rightarrow> unit result \<times> 'h in_memory" where
  "im_subscribe tp handler t =
     (if \<not> im_connected t then (Inl (Logic_Error (msg_before_connect ''subscribe'')), t)
      else if handler = None then (Inl (Invalid_Argument msg_no_handler), t)
      else if im_subscribed t then (Inl (Logic_Error (msg_subscribed_twice (im_topic t))), t)
      else (Inr (), t\<lparr>im_topic := tp, im_handler := handler, im_subscribed := True\<rparr>))"

text \<open>The switch over a disposition that \<open>pump\<close> and \<open>settle\<close> end with.\<close>

definition perform ::
  "disposition \<Rightarrow> held \<Rightarrow> 'h in_memory \<Rightarrow> broker \<Rightarrow> unit result \<times> 'h in_memory \<times> broker" where
  "perform d message t b =
     (case d of
        Ack \<Rightarrow> (Inr (), count (\<lambda>s. s\<lparr>acksPerformed := acksPerformed s + 1\<rparr>) t, b)
      | Requeue \<Rightarrow>
          (Inr (), count (\<lambda>s. s\<lparr>requeuesPerformed := requeuesPerformed s + 1\<rparr>) t,
           broker_requeue (im_topic t) message b)
      | Reject \<Rightarrow>
          (case broker_deadLetter (im_topic t) message b of
             (Inl e, b1) \<Rightarrow> (Inl e, t, b1)
           | (Inr _, b1) \<Rightarrow>
               (Inr (), count (\<lambda>s. s\<lparr>rejectsPerformed := rejectsPerformed s + 1\<rparr>) t, b1))
      | Deferred \<Rightarrow> (Inr (), t, b))"

text \<open>
  One iteration of the loop of \<open>pump\<close>, cut where the handler runs: up to the call (nothing is
  fetched while a delivery is outstanding or when the topic is empty), and from the handler's
  outcome on.
\<close>

definition im_fetch :: "'h in_memory \<Rightarrow> broker \<Rightarrow> (held \<times> 'h in_memory \<times> broker) option" where
  "im_fetch t b =
     (if im_outstanding t \<noteq> [] then None
      else
        (case broker_take (im_topic t) b of
           None \<Rightarrow> None
         | Some (message, b1) \<Rightarrow>
             Some (message,
               (count (\<lambda>s. s\<lparr>received := received s + 1,
                             bytesReceived := bytesReceived s + length (h_body message)\<rparr>) t)
                 \<lparr>im_outstanding := om_update (h_sequence message) message (im_outstanding t)\<rparr>,
               b1)))"

definition delivery_of :: "held \<Rightarrow> delivery" where
  "delivery_of message =
     \<lparr>d_body = h_body message, d_redelivered = h_redelivered message,
      d_tag = h_sequence message\<rparr>"

definition im_finish ::
  "held \<Rightarrow> disposition result \<Rightarrow> 'h in_memory \<Rightarrow> broker \<Rightarrow> bool result \<times> 'h in_memory \<times> broker" where
  "im_finish message outcome t b =
     (case outcome of
        Inl e \<Rightarrow> (Inl e, count (\<lambda>s. s\<lparr>abandoned := abandoned s + 1\<rparr>) t, b)
      | Inr d \<Rightarrow>
          if d = Deferred then (Inr True, t, b)
          else
            (case perform d message
                    (t\<lparr>im_outstanding := om_delete (h_sequence message) (im_outstanding t)\<rparr>) b of
               (Inl e, t1, b1) \<Rightarrow> (Inl e, t1, b1)
             | (Inr _, t1, b1) \<Rightarrow> (Inr True, t1, b1)))"

fun im_pump_loop ::
  "'h delivery_handler \<Rightarrow> (broker \<Rightarrow> broker) list \<Rightarrow> 'h in_memory \<Rightarrow> 'h \<Rightarrow> broker
     \<Rightarrow> bool result \<times> 'h in_memory \<times> 'h \<times> broker" where
  "im_pump_loop handler [] t h b = (Inr True, t, h, b)"
| "im_pump_loop handler (other # others) t h b =
     (case im_fetch t b of
        None \<Rightarrow> im_pump_loop handler others t h (other b)
      | Some (message, t1, b1) \<Rightarrow>
          (case handler (delivery_of message) h of
             (outcome, h1) \<Rightarrow>
               (case im_finish message outcome t1 (other b1) of
                  (r, t2, b2) \<Rightarrow> (r, t2, h1, b2))))"

definition im_pump ::
  "(broker \<Rightarrow> broker) list \<Rightarrow> 'h in_memory \<Rightarrow> 'h \<Rightarrow> broker
     \<Rightarrow> bool result \<times> 'h in_memory \<times> 'h \<times> broker" where
  "im_pump others t h b =
     (if \<not> im_connected t then (Inr False, t, h, b)
      else
        (case im_handler t of
           None \<Rightarrow> (Inr True, t, h, fold (\<lambda>other. other) others b)
         | Some handler \<Rightarrow> im_pump_loop handler others t h b))"

definition msg_settle_deferred :: string where
  "msg_settle_deferred =
     ''settle() cannot be called with Disposition::Deferred; a delivery already deferred '' @
     ''must be settled with Ack, Reject or Requeue''"

definition msg_unknown_tag :: "nat \<Rightarrow> string" where
  "msg_unknown_tag tag =
     ''settle() called for tag '' @ to_string tag @ '', which is not an outstanding '' @
     ''deferred delivery on this transport (already settled, or never deferred)''"

definition im_settle ::
  "nat \<Rightarrow> disposition \<Rightarrow> 'h in_memory \<Rightarrow> broker \<Rightarrow> unit result \<times> 'h in_memory \<times> broker" where
  "im_settle tag d t b =
     (if \<not> im_connected t then (Inl (Logic_Error (msg_before_connect ''settle'')), t, b)
      else if d = Deferred then (Inl (Invalid_Argument msg_settle_deferred), t, b)
      else
        (case map_of (im_outstanding t) tag of
           None \<Rightarrow> (Inl (Logic_Error (msg_unknown_tag tag)), t, b)
         | Some message \<Rightarrow>
             perform d message (t\<lparr>im_outstanding := om_delete tag (im_outstanding t)\<rparr>) b))"

end
