(* ===== verification/In_Memory_Props.thy ===== *)
theory In_Memory_Props
  imports In_Memory
begin

text \<open>
  Properties of the in-memory transport: what one \<open>pump\<close> does for every outcome of the handler,
  crash safety, settlement, declaration, and two behaviours that need care (an implicitly
  created topic has no forensic destination; a return ignores the bound of the topic).
\<close>

section \<open>Lemmas\<close>

lemma count_sel [simp]:
  "im_connected (count f t) = im_connected t" "im_subscribed (count f t) = im_subscribed t"
  "im_topic (count f t) = im_topic t" "im_handler (count f t) = im_handler t"
  "im_outstanding (count f t) = im_outstanding t" "im_stats (count f t) = f (im_stats t)"
  by (simp_all add: count_def)

lemma perform_outstanding [simp]:
  "im_outstanding (fst (snd (perform d m t b))) = im_outstanding t"
  by (simp add: perform_def split: disposition.split prod.split sum.split)

lemma im_fetch_Cons:
  assumes "im_outstanding t = []" "queue b (im_topic t) = m # ms"
  shows "im_fetch t b = Some (m,
    (count (\<lambda>s. s\<lparr>received := received s + 1,
                  bytesReceived := bytesReceived s + length (h_body m)\<rparr>) t)
      \<lparr>im_outstanding := [(h_sequence m, m)]\<rparr>, set_queue (im_topic t) ms b)"
  using assms broker_take_Cons [OF assms(2)] by (simp add: im_fetch_def)

lemma im_fetch_held_back: "im_outstanding t \<noteq> [] \<Longrightarrow> im_fetch t b = None"
  by (simp add: im_fetch_def)

lemma im_fetch_empty: "queue b (im_topic t) = [] \<Longrightarrow> im_fetch t b = None"
  by (simp add: im_fetch_def broker_take_None [THEN iffD2])

lemma im_pump_loop_idle:
  assumes "im_outstanding t \<noteq> []"
  shows "im_pump_loop f others t h b = (Inr True, t, h, fold (\<lambda>other. other) others b)"
  by (induction others arbitrary: b) (simp_all add: im_fetch_held_back [OF assms])

lemma om_delete_single [simp]: "om_delete k [(k, v)] = []"
  by (simp add: om_delete_def)

lemma broker_deadLetter_bury:
  "well_formed b \<Longrightarrow> broker_deadLetter tp m b = (Inr (), bury tp m b)"
  by (simp add: broker_deadLetter_def deadLetterLocked_bury well_formed_def)

section \<open>Declarations\<close>

lemma well_formed_declare:
  assumes "well_formed b" "\<not> declared b tp"
    and "deadLetter opts \<Longrightarrow> declared b (deadLetterTopic tp) \<and>
      \<not> deadLetter (options (state_of b (deadLetterTopic tp)))"
    and "\<And>u. declared b u \<Longrightarrow> deadLetter (options (state_of b u)) \<Longrightarrow> deadLetterTopic u \<noteq> tp"
  shows "well_formed (put_state tp \<lparr>messages = [], options = opts, binding = bnd\<rparr> b)"
  using assms unfolding well_formed_def provisioned_def
  by (auto simp del: not_None_eq)

lemma no_dead_source:
  assumes "well_formed b" "\<not> declared b tp" "declared b u" "deadLetter (options (state_of b u))"
  shows "deadLetterTopic u \<noteq> tp"
  using assms provisionedD [of b u] by (auto simp: well_formed_def)

lemma well_formed_broker_ensureTopic:
  assumes "well_formed b"
    and "deadLetter opts \<Longrightarrow> declared b (deadLetterTopic tp) \<and>
      \<not> deadLetter (options (state_of b (deadLetterTopic tp)))"
  shows "well_formed (snd (broker_ensureTopic tp opts b))"
proof -
  have "well_formed (b\<lparr>groups := om_update g r (groups b)\<rparr>)" for g r
    using assms(1) well_formedD [OF assms(1)] by (intro well_formed_groups) auto
  moreover have "well_formed (put_state tp \<lparr>messages = [], options = opts, binding = bnd\<rparr> c)"
    if "well_formed c" "topics c = topics b" "map_of (topics c) tp = None" for c bnd
    using assms(2) that no_dead_source [OF that(1), of tp]
    by (intro well_formed_declare) (auto simp: state_of_def)
  ultimately show ?thesis
    using assms(1) by (auto simp: broker_ensureTopic_def Let_def split: option.split)
qed

lemma broker_ensureTopic_Inr:
  assumes "broker_ensureTopic tp opts b = (Inr u, b')"
  shows "declared b' tp" "same_declaration (options (state_of b' tp)) opts"
    "group opts \<noteq> [] \<Longrightarrow> map_of (groups b') (group opts) = Some (routing opts)"
    "declared b v \<Longrightarrow> map_of (topics b') v = map_of (topics b) v"
    "map_of (groups b) g = Some k \<Longrightarrow> map_of (groups b') g = Some k"
  using assms
  by (auto simp: broker_ensureTopic_def Let_def state_of_def split: if_splits option.splits)

lemma broker_ensureTopic_again:
  assumes "declared b tp" "same_declaration (options (state_of b tp)) opts"
    and "group opts \<noteq> [] \<Longrightarrow> map_of (groups b) (group opts) = Some (routing opts)"
  shows "broker_ensureTopic tp opts b = (Inr (), b)"
  using assms by (auto simp: broker_ensureTopic_def Let_def state_of_def)

section \<open>A small subscriber\<close>

definition small_subscriber :: "'h delivery_handler \<Rightarrow> 'h in_memory" where
  "small_subscriber f =
     \<lparr>im_connected = True, im_subscribed = True, im_topic = ''t'', im_handler = Some f,
      im_outstanding = [], im_stats = no_stats\<rparr>"

lemma small_subscriber_sel [simp]:
  "im_connected (small_subscriber f)" "im_topic (small_subscriber f) = ''t''"
  "im_handler (small_subscriber f) = Some f" "im_outstanding (small_subscriber f) = []"
  "im_stats (small_subscriber f) = no_stats"
  by (simp_all add: small_subscriber_def)

abbreviation small_message :: held where
  "small_message \<equiv> \<lparr>h_sequence = 1, h_body = ''a'', h_redelivered = False\<rparr>"

lemma queue_small_broker: "queue (small_broker opts) ''t'' = [small_message]"
  by (simp add: state_of_small_broker)

lemma well_formed_small_taken: "well_formed (set_queue ''t'' q (small_broker opts))"
  by (intro well_formed_set_queue well_formed_small_broker)
    (simp add: declared_small_broker del: not_None_eq)

section \<open>Properties\<close>

text \<open>
  Declaring a topic keeps the broker well formed whether or not the declaration is refused;
  when it is accepted, the topic exists with the declared shared properties, its forensic
  destination exists if dead-lettering was asked for, and declaring it again changes nothing.
\<close>

theorem im_ensureTopic_provisions:
  assumes "well_formed b" "im_ensureTopic tp opts t b = (r, b')"
  shows "well_formed b' \<and>
    (r = Inr () \<longrightarrow> declared b' tp \<and> same_declaration (options (state_of b' tp)) opts \<and>
       (deadLetter opts \<longrightarrow> declared b' (deadLetterTopic tp) \<and>
          same_declaration (options (state_of b' (deadLetterTopic tp))) (forensicTopicOptions tp)) \<and>
       im_ensureTopic tp opts t b' = (Inr (), b'))"
proof (cases "im_connected t \<and> deadLetter opts")
  case False
  show ?thesis
  proof (cases "im_connected t")
    case c: False
    with assms show ?thesis by (auto simp: im_ensureTopic_def)
  next
    case c: True
    with False have opts: "\<not> deadLetter opts" by simp
    with c assms(2) have r: "broker_ensureTopic tp opts b = (r, b')" by (simp add: im_ensureTopic_def)
    then have w: "well_formed b'"
      using well_formed_broker_ensureTopic [OF assms(1), of opts tp] opts by simp
    show ?thesis
    proof (cases r)
      case (Inr u)
      note g = broker_ensureTopic_Inr [OF r [unfolded Inr]]
      have "broker_ensureTopic tp opts b' = (Inr (), b')"
        using g by (intro broker_ensureTopic_again) auto
      then show ?thesis
        using w opts c g(1,2) by (simp add: im_ensureTopic_def del: not_None_eq)
    qed (use w in simp)
  qed
next
  case True
  obtain r1 b1 where b1: "broker_ensureTopic (deadLetterTopic tp) (forensicTopicOptions tp) b = (r1, b1)"
    by fastforce
  have w1: "well_formed b1"
    using well_formed_broker_ensureTopic [OF assms(1), of "forensicTopicOptions tp" "deadLetterTopic tp"] b1
    by simp
  show ?thesis
  proof (cases r1)
    case (Inl e)
    then show ?thesis using assms True b1 w1 by (auto simp: im_ensureTopic_def)
  next
    case (Inr u)
    note f = broker_ensureTopic_Inr [OF b1 [unfolded Inr]]
    have r: "broker_ensureTopic tp opts b1 = (r, b')"
      using assms(2) True b1 Inr by (simp add: im_ensureTopic_def)
    have w: "well_formed b'"
      using well_formed_broker_ensureTopic [OF w1, of opts tp] r f(1,2)
      by (simp add: same_declaration_def del: not_None_eq)
    show ?thesis
    proof (cases r)
      case (Inl e)
      with w show ?thesis by simp
    next
      case r': (Inr u')
      note g = broker_ensureTopic_Inr [OF r [unfolded r']]
      have d: "declared b' (deadLetterTopic tp)"
        "options (state_of b' (deadLetterTopic tp)) = options (state_of b1 (deadLetterTopic tp))"
        using f(1) g(4) [OF f(1)] by (simp_all add: state_of_def)
      have "broker_ensureTopic (deadLetterTopic tp) (forensicTopicOptions tp) b' = (Inr (), b')"
        using d f(2,3) g(5) by (intro broker_ensureTopic_again) auto
      moreover have "broker_ensureTopic tp opts b' = (Inr (), b')"
        using g by (intro broker_ensureTopic_again) auto
      ultimately show ?thesis
        using w True d f(2) g(1,2) by (simp add: im_ensureTopic_def del: not_None_eq)
    qed
  qed
qed

lemma im_ensureTopic_provisions_witness:
  "\<exists>b'. im_ensureTopic ''t'' default_topic_options (im_connect (im_new :: unit in_memory)) empty_broker = (Inr (), b') \<and>
    well_formed b' \<and> declared b' ''t'' \<and> declared b' (deadLetterTopic ''t'')"
proof -
  have "fst (im_ensureTopic ''t'' default_topic_options (im_connect (im_new :: unit in_memory)) empty_broker) = Inr ()"
    by (simp add: im_ensureTopic_def im_connect_def default_topic_options_def broker_ensureTopic_def
        empty_broker_def)
  then obtain b' where
    b': "im_ensureTopic ''t'' default_topic_options (im_connect (im_new :: unit in_memory)) empty_broker = (Inr (), b')"
    by (metis prod.collapse)
  have "well_formed empty_broker"
    by (simp add: well_formed_def ordered_def provisioned_def empty_broker_def)
  moreover have "deadLetter default_topic_options" by (simp add: default_topic_options_def)
  ultimately show ?thesis using im_ensureTopic_provisions [OF _ b'] b' by blast
qed

text \<open>
  C21: a \<open>pump\<close> that finds a message hands exactly the first one to the handler and does what the
  outcome asks: nothing more for an acknowledgement, back to the front for a requeue, into the
  forensic destination for a rejection; a deferred delivery and one the handler threw on stay
  outstanding. Whatever the other transports did to the broker while the handler ran (\<open>other\<close>)
  is kept.
\<close>

theorem im_pump_outcome:
  assumes "im_connected t" "im_handler t = Some f" "im_outstanding t = []"
    and "queue b (im_topic t) = m # ms" "f (delivery_of m) h = (outcome, h')"
    and "b1 = other (set_queue (im_topic t) ms b)" "well_formed b1"
    and "s = (im_stats t)\<lparr>received := received (im_stats t) + 1,
      bytesReceived := bytesReceived (im_stats t) + length (h_body m)\<rparr>"
  shows "im_pump (other # others) t h b =
    (case outcome of
       Inl e \<Rightarrow> (Inl e, t\<lparr>im_outstanding := [(h_sequence m, m)],
                         im_stats := s\<lparr>abandoned := abandoned s + 1\<rparr>\<rparr>, h', b1)
     | Inr Deferred \<Rightarrow> (Inr True, t\<lparr>im_outstanding := [(h_sequence m, m)], im_stats := s\<rparr>, h', b1)
     | Inr Ack \<Rightarrow>
         (Inr True, t\<lparr>im_stats := s\<lparr>acksPerformed := acksPerformed s + 1\<rparr>\<rparr>, h', b1)
     | Inr Requeue \<Rightarrow>
         (Inr True, t\<lparr>im_stats := s\<lparr>requeuesPerformed := requeuesPerformed s + 1\<rparr>\<rparr>, h',
          broker_requeue (im_topic t) m b1)
     | Inr Reject \<Rightarrow>
         (Inr True, t\<lparr>im_stats := s\<lparr>rejectsPerformed := rejectsPerformed s + 1\<rparr>\<rparr>, h',
          bury (im_topic t) m b1))"
  using assms
  by (simp add: im_pump_def im_fetch_Cons im_finish_def perform_def broker_deadLetter_bury count_def
      split: sum.split disposition.split)

lemma im_pump_outcome_witness:
  "im_pump [\<lambda>b. b] (small_subscriber (\<lambda>d h. (Inr Requeue, d_body d # h))) [] (small_broker small_options) =
    (Inr True,
     (small_subscriber (\<lambda>d h. (Inr Requeue, d_body d # h)))
       \<lparr>im_stats := no_stats\<lparr>received := 1, bytesReceived := 1, requeuesPerformed := 1\<rparr>\<rparr>,
     [''a''], broker_requeue ''t'' small_message (set_queue ''t'' [] (small_broker small_options)))"
  using im_pump_outcome [where t = "small_subscriber (\<lambda>d h. (Inr Requeue, d_body d # h))" and h = "[]" and
      b = "small_broker small_options" and m = small_message and ms = "[]" and outcome = "Inr Requeue"
      and h' = "[''a'']" and other = "\<lambda>b. b" and others = "[]", OF _ _ _ _ _ refl _ refl]
  by (simp add: queue_small_broker well_formed_small_taken no_stats_def delivery_of_def)

text \<open>
  At most one delivery is outstanding: while one is, \<open>pump\<close> takes nothing and calls no
  handler, however long its slice.
\<close>

theorem im_pump_prefetch_one:
  assumes "im_connected t" "im_handler t = Some f" "im_outstanding t \<noteq> []"
  shows "im_pump others t h b = (Inr True, t, h, fold (\<lambda>other. other) others b)"
  using assms by (simp add: im_pump_def im_pump_loop_idle)

lemma im_pump_prefetch_one_witness:
  "im_pump [\<lambda>b. b] ((small_subscriber (\<lambda>d h. (Inr Ack, h)))\<lparr>im_outstanding := [(1, small_message)]\<rparr>) ()
     (small_broker small_options) =
    (Inr True, (small_subscriber (\<lambda>d h. (Inr Ack, h)))\<lparr>im_outstanding := [(1, small_message)]\<rparr>, (),
     small_broker small_options)"
  using im_pump_prefetch_one [of "(small_subscriber (\<lambda>d h. (Inr Ack, h)))
      \<lparr>im_outstanding := [(1, small_message)]\<rparr>" _ "[\<lambda>b. b]" "()" "small_broker small_options"]
  by simp

text \<open>
  C22: crash safety. A delivery whose handler threw, or that was deferred and never settled, comes
  back to the front of its topic, flagged as redelivered, when the transport closes, whatever
  the other transports did to the broker meanwhile.
\<close>

theorem im_crash_returns_work:
  assumes "im_connected t" "im_handler t = Some f" "im_outstanding t = []"
    and "queue b (im_topic t) = m # ms" "f (delivery_of m) h = (outcome, h')"
    and "\<exists>e. outcome = Inl e \<or> outcome = Inr Deferred"
    and "im_pump (other # others) t h b = (r, t', h'', b')" "im_close t' (later b') = (t'', b'')"
  shows "b'' = broker_requeue (im_topic t) m (later (other (set_queue (im_topic t) ms b))) \<and>
    queue b'' (im_topic t) =
      m\<lparr>h_redelivered := True\<rparr> # queue (later (other (set_queue (im_topic t) ms b))) (im_topic t) \<and>
    im_outstanding t'' = [] \<and> \<not> im_connected t''"
proof -
  have "im_outstanding t' = [(h_sequence m, m)] \<and> im_topic t' = im_topic t \<and>
      b' = other (set_queue (im_topic t) ms b)"
    using assms(1-7) by (auto simp: im_pump_def im_fetch_Cons im_finish_def)
  then show ?thesis
    using assms(8) by (auto simp: im_close_def returnOutstanding_def broker_requeue_def)
qed

lemma im_crash_returns_work_witness:
  "\<exists>t' b' t'' b''.
     im_pump [\<lambda>b. b] (small_subscriber (\<lambda>d h. (Inl (Runtime_Error []), h))) (0 :: nat) (small_broker small_options) =
       (Inl (Runtime_Error []), t', (0 :: nat), b') \<and>
     im_close t' b' = (t'', b'') \<and> queue b'' ''t'' = [small_message\<lparr>h_redelivered := True\<rparr>]"
proof -
  let ?t = "small_subscriber (\<lambda>d (h :: nat). (Inl (Runtime_Error []), h))" and ?b = "small_broker small_options"
  obtain t1 b1 where f: "im_fetch ?t ?b = Some (small_message, t1, b1)"
    using im_fetch_Cons [of ?t ?b small_message "[]"] by (auto simp: queue_small_broker)
  obtain t' b' where p: "im_pump [\<lambda>b. b] ?t (0 :: nat) ?b = (Inl (Runtime_Error []), t', (0 :: nat), b')"
    by (simp add: im_pump_def f im_finish_def)
  obtain t'' b'' where c: "im_close t' b' = (t'', b'')" by fastforce
  have "queue b'' ''t'' = [small_message\<lparr>h_redelivered := True\<rparr>]"
    using im_crash_returns_work [where t = ?t and b = ?b and f = "\<lambda>d (h :: nat). (Inl (Runtime_Error []), h)"
        and h' = 0 and other = "\<lambda>b. b" and later = "\<lambda>b. b" and
        others = "[]" and m = small_message and ms = "[]" and outcome = "Inl (Runtime_Error [])",
        OF _ _ _ _ _ _ p c, THEN conjunct2, THEN conjunct1]
    by (simp add: queue_small_broker)
  with p c show ?thesis by blast
qed

text \<open>
  A tag is settled at most once: after \<open>settle\<close> acted on a tag, whatever the outcome, settling
  it again is refused as unknown and changes nothing.
\<close>

theorem im_settle_once:
  assumes "im_connected t" "d \<noteq> Deferred" "d' \<noteq> Deferred"
    and "im_settle tag d t b = (r, t', b')"
  shows "im_settle tag d' t' c = (Inl (Logic_Error (msg_unknown_tag tag)), t', c)"
proof (cases "map_of (im_outstanding t) tag")
  case None
  then show ?thesis using assms by (simp add: im_settle_def)
next
  case (Some m)
  let ?t = "t\<lparr>im_outstanding := om_delete tag (im_outstanding t)\<rparr>"
  have p: "perform d m ?t b = (r, t', b')"
    using assms Some by (simp add: im_settle_def)
  then have "im_outstanding t' = om_delete tag (im_outstanding t)"
    using perform_outstanding [of d m ?t b] by simp
  moreover have "im_connected t'"
    using p assms(1) by (auto simp: perform_def split: disposition.splits prod.splits sum.splits)
  ultimately show ?thesis using assms(3) by (simp add: im_settle_def)
qed

lemma im_settle_once_witness:
  "\<exists>t' b'. im_settle 1 Ack ((small_subscriber (\<lambda>d h. (Inr Deferred, h)))
       \<lparr>im_outstanding := [(1, small_message)]\<rparr>) (small_broker small_options) = (Inr (), t', b') \<and>
     im_settle 1 Reject t' b' = (Inl (Logic_Error (msg_unknown_tag 1)), t' :: unit in_memory, b')"
proof -
  let ?t = "(small_subscriber (\<lambda>d (h :: unit). (Inr Deferred, h)))\<lparr>im_outstanding := [(1, small_message)]\<rparr>"
  obtain t' b' where s: "im_settle 1 Ack ?t (small_broker small_options) = (Inr (), t', b')"
    by (simp add: im_settle_def perform_def)
  from im_settle_once [OF _ _ _ s, of Reject b'] s show ?thesis by auto
qed

text \<open>
  C38: a topic that a send created implicitly has no forensic destination although its options
  ask for one, so its first rejected delivery is lost. In any state of the broker where neither the
  topic nor its forensic destination is declared, whatever the message, and whoever rejects it, the
  transport that sent or another subscriber: \<open>send\<close> reports success, and the subscriber's \<open>pump\<close>
  throws; the message is then neither outstanding, nor in any queue, nor dead-lettered, nor counted
  as rejected, requeued, acknowledged or abandoned.
\<close>

theorem im_reject_on_implicit_topic_loses_message:
  assumes "\<not> declared b tp" "\<not> declared b (deadLetterTopic tp)"
    and "im_connected s" "\<not> so_durable so"
    and "im_connected t" "im_handler t = Some f" "im_topic t = tp" "im_outstanding t = []"
    and "f \<lparr>d_body = body, d_redelivered = False, d_tag = bsequence b + 1\<rparr> h = (Inr Reject, h')"
  shows "\<exists>s' b1 t' b2. im_send tp body so s b = (Inr True, s', b1) \<and>
    im_pump [\<lambda>b. b] t h b1 = (Inl (Logic_Error (msg_not_provisioned tp)), t', h', b2) \<and>
    im_outstanding t' = [] \<and> (\<forall>u. queue b2 u = (if u = tp then [] else queue b u)) \<and>
    acksPerformed (im_stats t') = acksPerformed (im_stats t) \<and>
    rejectsPerformed (im_stats t') = rejectsPerformed (im_stats t) \<and>
    requeuesPerformed (im_stats t') = requeuesPerformed (im_stats t) \<and> abandoned (im_stats t') = abandoned (im_stats t)"
proof -
  let ?m = "\<lparr>h_sequence = bsequence b + 1, h_body = body, h_redelivered = False\<rparr>"
  let ?b0 = "(put_state tp default_topic_state b)\<lparr>bsequence := bsequence b + 1\<rparr>"
  let ?b1 = "set_queue tp [?m] ?b0" and ?b2 = "set_queue tp [] (set_queue tp [?m] ?b0)"
  let ?t = "count (\<lambda>s. s\<lparr>received := received s + 1, bytesReceived := bytesReceived s + length body\<rparr>) t"
  have undeclared: "map_of (topics b) tp = None" "map_of (topics b) (deadLetterTopic tp) = None"
    using assms(1,2) by simp_all
  have other: "deadLetterTopic tp \<noteq> tp" by simp
  have "broker_publish tp body (so_route so) b = (Inr True, ?b1)"
    by (simp add: broker_publish_def undeclared state_of_undeclared enqueueLocked.simps
        default_topic_state_def default_topic_options_def)
  then have send: "im_send tp body so s b =
      (Inr True, count (\<lambda>s. s\<lparr>sent := sent s + 1, bytesSent := bytesSent s + length body\<rparr>) s, ?b1)"
    using assms(3,4) by (simp add: im_send_def)
  have state: "map_of (topics ?b2) tp = Some (state_of ?b2 tp)" "deadLetter (options (state_of ?b2 tp))"
    "map_of (topics ?b2) (deadLetterTopic tp) = None"
    by (simp_all add: undeclared other default_topic_state_def default_topic_options_def)
  have bury: "broker_deadLetter tp ?m ?b2 = (Inl (Logic_Error (msg_not_provisioned tp)), ?b2)"
    using state(2) unfolding broker_deadLetter_def deadLetterLocked.simps state(1,3) option.case
    by (simp del: state_of_set_queue)
  have "broker_take tp ?b1 = Some (?m, ?b2)" by (simp add: broker_take_def)
  then have fetch: "im_fetch t ?b1 = Some (?m, ?t\<lparr>im_outstanding := [(h_sequence ?m, ?m)]\<rparr>, ?b2)"
    using assms(7,8) by (simp add: im_fetch_def)
  have "im_finish ?m (Inr Reject) (?t\<lparr>im_outstanding := [(h_sequence ?m, ?m)]\<rparr>) ?b2 =
      (Inl (Logic_Error (msg_not_provisioned tp)), ?t\<lparr>im_outstanding := []\<rparr>, ?b2)"
    using assms(7) bury by (simp add: im_finish_def perform_def om_delete_def)
  with fetch assms(5,6,9) have "im_pump [\<lambda>b. b] t h ?b1 =
      (Inl (Logic_Error (msg_not_provisioned tp)), ?t\<lparr>im_outstanding := []\<rparr>, h', ?b2)"
    by (simp add: im_pump_def delivery_of_def)
  with send show ?thesis by fastforce
qed

lemma im_reject_on_implicit_topic_loses_message_witness:
  "\<exists>s' b1 t' b2. im_send ''t'' ''x'' (default_send_options\<lparr>so_durable := False\<rparr>)
       (im_connect im_new :: unit in_memory) empty_broker = (Inr True, s', b1) \<and>
     im_pump [\<lambda>b. b] (small_subscriber (\<lambda>d h. (Inr Reject, h))) () b1 =
       (Inl (Logic_Error (msg_not_provisioned ''t'')), t', (), b2) \<and> (\<forall>u. queue b2 u = [])"
proof -
  let ?t = "small_subscriber (\<lambda>d (h :: unit). (Inr Reject, h))"
  have "\<not> declared empty_broker ''t''" "\<not> declared empty_broker (deadLetterTopic ''t'')"
    by (simp_all add: empty_broker_def)
  moreover have "im_connected (im_connect im_new :: unit in_memory)" by (simp add: im_connect_def)
  moreover have "\<not> so_durable (default_send_options\<lparr>so_durable := False\<rparr>)" by simp
  moreover have "im_connected ?t" "im_handler ?t = Some (\<lambda>d h. (Inr Reject, h))" "im_topic ?t = ''t''"
    "im_outstanding ?t = []" by simp_all
  ultimately have "\<exists>s' b1 t' b2. im_send ''t'' ''x'' (default_send_options\<lparr>so_durable := False\<rparr>)
       (im_connect im_new :: unit in_memory) empty_broker = (Inr True, s', b1) \<and>
     im_pump [\<lambda>b. b] ?t () b1 = (Inl (Logic_Error (msg_not_provisioned ''t'')), t', (), b2) \<and>
     im_outstanding t' = [] \<and> (\<forall>u. queue b2 u = (if u = ''t'' then [] else queue empty_broker u)) \<and>
    acksPerformed (im_stats t') = acksPerformed (im_stats ?t) \<and>
    rejectsPerformed (im_stats t') = rejectsPerformed (im_stats ?t) \<and>
    requeuesPerformed (im_stats t') = requeuesPerformed (im_stats ?t) \<and> abandoned (im_stats t') = abandoned (im_stats ?t)"
    by (rule im_reject_on_implicit_topic_loses_message) simp
  moreover have "(if u = ''t'' then [] else queue empty_broker u) = []" for u
    by (simp add: empty_broker_def state_of_def default_topic_state_def)
  ultimately show ?thesis by metis
qed

text \<open>
  A return does not look at the bound: when a bounded topic was filled up again while one of
  its messages was out, handing that message back leaves the topic over its bound.
\<close>

theorem requeue_ignores_bound:
  assumes "well_formed b" "declared b tp" "group (options (state_of b tp)) = []"
    and "0 < unat (maxLength (options (state_of b tp)))"
      "length (queue b tp) = unat (maxLength (options (state_of b tp)))"
    and "broker_take tp b = Some (m, b1)" "broker_publish tp body r b1 = (Inr True, b2)"
  shows "length (queue (broker_requeue tp m b2) tp) =
    unat (maxLength (options (state_of (broker_requeue tp m b2) tp))) + 1"
proof -
  obtain q where q: "queue b tp = m # q" and b1: "b1 = set_queue tp q b"
    using broker_take_Some [OF assms(6)] by blast
  have w: "well_formed b1" "declared b1 tp" "group (options (state_of b1 tp)) = []"
    unfolding b1 using assms(3) by (simp_all add: well_formed_set_queue [OF assms(1,2)])
  have "\<not> full (options (state_of b1 tp)) (queue b1 tp)"
    using q assms(5) by (simp add: full_def b1)
  then have "issue tp body b1 = (Inr True, set_queue tp
      (queue b1 tp @ [\<lparr>h_sequence = bsequence b1 + 1, h_body = body, h_redelivered = False\<rparr>])
      (b1\<lparr>bsequence := bsequence b1 + 1\<rparr>))"
    by (rule issue_not_full)
  then have "b2 = set_queue tp
      (q @ [\<lparr>h_sequence = bsequence b + 1, h_body = body, h_redelivered = False\<rparr>])
      (b1\<lparr>bsequence := bsequence b + 1\<rparr>)"
    using assms(7) broker_publish_ungrouped [OF w, of body r] by (simp add: b1)
  then show ?thesis
    using q assms(5) by (simp add: broker_requeue_def b1)
qed

lemma requeue_ignores_bound_witness:
  "\<exists>b2. broker_publish ''t'' ''x'' [] (set_queue ''t'' [] (small_broker small_options)) = (Inr True, b2) \<and>
     length (queue (broker_requeue ''t'' small_message b2) ''t'') = 2"
proof -
  let ?b = "small_broker small_options" and ?b1 = "set_queue ''t'' [] (small_broker small_options)"
  have pre: "declared ?b ''t''" "group (options (state_of ?b ''t'')) = []"
    "0 < unat (maxLength (options (state_of ?b ''t'')))"
    "length (queue ?b ''t'') = unat (maxLength (options (state_of ?b ''t'')))"
    by (simp add: declared_small_broker del: not_None_eq)
      (simp_all add: state_of_small_broker small_options_def default_topic_options_def)
  have t: "broker_take ''t'' ?b = Some (small_message, ?b1)"
    by (rule broker_take_Cons) (rule queue_small_broker)
  have "broker_publish ''t'' ''x'' [] ?b1 = issue ''t'' ''x'' ?b1"
    using pre(2) by (intro broker_publish_ungrouped well_formed_small_taken) simp_all
  also have "\<dots> = (Inr True, snd (issue ''t'' ''x'' ?b1))"
    by (subst (1 2) issue_not_full) (simp_all add: full_def state_of_small_broker small_options_def)
  finally obtain b2 where p: "broker_publish ''t'' ''x'' [] ?b1 = (Inr True, b2)"
    "b2 = snd (issue ''t'' ''x'' ?b1)" by blast
  have "options (state_of b2 ''t'') = small_options"
    by (simp add: p(2) state_of_small_broker)
  then show ?thesis
    using requeue_ignores_bound [OF well_formed_small_broker pre t p(1)] p(1)
    by (simp add: broker_requeue_def small_options_def)
qed

end
