(* ===== verification/Fleet.thy ===== *)
theory Fleet
  imports In_Memory_Props
begin

text \<open>
  Competing consumers: any number of in-memory transports, each driven by a thread of its own,
  on the one broker of the process. The broker's mutex makes its operations atomic; a \<open>pump\<close> is
  two steps, up to the handler call and from its outcome on, between which the other threads
  may run. The reachable states satisfy \<open>fleet_ok\<close>: no message is in two places, at most one
  delivery is outstanding at each transport, and none is settled more often than received.
\<close>

section \<open>States and steps\<close>

record fleet =
  fl_broker :: broker
  fl_member :: "nat \<Rightarrow> unit in_memory"
  fl_running :: "nat \<Rightarrow> held option"

definition fleet_start :: fleet where
  "fleet_start = \<lparr>fl_broker = empty_broker, fl_member = (\<lambda>_. im_new), fl_running = (\<lambda>_. None)\<rparr>"

text \<open>Transport \<open>i\<close> becomes \<open>t\<close>, its running handler call \<open>c\<close>, and the broker \<open>b\<close>.\<close>

definition fleet_set :: "nat \<Rightarrow> unit in_memory \<Rightarrow> held option \<Rightarrow> broker \<Rightarrow> fleet \<Rightarrow> fleet" where
  "fleet_set i t c b s =
     \<lparr>fl_broker = b, fl_member = (fl_member s)(i := t), fl_running = (fl_running s)(i := c)\<rparr>"

text \<open>
  A thread calls its transport's operations one after the other, so all but \<open>finish\<close> need that
  no handler of the transport is running. A handler decides, throws, and acts on the broker
  (through other transports) as it likes.
\<close>

inductive fleet_step :: "fleet \<Rightarrow> fleet \<Rightarrow> bool" where
  connect: "fl_running s i = None \<Longrightarrow>
    fleet_step s (fleet_set i (im_connect (fl_member s i)) None (fl_broker s) s)"
| close: "fl_running s i = None \<Longrightarrow> im_close (fl_member s i) (fl_broker s) = (t, b) \<Longrightarrow>
    fleet_step s (fleet_set i t None b s)"
| destroy: "fl_running s i = None \<Longrightarrow>
    fleet_step s (fleet_set i im_new None (im_destroy (fl_member s i) (fl_broker s)) s)"
| provision: "fl_running s i = None \<Longrightarrow>
    im_ensureTopic tp opts (fl_member s i) (fl_broker s) = (r, b) \<Longrightarrow>
    fleet_step s (fleet_set i (fl_member s i) None b s)"
| purge: "fl_running s i = None \<Longrightarrow> im_purgeTopic tp (fl_member s i) (fl_broker s) = (n, b) \<Longrightarrow>
    fleet_step s (fleet_set i (fl_member s i) None b s)"
| send: "fl_running s i = None \<Longrightarrow> im_send tp body so (fl_member s i) (fl_broker s) = (ok, t, b) \<Longrightarrow>
    fleet_step s (fleet_set i t None b s)"
| subscribe: "fl_running s i = None \<Longrightarrow> im_subscribe tp f (fl_member s i) = (r, t) \<Longrightarrow>
    fleet_step s (fleet_set i t None (fl_broker s) s)"
| settle: "fl_running s i = None \<Longrightarrow> im_settle tag d (fl_member s i) (fl_broker s) = (r, t, b) \<Longrightarrow>
    fleet_step s (fleet_set i t None b s)"
| fetch: "fl_running s i = None \<Longrightarrow> im_connected (fl_member s i) \<Longrightarrow>
    im_handler (fl_member s i) = Some f \<Longrightarrow>
    im_fetch (fl_member s i) (fl_broker s) = Some (m, t, b) \<Longrightarrow>
    fleet_step s (fleet_set i t (Some m) b s)"
| finish: "fl_running s i = Some m \<Longrightarrow>
    im_finish m outcome (fl_member s i) (fl_broker s) = (ok, t, b) \<Longrightarrow>
    fleet_step s (fleet_set i t None b s)"

inductive reachable :: "fleet \<Rightarrow> bool" where
  start: "reachable fleet_start"
| step: "reachable s \<Longrightarrow> fleet_step s s' \<Longrightarrow> reachable s'"

inductive_cases fleet_stepE: "fleet_step s s'"

section \<open>The invariant\<close>

definition tags :: "'h in_memory \<Rightarrow> nat set" where
  "tags t = set (om_keys (im_outstanding t))"

text \<open>At most one delivery is outstanding, under its own sequence number, and is accounted for.\<close>

definition member_ok :: "'h in_memory \<Rightarrow> bool" where
  "member_ok t \<longleftrightarrow>
     (im_outstanding t = [] \<or> (\<exists>m. im_outstanding t = [(h_sequence m, m)])) \<and>
     acksPerformed (im_stats t) + rejectsPerformed (im_stats t) + requeuesPerformed (im_stats t) +
       length (im_outstanding t) \<le> received (im_stats t)"

definition fleet_ok :: "fleet \<Rightarrow> bool" where
  "fleet_ok s \<longleftrightarrow>
     (\<forall>i. member_ok (fl_member s i)) \<and>
     (\<forall>i m. fl_running s i = Some m \<longrightarrow> im_outstanding (fl_member s i) = [(h_sequence m, m)]) \<and>
     (\<forall>i j. i \<noteq> j \<longrightarrow> tags (fl_member s i) \<inter> tags (fl_member s j) = {}) \<and>
     unique_seqs (\<Union>i. tags (fl_member s i)) (fl_broker s)"

text \<open>The numbers out at the transports other than \<open>i\<close>.\<close>

definition others_tags :: "nat \<Rightarrow> fleet \<Rightarrow> nat set" where
  "others_tags i s = (\<Union>j \<in> - {i}. tags (fl_member s j))"

lemma tags_union: "(\<Union>j. tags (((fl_member s)(i := t)) j)) = tags t \<union> others_tags i s"
  by (auto simp: others_tags_def split: if_splits)

lemma fleet_ok_set:
  assumes "fleet_ok s" "member_ok t" "tags t \<inter> others_tags i s = {}"
    and "unique_seqs (tags t \<union> others_tags i s) b"
    and "\<And>m. c = Some m \<Longrightarrow> im_outstanding t = [(h_sequence m, m)]"
  shows "fleet_ok (fleet_set i t c b s)"
proof -
  have "tags t \<inter> tags (fl_member s j) = {}" if "j \<noteq> i" for j
    using assms(3) that by (auto simp: others_tags_def)
  then have "tags (((fl_member s)(i := t)) k) \<inter> tags (((fl_member s)(i := t)) j) = {}" if "k \<noteq> j" for k j
    using assms(1) that by (auto simp: fleet_ok_def)
  then show ?thesis
    using assms(1,2,4,5) by (simp add: fleet_ok_def fleet_set_def tags_union del: fun_upd_apply)
      (simp add: fleet_ok_def)
qed

lemma fleet_okD:
  assumes "fleet_ok s"
  shows "member_ok (fl_member s i)" "tags (fl_member s i) \<inter> others_tags i s = {}"
    "unique_seqs (tags (fl_member s i) \<union> others_tags i s) (fl_broker s)"
proof -
  show "member_ok (fl_member s i)" using assms by (simp add: fleet_ok_def)
  have "tags (fl_member s i) \<inter> tags (fl_member s j) = {}" if "j \<noteq> i" for j
    using assms that by (simp add: fleet_ok_def)
  then show "tags (fl_member s i) \<inter> others_tags i s = {}" by (auto simp: others_tags_def)
  show "unique_seqs (tags (fl_member s i) \<union> others_tags i s) (fl_broker s)"
    using assms tags_union [of s i "fl_member s i"] by (simp add: fleet_ok_def)
qed

text \<open>What a step of one transport must do to keep the invariant, without the fleet.\<close>

definition keeps :: "nat set \<Rightarrow> 'h in_memory \<Rightarrow> broker \<Rightarrow> bool" where
  "keeps R t b \<longleftrightarrow> member_ok t \<and> tags t \<inter> R = {} \<and> unique_seqs (tags t \<union> R) b"

lemma fleet_ok_keeps:
  "fleet_ok s \<Longrightarrow> keeps (others_tags i s) t b \<Longrightarrow>
     (\<And>m. c = Some m \<Longrightarrow> im_outstanding t = [(h_sequence m, m)]) \<Longrightarrow>
     fleet_ok (fleet_set i t c b s)"
  by (auto simp: keeps_def intro: fleet_ok_set)

lemma keeps_now: "fleet_ok s \<Longrightarrow> keeps (others_tags i s) (fl_member s i) (fl_broker s)"
  by (simp add: keeps_def fleet_okD)

section \<open>Each operation keeps it\<close>

lemma keeps_returnOutstanding:
  assumes "keeps R t b"
  shows "keeps R (fst (returnOutstanding t b)) (snd (returnOutstanding t b))"
proof (cases "im_outstanding t")
  case Nil
  with assms show ?thesis by (simp add: keeps_def member_ok_def returnOutstanding_def tags_def)
next
  case (Cons e es)
  with assms obtain m where o: "im_outstanding t = [(h_sequence m, m)]"
    by (auto simp: keeps_def member_ok_def)
  with assms have "unique_seqs (insert (h_sequence m) R) b" "h_sequence m \<notin> R"
    by (auto simp: keeps_def tags_def)
  then have "unique_seqs R (broker_requeue (im_topic t) m b)"
    using unique_seqs_requeue [of "insert (h_sequence m) R" b m "im_topic t"] by simp
  with assms o show ?thesis
    by (simp add: keeps_def member_ok_def returnOutstanding_def tags_def)
qed

lemma keeps_same_member:
  assumes "keeps R t b" "unique_seqs (tags t \<union> R) c"
  shows "keeps R t c"
  using assms by (simp add: keeps_def)

lemma keeps_perform:
  assumes "keeps R t b" "im_outstanding t = [(h_sequence m, m)]" "d \<noteq> Deferred"
    and "perform d m (t\<lparr>im_outstanding := []\<rparr>) b = (r, t', b')"
  shows "keeps R t' b' \<and> im_outstanding t' = []"
proof -
  have u: "unique_seqs (insert (h_sequence m) R) b" "h_sequence m \<notin> R"
    using assms(1,2) by (auto simp: keeps_def tags_def)
  then have "unique_seqs R b" by (auto intro: unique_seqs_subset)
  then have "unique_seqs R b'"
    using assms(3,4) unique_seqs_requeue [OF u(1), of m "im_topic t"] u(2)
      unique_seqs_deadLetter [of R b "im_topic t" m]
    by (auto simp: perform_def split: disposition.splits prod.splits sum.splits)
  moreover have "im_outstanding t' = []"
    using perform_outstanding [of d m "t\<lparr>im_outstanding := []\<rparr>" b] assms(4) by simp
  moreover have "acksPerformed (im_stats t') + rejectsPerformed (im_stats t') +
      requeuesPerformed (im_stats t') \<le> received (im_stats t')"
    using assms by (auto simp: keeps_def member_ok_def perform_def
        split: disposition.splits prod.splits sum.splits)
  ultimately show ?thesis by (simp add: keeps_def member_ok_def tags_def)
qed

lemma keeps_settle:
  assumes "keeps R t b" "im_settle tag d t b = (r, t', b')"
  shows "keeps R t' b'"
proof (cases "im_connected t \<and> d \<noteq> Deferred \<and> map_of (im_outstanding t) tag \<noteq> None")
  case False
  with assms show ?thesis by (auto simp: im_settle_def split: if_splits)
next
  case True
  then obtain m where o: "im_outstanding t = [(h_sequence m, m)]" "tag = h_sequence m"
    using assms(1) by (auto simp: keeps_def member_ok_def split: if_splits)
  with True assms(2) have "perform d m (t\<lparr>im_outstanding := []\<rparr>) b = (r, t', b')"
    by (simp add: im_settle_def)
  with keeps_perform [OF assms(1) o(1)] True show ?thesis by blast
qed

lemma keeps_finish:
  assumes "keeps R t b" "im_outstanding t = [(h_sequence m, m)]"
    and "im_finish m outcome t b = (ok, t', b')"
  shows "keeps R t' b'"
proof (cases "\<exists>d. outcome = Inr d \<and> d \<noteq> Deferred")
  case False
  with assms show ?thesis
    by (cases outcome) (auto simp: im_finish_def keeps_def member_ok_def tags_def)
next
  case True
  then obtain d where d: "outcome = Inr d" "d \<noteq> Deferred" by blast
  obtain r t1 b1 where p: "perform d m (t\<lparr>im_outstanding := []\<rparr>) b = (r, t1, b1)"
    by (metis prod_cases3)
  then have "t' = t1 \<and> b' = b1"
    using assms(2,3) d by (auto simp: im_finish_def split: sum.splits)
  with keeps_perform [OF assms(1,2) d(2) p] show ?thesis by simp
qed

lemma keeps_fetch:
  assumes "keeps R t b" "im_fetch t b = Some (m, t', b')"
  shows "keeps R t' b' \<and> im_outstanding t' = [(h_sequence m, m)]"
proof -
  have o: "im_outstanding t = []" using assms(2) by (auto simp: im_fetch_def split: if_splits)
  then obtain c where c: "broker_take (im_topic t) b = Some (m, c)" "b' = c"
    using assms(2) by (auto simp: im_fetch_def split: option.splits)
  then have q: "queue b (im_topic t) = m # queue c (im_topic t)" by (auto dest: broker_take_Some)
  have t': "im_outstanding t' = [(h_sequence m, m)]"
    using assms(2) o c by (auto simp: im_fetch_def)
  have "unique_seqs R b" "tags t = {}" using assms(1) o by (simp_all add: keeps_def tags_def)
  moreover from this have "unique_seqs (insert (h_sequence m) R) b'" "h_sequence m \<notin> R"
    using unique_seqs_take [of R b _ m c] unique_seqs_held [of R b _ m] c q by auto
  moreover have "acksPerformed (im_stats t') + rejectsPerformed (im_stats t') +
      requeuesPerformed (im_stats t') + 1 \<le> received (im_stats t')"
    using assms o c by (auto simp: keeps_def member_ok_def im_fetch_def)
  ultimately show ?thesis using t' by (simp add: keeps_def member_ok_def tags_def)
qed

lemma keeps_send:
  assumes "keeps R t b" "im_send tp body opts t b = (ok, t', b')"
  shows "keeps R t' b'"
  using assms unique_seqs_publish [of "tags t \<union> R" b tp body "so_route opts"]
  by (auto simp: im_send_def keeps_def member_ok_def tags_def split: if_splits prod.splits sum.splits)

lemma keeps_declare:
  assumes "keeps R t b" "im_ensureTopic tp opts t b = (r, b')"
  shows "keeps R t b'"
proof -
  have u: "unique_seqs (tags t \<union> R) b" using assms(1) by (simp add: keeps_def)
  obtain r1 b1 where b1: "broker_ensureTopic (deadLetterTopic tp) (forensicTopicOptions tp) b = (r1, b1)"
    by fastforce
  then have u1: "unique_seqs (tags t \<union> R) b1"
    using unique_seqs_ensureTopic [OF u, of "deadLetterTopic tp" "forensicTopicOptions tp"] by simp
  have "unique_seqs (tags t \<union> R) b'"
    using assms(2) u u1 b1 unique_seqs_ensureTopic [OF u, of tp opts]
      unique_seqs_ensureTopic [OF u1, of tp opts]
    by (auto simp: im_ensureTopic_def split: if_splits sum.splits)
  with assms(1) show ?thesis by (rule keeps_same_member)
qed

lemma keeps_new: "keeps R t b \<Longrightarrow> keeps R im_new (im_destroy t b)"
  using keeps_returnOutstanding [of R t b]
  by (simp add: keeps_def im_destroy_def im_new_def member_ok_def tags_def no_stats_def
      returnOutstanding_def)

lemma keeps_close:
  assumes "keeps R t b" "im_close t b = (t', b')"
  shows "keeps R t' b'"
  using keeps_returnOutstanding [OF assms(1)] assms(2)
  by (auto simp: keeps_def im_close_def member_ok_def tags_def split: prod.splits)

lemma keeps_connect: "keeps R t b \<Longrightarrow> keeps R (im_connect t) b"
  by (simp add: keeps_def im_connect_def member_ok_def tags_def)

lemma keeps_subscribe:
  assumes "keeps R t b" "im_subscribe tp f t = (r, t')"
  shows "keeps R t' b"
  using assms by (auto simp: im_subscribe_def keeps_def member_ok_def tags_def split: if_splits)

lemma keeps_purge:
  assumes "keeps R t b" "im_purgeTopic tp t b = (n, b')"
  shows "keeps R t b'"
proof -
  have "unique_seqs (tags t \<union> R) b" using assms(1) by (simp add: keeps_def)
  from unique_seqs_purge [OF this, of tp] this show ?thesis
    using assms by (auto simp: im_purgeTopic_def intro: keeps_same_member split: if_splits prod.splits)
qed

lemma fleet_ok_start: "fleet_ok fleet_start"
  by (simp add: fleet_ok_def fleet_start_def member_ok_def im_new_def tags_def no_stats_def)

lemma fleet_ok_step:
  assumes "fleet_step s s'" "fleet_ok s"
  shows "fleet_ok s'"
proof -
  note now = keeps_now [OF assms(2)]
  show ?thesis
    using assms(1)
  proof cases
    case (connect i)
    show ?thesis unfolding connect(1)
      by (rule fleet_ok_keeps [OF assms(2) keeps_connect [OF now]]) simp
  next
    case (close i t b)
    show ?thesis unfolding close(1)
      by (rule fleet_ok_keeps [OF assms(2) keeps_close [OF now close(3)]]) simp
  next
    case (destroy i)
    show ?thesis unfolding destroy(1)
      by (rule fleet_ok_keeps [OF assms(2) keeps_new [OF now]]) simp
  next
    case (provision i tp opts r b)
    show ?thesis unfolding provision(1)
      by (rule fleet_ok_keeps [OF assms(2) keeps_declare [OF now provision(3)]]) simp
  next
    case (purge i tp n b)
    show ?thesis unfolding purge(1)
      by (rule fleet_ok_keeps [OF assms(2) keeps_purge [OF now purge(3)]]) simp
  next
    case (send i tp body so ok t b)
    show ?thesis unfolding send(1)
      by (rule fleet_ok_keeps [OF assms(2) keeps_send [OF now send(3)]]) simp
  next
    case (subscribe i tp f r t)
    show ?thesis unfolding subscribe(1)
      by (rule fleet_ok_keeps [OF assms(2) keeps_subscribe [OF now subscribe(3)]]) simp
  next
    case (settle i tag d r t b)
    show ?thesis unfolding settle(1)
      by (rule fleet_ok_keeps [OF assms(2) keeps_settle [OF now settle(3)]]) simp
  next
    case (fetch i f m t b)
    note k = keeps_fetch [OF now fetch(5)]
    show ?thesis unfolding fetch(1)
      by (rule fleet_ok_keeps [OF assms(2) k [THEN conjunct1]]) (use k in simp)
  next
    case (finish i m outcome ok t b)
    then have "im_outstanding (fl_member s i) = [(h_sequence m, m)]"
      using assms(2) by (simp add: fleet_ok_def)
    from keeps_finish [OF now this finish(3)] show ?thesis
      unfolding finish(1) by (rule fleet_ok_keeps [OF assms(2)]) simp
  qed
qed

lemma reachable_ok: "reachable s \<Longrightarrow> fleet_ok s"
  by (induction rule: reachable.induct) (auto intro: fleet_ok_start fleet_ok_step)

section \<open>Properties\<close>

text \<open>
  C13: competing consumers never share a message. In every reachable state of any number of
  transports on one broker, under every interleaving of their operations and handler calls,
  a sequence number is at most once in one topic, in no other topic, and not there while it is
  outstanding at a transport; and no two transports have the same delivery outstanding.
\<close>

theorem fleet_no_message_twice:
  assumes "reachable s"
  shows "distinct (seqs (fl_broker s) tp) \<and>
    (tp = u \<or> set (seqs (fl_broker s) tp) \<inter> set (seqs (fl_broker s) u) = {}) \<and>
    (i = j \<or> tags (fl_member s i) \<inter> tags (fl_member s j) = {}) \<and>
    set (seqs (fl_broker s) tp) \<inter> tags (fl_member s i) = {}"
proof -
  have ok: "fleet_ok s" by (rule reachable_ok [OF assms])
  then have p: "placed (bsequence (fl_broker s)) (\<Union>k. tags (fl_member s k)) (seqs (fl_broker s))"
    by (simp add: fleet_ok_def unique_seqs_def)
  have "i = j \<or> tags (fl_member s i) \<inter> tags (fl_member s j) = {}"
    using ok unfolding fleet_ok_def by blast
  moreover have "set (seqs (fl_broker s) tp) \<inter> tags (fl_member s i) = {}"
    using placedD(3) [OF p, of tp] by blast
  ultimately show ?thesis
    using placedD(1) [OF p, of tp] placedD(2) [OF p, of tp u] by simp
qed

definition one_sent :: fleet where
  "one_sent =
     fleet_set 0
       (fst (snd (im_send ''t'' ''x'' (default_send_options\<lparr>so_durable := False\<rparr>) (im_connect im_new :: unit in_memory)
          empty_broker))) None
       (snd (snd (im_send ''t'' ''x'' (default_send_options\<lparr>so_durable := False\<rparr>) (im_connect im_new :: unit in_memory)
          empty_broker)))
       (fleet_set 0 (im_connect im_new) None empty_broker fleet_start)"

lemma reachable_one_sent: "reachable one_sent"
proof -
  let ?s = "fleet_set 0 (im_connect im_new) None empty_broker fleet_start"
  have "fleet_step fleet_start ?s"
    using fleet_step.connect [of fleet_start 0] by (simp add: fleet_start_def)
  then have "reachable ?s" by (blast intro: reachable.intros)
  moreover have "fleet_step ?s one_sent"
  proof -
    obtain ok t b where r: "im_send ''t'' ''x'' (default_send_options\<lparr>so_durable := False\<rparr>)
        (im_connect im_new :: unit in_memory) empty_broker = (ok, t, b)"
      by (metis prod_cases3)
    then have "one_sent = fleet_set 0 t None b ?s" by (simp add: one_sent_def)
    moreover have "im_send ''t'' ''x'' (default_send_options\<lparr>so_durable := False\<rparr>)
        (fl_member ?s 0) (fl_broker ?s) = (ok, t, b)"
      using r by (simp add: fleet_set_def)
    moreover have "fl_running ?s 0 = None" by (simp add: fleet_set_def)
    ultimately show ?thesis using fleet_step.send [of ?s 0] by metis
  qed
  ultimately show ?thesis by (rule reachable.step)
qed

lemma one_sent_queue: "seqs (fl_broker one_sent) ''t'' = [1]"
  by (simp add: one_sent_def fleet_set_def im_send_def im_connect_def im_new_def
      default_send_options_def broker_publish_def empty_broker_def state_of_def put_state_def
      default_topic_state_def default_topic_options_def enqueueLocked.simps set_queue_def)

lemma fleet_no_message_twice_witness:
  "distinct (seqs (fl_broker one_sent) ''t'') \<and> 1 \<notin> tags (fl_member one_sent 0)"
  using fleet_no_message_twice [OF reachable_one_sent, of "''t''" "''t''" 0 1] one_sent_queue by auto

text \<open>
  In every reachable state a transport has at most one delivery outstanding, which is the
  one its handler is running on if any, and what it acknowledged, rejected, requeued and still
  holds never exceeds what it received.
\<close>

theorem fleet_accounts:
  assumes "reachable s"
  shows "length (im_outstanding (fl_member s i)) \<le> 1 \<and>
    (fl_running s i = None \<or>
     im_outstanding (fl_member s i) =
       [(h_sequence (the (fl_running s i)), the (fl_running s i))]) \<and>
    acksPerformed (im_stats (fl_member s i)) + rejectsPerformed (im_stats (fl_member s i)) +
      requeuesPerformed (im_stats (fl_member s i)) + length (im_outstanding (fl_member s i))
    \<le> received (im_stats (fl_member s i))"
proof -
  have "member_ok (fl_member s i)" and
    run: "\<And>m. fl_running s i = Some m \<Longrightarrow> im_outstanding (fl_member s i) = [(h_sequence m, m)]"
    using reachable_ok [OF assms] by (simp_all add: fleet_ok_def)
  then show ?thesis by (cases "fl_running s i") (auto simp: member_ok_def)
qed

lemma fleet_accounts_witness: "length (im_outstanding (fl_member one_sent 0)) \<le> 1"
  using fleet_accounts [OF reachable_one_sent, of 0] by blast

end
