(* ===== verification/Fleet_Conservation.thy ===== *)
theory Fleet_Conservation
  imports Fleet
begin

text \<open>
  No message is lost between competing consumers. The inventory of a fleet is what is waiting in
  topics or outstanding at a transport. Steps that resolve nothing, among them every crash of a
  handler, a transport that closes or is destroyed with work outstanding, a deferral and a
  return to the topic, keep the inventory as it is; an acknowledgement takes exactly the
  acknowledged message out of it.
\<close>

section \<open>The inventory\<close>

type_synonym entry = "topic \<times> nat \<times> string"

definition entry :: "topic \<Rightarrow> held \<Rightarrow> entry" where
  "entry tp m = (tp, h_sequence m, h_body m)"

definition stored :: "broker \<Rightarrow> entry set" where
  "stored b = (\<Union>tp. entry tp ` set (queue b tp))"

definition held_out :: "'h in_memory \<Rightarrow> entry set" where
  "held_out t = entry (im_topic t) ` snd ` set (im_outstanding t)"

definition inventory :: "fleet \<Rightarrow> entry set" where
  "inventory s = stored (fl_broker s) \<union> (\<Union>i. held_out (fl_member s i))"

text \<open>The steps that neither bring a message in nor resolve or discard one.\<close>

inductive calm_step :: "fleet \<Rightarrow> fleet \<Rightarrow> bool" where
  calm_connect: "fl_running s i = None \<Longrightarrow>
    calm_step s (fleet_set i (im_connect (fl_member s i)) None (fl_broker s) s)"
| calm_close: "fl_running s i = None \<Longrightarrow> im_close (fl_member s i) (fl_broker s) = (t, b) \<Longrightarrow>
    calm_step s (fleet_set i t None b s)"
| calm_destroy: "fl_running s i = None \<Longrightarrow>
    calm_step s (fleet_set i im_new None (im_destroy (fl_member s i) (fl_broker s)) s)"
| calm_provision: "fl_running s i = None \<Longrightarrow>
    im_ensureTopic tp opts (fl_member s i) (fl_broker s) = (r, b) \<Longrightarrow>
    calm_step s (fleet_set i (fl_member s i) None b s)"
| calm_subscribe: "fl_running s i = None \<Longrightarrow> im_subscribe tp f (fl_member s i) = (r, t) \<Longrightarrow>
    calm_step s (fleet_set i t None (fl_broker s) s)"
| calm_settle: "fl_running s i = None \<Longrightarrow> d \<in> {Requeue, Deferred} \<Longrightarrow>
    im_settle tag d (fl_member s i) (fl_broker s) = (r, t, b) \<Longrightarrow>
    calm_step s (fleet_set i t None b s)"
| calm_fetch: "fl_running s i = None \<Longrightarrow> im_connected (fl_member s i) \<Longrightarrow>
    im_handler (fl_member s i) = Some f \<Longrightarrow>
    im_fetch (fl_member s i) (fl_broker s) = Some (m, t, b) \<Longrightarrow>
    calm_step s (fleet_set i t (Some m) b s)"
| calm_finish: "fl_running s i = Some m \<Longrightarrow> outcome \<notin> {Inr Ack, Inr Reject} \<Longrightarrow>
    im_finish m outcome (fl_member s i) (fl_broker s) = (ok, t, b) \<Longrightarrow>
    calm_step s (fleet_set i t None b s)"

text \<open>Calm steps and acknowledgements, with the entries acknowledged in order.\<close>

inductive work :: "fleet \<Rightarrow> entry list \<Rightarrow> fleet \<Rightarrow> bool" where
  work_rest: "work s [] s"
| work_calm: "work s as u \<Longrightarrow> calm_step u v \<Longrightarrow> work s as v"
| work_acked: "work s as u \<Longrightarrow> fl_running u i = Some m \<Longrightarrow>
    im_finish m (Inr Ack) (fl_member u i) (fl_broker u) = (ok, t, b) \<Longrightarrow>
    work s (as @ [entry (im_topic (fl_member u i)) m]) (fleet_set i t None b u)"
| work_settled: "work s as u \<Longrightarrow> fl_running u i = None \<Longrightarrow>
    map_of (im_outstanding (fl_member u i)) tag = Some m \<Longrightarrow>
    im_settle tag Ack (fl_member u i) (fl_broker u) = (Inr (), t, b) \<Longrightarrow>
    work s (as @ [entry (im_topic (fl_member u i)) m]) (fleet_set i t None b u)"

lemma calm_step_fleet: "calm_step s s' \<Longrightarrow> fleet_step s s'"
  by (induction rule: calm_step.induct) (blast intro: fleet_step.intros)+

lemma work_reachable: "work s as s' \<Longrightarrow> reachable s \<Longrightarrow> reachable s'"
  by (induction rule: work.induct) (blast intro: reachable.step calm_step_fleet fleet_step.intros)+

section \<open>The broker\<close>

lemma mem_stored: "(tp, e) \<in> stored b \<longleftrightarrow> (tp, e) \<in> entry tp ` set (queue b tp)"
  by (auto simp: stored_def entry_def)

lemma mem_entries: "(u, e) \<in> entry tp ` M \<longleftrightarrow> u = tp \<and> (tp, e) \<in> entry tp ` M"
  by (auto simp: entry_def)

lemma stored_set_queue:
  "(u, e) \<in> stored (set_queue tp q b) \<longleftrightarrow> (if u = tp then (tp, e) \<in> entry tp ` set q else (u, e) \<in> stored b)"
  by (simp add: mem_stored)

lemma entry_eq: "(u, e) = entry tp m \<longleftrightarrow> u = tp \<and> (tp, e) = entry tp m"
  by (auto simp: entry_def)

lemma entry_redelivered [simp]: "entry tp (m\<lparr>h_redelivered := r\<rparr>) = entry tp m"
  by (simp add: entry_def)

lemma stored_cons:
  assumes "queue b tp = m # q"
  shows "stored b = insert (entry tp m) (stored (set_queue tp q b))"
proof (rule set_eqI)
  fix x :: entry
  obtain u e where "x = (u, e)" by (rule prod.exhaust)
  then show "(x \<in> stored b) = (x \<in> insert (entry tp m) (stored (set_queue tp q b)))"
    using assms entry_eq [of u e tp m] mem_stored [of u e b] by (cases "u = tp") (simp_all add: stored_set_queue)
qed

lemma stored_requeue: "stored (broker_requeue tp m b) = insert (entry tp m) (stored b)"
proof (rule set_eqI)
  fix x :: entry
  obtain u e where "x = (u, e)" by (rule prod.exhaust)
  then show "(x \<in> stored (broker_requeue tp m b)) = (x \<in> insert (entry tp m) (stored b))"
    using entry_eq [of u e tp m] mem_stored [of u e b]
    by (cases "u = tp") (simp_all add: broker_requeue_def stored_set_queue)
qed

lemma stored_take:
  assumes "broker_take tp b = Some (m, c)"
  shows "stored b = insert (entry tp m) (stored c)"
proof -
  obtain st ms where st: "map_of (topics b) tp = Some st" "messages st = m # ms" "c = set_queue tp ms b"
    using assms by (auto simp: broker_take_def split: option.splits list.splits)
  then have "queue b tp = m # ms" by (simp add: state_of_def)
  with st(3) show ?thesis by (simp add: stored_cons)
qed

lemma stored_ensureTopic:
  assumes "broker_ensureTopic tp opts b = (r, c)"
  shows "stored c = stored b"
proof -
  have "queue c u = queue b u" for u
    using assms by (auto simp: broker_ensureTopic_def Let_def state_of_def put_state_def default_topic_state_def
        split: if_splits option.splits)
  then show ?thesis by (simp add: stored_def)
qed

section \<open>The transports\<close>

lemma stored_returnOutstanding:
  "stored (snd (returnOutstanding t b)) = stored b \<union> held_out t"
proof -
  have "stored (foldr (\<lambda>(tag, m). broker_requeue tp m) os b) = stored b \<union> entry tp ` snd ` set os" for tp os
    by (induction os) (simp_all add: stored_requeue split_beta)
  then show ?thesis by (simp add: returnOutstanding_def held_out_def)
qed

text \<open>A transport with a handler or with work outstanding is subscribed, so its topic stays.\<close>

definition bound :: "'h in_memory \<Rightarrow> bool" where
  "bound t \<longleftrightarrow> (im_handler t = None \<or> im_subscribed t) \<and> (im_outstanding t = [] \<or> im_subscribed t)"

lemma bound_perform:
  assumes "perform d m t b = (r, t', b')" "bound t"
  shows "bound t'"
  using assms by (auto simp: perform_def bound_def count_def split: disposition.splits prod.splits sum.splits)

lemma bound_delete: "bound t \<Longrightarrow> bound (t\<lparr>im_outstanding := om_delete k (im_outstanding t)\<rparr>)"
  by (auto simp: bound_def om_delete_def)

lemma bound_finish:
  assumes "im_finish m outcome t b = (r, t', b')" "bound t"
  shows "bound t'"
proof (cases "\<exists>d. outcome = Inr d \<and> d \<noteq> Deferred")
  case True
  then obtain d where d: "outcome = Inr d" "d \<noteq> Deferred" by blast
  let ?t = "t\<lparr>im_outstanding := om_delete (h_sequence m) (im_outstanding t)\<rparr>"
  obtain x u c where p: "perform d m ?t b = (x, u, c)" by (rule prod_cases3)
  then have "t' = u" using assms(1) d by (cases x) (simp_all add: im_finish_def)
  with bound_perform [OF p bound_delete [OF assms(2)]] show ?thesis by simp
next
  case False
  with assms show ?thesis by (cases outcome) (auto simp: im_finish_def bound_def count_def)
qed

lemma bound_step:
  assumes "fleet_step s s'" "\<And>i. bound (fl_member s i)"
  shows "bound (fl_member s' j)"
proof -
  have set: "bound (fl_member (fleet_set i t c b s) j)" if "bound t" for i t c b
    using that assms(2) by (simp add: fleet_set_def)
  show ?thesis
    using assms(1)
  proof cases
    case (connect i)
    show ?thesis unfolding connect(1) by (rule set) (use assms(2) [of i] in \<open>simp add: bound_def im_connect_def\<close>)
  next
    case (close i t b)
    show ?thesis unfolding close(1)
      by (rule set) (use close(3) in \<open>auto simp: bound_def im_close_def returnOutstanding_def\<close>)
  next
    case (destroy i)
    show ?thesis unfolding destroy(1) by (rule set) (simp add: bound_def im_new_def)
  next
    case (provision i)
    show ?thesis unfolding provision(1) by (rule set) (rule assms(2))
  next
    case (purge i)
    show ?thesis unfolding purge(1) by (rule set) (rule assms(2))
  next
    case (send i tp body so ok t b)
    show ?thesis unfolding send(1)
      by (rule set) (use send(3) assms(2) [of i] in
          \<open>auto simp: bound_def im_send_def count_def split: if_splits prod.splits sum.splits\<close>)
  next
    case (subscribe i tp f r t)
    show ?thesis unfolding subscribe(1)
      by (rule set) (use subscribe(3) assms(2) [of i] in \<open>auto simp: bound_def im_subscribe_def split: if_splits\<close>)
  next
    case (settle i tag d r t b)
    show ?thesis unfolding settle(1)
      by (rule set) (use settle(3) assms(2) [of i] in
          \<open>auto simp: im_settle_def split: if_splits option.splits dest: bound_perform bound_delete\<close>)
  next
    case (fetch i f m t b)
    show ?thesis unfolding fetch(1)
      by (rule set) (use fetch(4,5) assms(2) [of i] in
          \<open>auto simp: bound_def im_fetch_def count_def split: if_splits option.splits\<close>)
  next
    case (finish i m outcome ok t b)
    show ?thesis unfolding finish(1)
      by (rule set) (rule bound_finish [OF finish(3) assms(2)])
  qed
qed

lemma reachable_bound: "reachable s \<Longrightarrow> bound (fl_member s i)"
proof (induction arbitrary: i rule: reachable.induct)
  case start
  show ?case by (simp add: fleet_start_def bound_def im_new_def)
qed (rule bound_step)

section \<open>Conservation\<close>

definition others_out :: "nat \<Rightarrow> fleet \<Rightarrow> entry set" where
  "others_out i s = (\<Union>j \<in> - {i}. held_out (fl_member s j))"

lemma inventory_set: "inventory (fleet_set i t c b s) = stored b \<union> held_out t \<union> others_out i s"
  by (auto simp: inventory_def fleet_set_def others_out_def split: if_splits)

lemma inventory_split:
  "inventory s = stored (fl_broker s) \<union> held_out (fl_member s i) \<union> others_out i s"
  by (auto simp: inventory_def others_out_def)

lemma inventory_keep:
  "stored b \<union> held_out t = stored (fl_broker s) \<union> held_out (fl_member s i) \<Longrightarrow>
     inventory (fleet_set i t c b s) = inventory s"
  unfolding inventory_set inventory_split [of s i] by simp

lemma held_out_single [simp]:
  "im_outstanding t = [(k, m)] \<Longrightarrow> held_out t = {entry (im_topic t) m}"
  "im_outstanding t = [] \<Longrightarrow> held_out t = {}"
  by (simp_all add: held_out_def)

lemma requeue_keeps:
  assumes "im_outstanding t = [(h_sequence m, m)]"
    and "perform Requeue m (t\<lparr>im_outstanding := []\<rparr>) b = (r, t', b')"
  shows "stored b' \<union> held_out t' = stored b \<union> held_out t"
  using assms by (auto simp: perform_def count_def stored_requeue)

lemma outstanding_found:
  assumes "member_ok t" "map_of (im_outstanding t) tag = Some m"
  shows "im_outstanding t = [(h_sequence m, m)] \<and> tag = h_sequence m"
  using assms by (auto simp: member_ok_def split: if_splits)

lemma calm_settle_keeps:
  assumes "member_ok t" "d \<in> {Requeue, Deferred}" "im_settle tag d t b = (r, t', b')"
  shows "stored b' \<union> held_out t' = stored b \<union> held_out t"
proof (cases "im_connected t \<and> d = Requeue \<and> map_of (im_outstanding t) tag \<noteq> None")
  case True
  then obtain m where m: "map_of (im_outstanding t) tag = Some m" by auto
  note o = outstanding_found [OF assms(1) m]
  from True assms(3) m o have "perform Requeue m (t\<lparr>im_outstanding := []\<rparr>) b = (r, t', b')"
    by (simp add: im_settle_def)
  then show ?thesis by (rule requeue_keeps [OF conjunct1 [OF o]])
next
  case False
  with assms(2,3) show ?thesis by (auto simp: im_settle_def split: if_splits)
qed

lemma calm_finish_keeps:
  assumes "im_outstanding t = [(h_sequence m, m)]" "outcome \<notin> {Inr Ack, Inr Reject}"
    and "im_finish m outcome t b = (ok, t', b')"
  shows "stored b' \<union> held_out t' = stored b \<union> held_out t"
proof (cases "outcome = Inr Requeue")
  case True
  then obtain r where "perform Requeue m (t\<lparr>im_outstanding := []\<rparr>) b = (r, t', b')"
    using assms(1,3) by (auto simp: im_finish_def split: prod.splits sum.splits)
  with assms(1) show ?thesis by (rule requeue_keeps)
next
  case False
  then have "(\<exists>e. outcome = Inl e) \<or> outcome = Inr Deferred"
    using assms(2) by (cases outcome; cases "projr outcome") auto
  with assms(3) have "im_outstanding t' = im_outstanding t \<and> im_topic t' = im_topic t \<and> b' = b"
    by (auto simp: im_finish_def count_def)
  then show ?thesis by (simp add: held_out_def)
qed

lemma calm_fetch_keeps:
  assumes "im_fetch t b = Some (m, t', b')"
  shows "stored b' \<union> held_out t' = stored b \<union> held_out t"
proof -
  have o: "im_outstanding t = []" using assms by (auto simp: im_fetch_def split: if_splits)
  then have "broker_take (im_topic t) b = Some (m, b')"
    using assms by (auto simp: im_fetch_def split: option.splits)
  moreover have "im_outstanding t' = [(h_sequence m, m)] \<and> im_topic t' = im_topic t"
    using assms o by (auto simp: im_fetch_def count_def split: option.splits)
  ultimately show ?thesis using o stored_take by (auto simp: held_out_single)
qed

lemma calm_declare_keeps:
  assumes "im_ensureTopic tp opts t b = (r, b')"
  shows "stored b' = stored b"
proof -
  obtain x c where 1: "broker_ensureTopic (deadLetterTopic tp) (forensicTopicOptions tp) b = (x, c)" by fastforce
  show ?thesis
    using assms 1 stored_ensureTopic [OF 1] stored_ensureTopic
    by (auto simp: im_ensureTopic_def split: if_splits sum.splits)
qed

lemma calm_step_inventory:
  assumes "calm_step s s'" "reachable s"
  shows "inventory s' = inventory s"
proof -
  have ok: "fleet_ok s" by (rule reachable_ok [OF assms(2)])
  note member = fleet_okD(1) [OF ok]
  show ?thesis
    using assms(1)
  proof cases
    case (calm_connect i)
    show ?thesis unfolding calm_connect(1) by (rule inventory_keep) (simp add: im_connect_def held_out_def)
  next
    case (calm_close i t b)
    have "stored b \<union> held_out t = stored (fl_broker s) \<union> held_out (fl_member s i)"
      using calm_close(3) stored_returnOutstanding [of "fl_member s i" "fl_broker s"]
      by (auto simp: im_close_def returnOutstanding_def held_out_def)
    then show ?thesis unfolding calm_close(1) by (rule inventory_keep)
  next
    case (calm_destroy i)
    show ?thesis unfolding calm_destroy(1)
      by (rule inventory_keep) (simp add: im_destroy_def stored_returnOutstanding im_new_def held_out_def)
  next
    case (calm_provision i tp opts r b)
    show ?thesis unfolding calm_provision(1)
      by (rule inventory_keep) (simp add: calm_declare_keeps [OF calm_provision(3)])
  next
    case (calm_subscribe i tp f r t)
    have "held_out t = held_out (fl_member s i)"
      using calm_subscribe(3) reachable_bound [OF assms(2), of i]
      by (auto simp: im_subscribe_def bound_def held_out_def split: if_splits)
    then show ?thesis unfolding calm_subscribe(1) by (intro inventory_keep) simp
  next
    case (calm_settle i d tag r t b)
    show ?thesis unfolding calm_settle(1)
      by (rule inventory_keep) (rule calm_settle_keeps [OF member calm_settle(3,4)])
  next
    case (calm_fetch i f m t b)
    show ?thesis unfolding calm_fetch(1) by (rule inventory_keep) (rule calm_fetch_keeps [OF calm_fetch(5)])
  next
    case (calm_finish i m outcome ok t b)
    have "im_outstanding (fl_member s i) = [(h_sequence m, m)]"
      using ok calm_finish(2) by (simp add: fleet_ok_def)
    then show ?thesis unfolding calm_finish(1)
      by (intro inventory_keep) (rule calm_finish_keeps [OF _ calm_finish(3,4)])
  qed
qed

text \<open>The numbers of what is stored and of what is out.\<close>

lemma stored_number: "(tp, n, x) \<in> stored b \<Longrightarrow> n \<in> set (seqs b tp)"
  by (auto simp: mem_stored entry_def)

lemma held_out_number: "member_ok t \<Longrightarrow> (tp, n, x) \<in> held_out t \<Longrightarrow> n \<in> tags t"
  by (auto simp: member_ok_def held_out_def entry_def tags_def)

lemma tags_not_stored: "fleet_ok s \<Longrightarrow> n \<in> tags (fl_member s i) \<Longrightarrow> n \<notin> set (seqs (fl_broker s) tp)"
  using placedD(3) [of "bsequence (fl_broker s)" "\<Union>k. tags (fl_member s k)" "seqs (fl_broker s)" tp]
  by (auto simp: fleet_ok_def unique_seqs_def)

lemma acked_inventory:
  assumes "reachable s" "im_outstanding (fl_member s i) = [(h_sequence m, m)]" "im_outstanding t = []"
  shows "inventory s = insert (entry (im_topic (fl_member s i)) m) (inventory (fleet_set i t c (fl_broker s) s)) \<and>
    entry (im_topic (fl_member s i)) m \<notin> inventory (fleet_set i t c (fl_broker s) s)"
proof -
  let ?e = "entry (im_topic (fl_member s i)) m"
  have ok: "fleet_ok s" by (rule reachable_ok [OF assms(1)])
  have tag: "h_sequence m \<in> tags (fl_member s i)" using assms(2) by (simp add: tags_def)
  then have "h_sequence m \<notin> set (seqs (fl_broker s) tp)" for tp
    by (rule tags_not_stored [OF ok])
  then have 1: "?e \<notin> stored (fl_broker s)" using stored_number by (fastforce simp: entry_def)
  have "?e \<notin> held_out (fl_member s j)" if "j \<noteq> i" for j
    using held_out_number [OF fleet_okD(1) [OF ok]] tag fleet_okD(2) [OF ok, of i] that
    by (fastforce simp: entry_def others_tags_def)
  then have 2: "?e \<notin> others_out i s" by (auto simp: others_out_def)
  show ?thesis
    using 1 2 assms(2,3) by (auto simp: inventory_set inventory_split [of s i])
qed

lemma acked_finish:
  assumes "reachable s" "fl_running s i = Some m"
    and "im_finish m (Inr Ack) (fl_member s i) (fl_broker s) = (ok, t, b)"
  shows "im_outstanding (fl_member s i) = [(h_sequence m, m)] \<and> im_outstanding t = [] \<and> b = fl_broker s"
proof -
  have "im_outstanding (fl_member s i) = [(h_sequence m, m)]"
    using reachable_ok [OF assms(1)] assms(2) by (simp add: fleet_ok_def)
  with assms(3) show ?thesis by (auto simp: im_finish_def perform_def count_def)
qed

lemma acked_settle:
  assumes "reachable s" "map_of (im_outstanding (fl_member s i)) tag = Some m"
    and "im_settle tag Ack (fl_member s i) (fl_broker s) = (Inr (), t, b)"
  shows "im_outstanding (fl_member s i) = [(h_sequence m, m)] \<and> im_outstanding t = [] \<and> b = fl_broker s"
  using outstanding_found [OF fleet_okD(1) [OF reachable_ok [OF assms(1)]] assms(2)] assms(2,3)
  by (auto simp: im_settle_def perform_def count_def split: if_splits)

section \<open>Properties\<close>

text \<open>
  C14: at least once, and acknowledged once. Let any number of transports work on one broker, in
  any interleaving, their handlers acknowledging, deferring, returning or crashing as they like
  and transports closing or being destroyed with work in hand. Then every message that was in a
  topic or in hand at the start was either acknowledged, exactly once, or is still in its topic
  or in hand, unchanged, and nothing else came in. In particular, when no transport has anything
  in hand, all that was not acknowledged waits in its topic.
\<close>

theorem fleet_at_least_once:
  assumes "reachable s" "work s acked s'"
  shows "distinct acked \<and> set acked \<inter> inventory s' = {} \<and> inventory s = set acked \<union> inventory s'"
  using assms(2,1)
proof (induction rule: work.induct)
  case (work_calm s as u v)
  then show ?case using calm_step_inventory [OF work_calm(2) work_reachable [OF work_calm(1)]] by simp
next
  case (work_acked s as u i m ok t b)
  have u: "reachable u" by (rule work_reachable [OF work_acked(1) work_acked(5)])
  from acked_inventory [OF u, of i m t None] acked_finish [OF u work_acked(2,3)] work_acked(4,5)
  show ?case by auto
next
  case (work_settled s as u i tag m t b)
  have u: "reachable u" by (rule work_reachable [OF work_settled(1) work_settled(6)])
  from acked_inventory [OF u, of i m t None] acked_settle [OF u work_settled(3,4)] work_settled(5,6)
  show ?case by auto
qed simp

text \<open>The message of \<open>one_sent\<close> is received by the transport that sent it, whose handler runs.\<close>

definition worker :: "unit in_memory" where
  "worker = fst (snd (im_send ''t'' ''x'' (default_send_options\<lparr>so_durable := False\<rparr>)
     (im_connect im_new) empty_broker))"

definition consuming :: "unit in_memory" where
  "consuming = snd (im_subscribe ''t'' (Some (\<lambda>_ h. (Inr Ack, h))) worker)"

definition in_progress :: fleet where
  "in_progress =
     (let (m, t, b) = the (im_fetch consuming (fl_broker one_sent)) in
      fleet_set 0 t (Some m) b (fleet_set 0 consuming None (fl_broker one_sent) one_sent))"

lemma reachable_in_progress:
  "reachable in_progress \<and> fl_running in_progress 0 = Some \<lparr>h_sequence = 1, h_body = ''x'', h_redelivered = False\<rparr> \<and>
     im_topic (fl_member in_progress 0) = ''t''"
proof -
  let ?u = "fleet_set 0 consuming None (fl_broker one_sent) one_sent"
  let ?m = "\<lparr>h_sequence = 1, h_body = ''x'', h_redelivered = False\<rparr>"
  have 1: "fl_member one_sent 0 = worker" "fl_running one_sent 0 = None"
    by (simp_all add: one_sent_def worker_def fleet_set_def)
  have c: "consuming = worker\<lparr>im_topic := ''t'', im_handler := Some (\<lambda>_ h. (Inr Ack, h)), im_subscribed := True\<rparr>"
    "im_outstanding worker = []" "im_connected worker"
    by (simp_all add: consuming_def worker_def im_subscribe_def im_send_def im_connect_def im_new_def
        default_send_options_def broker_publish_def empty_broker_def state_of_def put_state_def
        default_topic_state_def default_topic_options_def enqueueLocked.simps set_queue_def count_def)
  have "broker_take ''t'' (fl_broker one_sent) = Some (?m, set_queue ''t'' [] (fl_broker one_sent))"
    by (simp add: one_sent_def fleet_set_def im_send_def im_connect_def im_new_def broker_take_def
        default_send_options_def broker_publish_def empty_broker_def state_of_def put_state_def
        default_topic_state_def default_topic_options_def enqueueLocked.simps set_queue_def)
  then have "\<exists>t b. im_fetch consuming (fl_broker one_sent) = Some (?m, t, b) \<and> im_topic t = ''t''"
    unfolding im_fetch_def c(1) using c(2) by (simp add: count_def)
  then obtain t b where f: "im_fetch consuming (fl_broker one_sent) = Some (?m, t, b)" "im_topic t = ''t''" by blast
  have "fleet_step one_sent ?u"
    by (rule fleet_step.subscribe [of one_sent 0 "''t''" "Some (\<lambda>_ h. (Inr Ack, h))" "Inr ()"])
      (use 1 c in \<open>simp_all add: im_subscribe_def worker_def im_send_def im_connect_def im_new_def
        default_send_options_def broker_publish_def empty_broker_def state_of_def put_state_def
        default_topic_state_def default_topic_options_def enqueueLocked.simps set_queue_def count_def\<close>)
  then have "reachable ?u" by (rule reachable.step [OF reachable_one_sent])
  moreover have "fleet_step ?u (fleet_set 0 t (Some ?m) b ?u)"
  proof (rule fleet_step.fetch)
    show "fl_running ?u 0 = None" by (simp add: fleet_set_def)
    show "im_connected (fl_member ?u 0)" "im_handler (fl_member ?u 0) = Some (\<lambda>_ h. (Inr Ack, h))"
      by (simp_all add: fleet_set_def c)
    show "im_fetch (fl_member ?u 0) (fl_broker ?u) = Some (?m, t, b)"
      using f(1) by (simp add: fleet_set_def)
  qed
  ultimately have "reachable (fleet_set 0 t (Some ?m) b ?u)" by (rule reachable.step)
  then show ?thesis using f by (simp add: in_progress_def) (simp add: fleet_set_def)
qed

lemma fleet_at_least_once_witness:
  "\<exists>s'. work in_progress [(''t'', 1, ''x'')] s' \<and> (''t'', 1, ''x'') \<in> inventory in_progress \<and>
     (''t'', 1, ''x'') \<notin> inventory s'"
proof -
  let ?m = "\<lparr>h_sequence = 1, h_body = ''x'', h_redelivered = False\<rparr>"
  note r = reachable_in_progress
  obtain ok t b where "im_finish ?m (Inr Ack) (fl_member in_progress 0) (fl_broker in_progress) = (ok, t, b)"
    by (rule prod_cases3)
  with r have "work in_progress ([] @ [entry (im_topic (fl_member in_progress 0)) ?m]) (fleet_set 0 t None b in_progress)"
    by (intro work_acked) (auto intro: work_rest)
  then have w: "work in_progress [(''t'', 1, ''x'')] (fleet_set 0 t None b in_progress)"
    using r by (simp add: entry_def)
  from fleet_at_least_once [OF conjunct1 [OF r] w] w show ?thesis by auto
qed

end
