(* ===== verification/Transport.thy ===== *)
theory Transport
  imports Seam
begin

text \<open>
  Class \<open>ITransport\<close> of \<open>include/motus/transport/ITransport.hpp\<close> as a record of its virtual
  functions, and its contract as locales. \<open>'t\<close> is the state of a backend together with the
  middleware behind it, \<open>'h\<close> the memory its delivery handler captures (a backend may call the
  handler in any operation that waits), and \<open>'e\<close> stands for the
  time bound of a call: whatever the rest of the world does while the call waits.
\<close>

section \<open>The virtual functions\<close>

record ('e, 't, 'h) itransport =
  it_capabilities :: capabilities
  it_connect :: "endpoint \<Rightarrow> 'e \<Rightarrow> 't \<Rightarrow> 'h \<Rightarrow> unit result \<times> 't \<times> 'h"
  it_close :: "'e \<Rightarrow> 't \<Rightarrow> 'h \<Rightarrow> unit result \<times> 't \<times> 'h"
  it_ready :: "'t \<Rightarrow> bool"
  it_ensureTopic :: "topic \<Rightarrow> topic_options \<Rightarrow> 'e \<Rightarrow> 't \<Rightarrow> 'h \<Rightarrow> unit result \<times> 't \<times> 'h"
  it_topicDepth :: "topic \<Rightarrow> 'e \<Rightarrow> 't \<Rightarrow> 'h \<Rightarrow> u32 result \<times> 't \<times> 'h"
  it_purgeTopic :: "topic \<Rightarrow> 'e \<Rightarrow> 't \<Rightarrow> 'h \<Rightarrow> u32 result \<times> 't \<times> 'h"
  it_send :: "topic \<Rightarrow> string \<Rightarrow> send_options \<Rightarrow> 't \<Rightarrow> bool result \<times> 't"
  it_subscribe ::
    "topic \<Rightarrow> 'h delivery_handler option \<Rightarrow> 'e \<Rightarrow> 't \<Rightarrow> 'h \<Rightarrow> unit result \<times> 't \<times> 'h"
  it_settle :: "nat \<Rightarrow> disposition \<Rightarrow> 't \<Rightarrow> unit result \<times> 't"
  it_setReconnectPolicy :: "reconnect_policy \<Rightarrow> 't \<Rightarrow> 't"
  it_pump :: "'e \<Rightarrow> 't \<Rightarrow> 'h \<Rightarrow> bool result \<times> 't \<times> 'h"
  it_stats :: "'t \<Rightarrow> stats"

section \<open>The contract of acknowledgement\<close>

text \<open>
  The dispositions a transport performed, in the order acknowledged, rejected, requeued, and
  what one outcome of a handler adds to them. A deferred delivery and one whose handler threw
  add nothing.
\<close>

definition performed :: "stats \<Rightarrow> nat \<times> nat \<times> nat" where
  "performed s = (acksPerformed s, rejectsPerformed s, requeuesPerformed s)"

fun tally :: "disposition result \<Rightarrow> nat \<times> nat \<times> nat \<Rightarrow> nat \<times> nat \<times> nat" where
  "tally (Inr Ack) (a, r, q) = (a + 1, r, q)"
| "tally (Inr Reject) (a, r, q) = (a, r + 1, q)"
| "tally (Inr Requeue) (a, r, q) = (a, r, q + 1)"
| "tally (Inr Deferred) (a, r, q) = (a, r, q)"
| "tally (Inl e) (a, r, q) = (a, r, q)"

text \<open>One call of the handler: what it does to its memory and adds to what was performed.\<close>

definition serve ::
  "'h delivery_handler \<Rightarrow> 'h \<times> nat \<times> nat \<times> nat \<Rightarrow> 'h \<times> nat \<times> nat \<times> nat \<Rightarrow> bool" where
  "serve f x y \<longleftrightarrow>
     (\<exists>d outcome. f d (fst x) = (outcome, fst y) \<and> snd y = tally outcome (snd x))"

lemma serve_once: "f d h = (outcome, h') \<Longrightarrow> (serve f)\<^sup>*\<^sup>* (h, p) (h', tally outcome p)"
  by (rule r_into_rtranclp) (auto simp: serve_def)

lemma served_in_step:
  assumes "(serve f)\<^sup>*\<^sup>* x y" "own (fst x) = snd x"
    and "\<And>d outcome h h'. f d h = (outcome, h') \<Longrightarrow> own h' = tally outcome (own h)"
  shows "own (fst y) = snd y"
  using assms(1)
proof (induction rule: rtranclp_induct)
  case (step y z)
  then obtain d outcome where "f d (fst y) = (outcome, fst z)" "snd z = tally outcome (snd y)"
    by (auto simp: serve_def)
  with assms(3) step.IH show ?case by simp
qed (rule assms(2))

text \<open>
  The part of the contract a consumer relies on. \<open>sound\<close> is the invariant of the backend, kept
  while the world acts as \<open>fair\<close> describes. A \<open>pump\<close> calls the handler any number of times and
  performs what it decided; \<open>settle\<close> performs exactly when it returns.
\<close>

locale acknowledging =
  fixes pump :: "'e \<Rightarrow> 't \<Rightarrow> 'h \<Rightarrow> bool result \<times> 't \<times> 'h"
    and settle :: "nat \<Rightarrow> disposition \<Rightarrow> 't \<Rightarrow> unit result \<times> 't"
    and handler :: "'t \<Rightarrow> 'h delivery_handler option"
    and statistics :: "'t \<Rightarrow> stats"
    and fair :: "'e \<Rightarrow> bool"
    and sound :: "'t \<Rightarrow> bool"
  assumes pump_contract: "sound t \<Longrightarrow> fair e \<Longrightarrow> handler t = Some f \<Longrightarrow> pump e t h = (ok, t', h') \<Longrightarrow>
      sound t' \<and> handler t' = Some f \<and>
      (serve f)\<^sup>*\<^sup>* (h, performed (statistics t)) (h', performed (statistics t'))"
    and settle_contract: "sound t \<Longrightarrow> settle tag d t = (r, t') \<Longrightarrow>
      sound t' \<and> handler t' = handler t \<and>
      performed (statistics t') =
        (case r of Inl x \<Rightarrow> performed (statistics t) | Inr _ \<Rightarrow> tally (Inr d) (performed (statistics t)))"
begin

text \<open>
  Whatever quantity \<open>own\<close> of its memory the handler keeps in step with its outcomes stays in
  step with what the transport performed.
\<close>

lemma pump_in_step:
  assumes "sound t" "fair e" "handler t = Some f" "own h = performed (statistics t)"
    and "\<And>d outcome h h'. f d h = (outcome, h') \<Longrightarrow> own h' = tally outcome (own h)"
    and "pump e t h = (ok, t', h')"
  shows "sound t' \<and> handler t' = Some f \<and> own h' = performed (statistics t')"
  using pump_contract [OF assms(1-3,6)] served_in_step [where own = own, OF _ _ assms(5)] assms(4)
  by fastforce

lemma settle_in_step:
  assumes "sound t" "own = performed (statistics t)" "settle tag d t = (Inr u, t')"
  shows "sound t' \<and> handler t' = handler t \<and> tally (Inr d) own = performed (statistics t')"
  using settle_contract [OF assms(1,3)] assms(2) by simp

lemma settle_failed:
  assumes "sound t" "settle tag d t = (Inl x, t')"
  shows "sound t' \<and> handler t' = handler t \<and> performed (statistics t') = performed (statistics t)"
  using settle_contract [OF assms] by simp

end

end
