(* ===== verification/Consumer.thy ===== *)
theory Consumer
  imports Transport Wire_Envelope Fifo
begin

text \<open>
  The consumer: \<open>src/Consumer.cpp\<close> and \<open>include/motus/Consumer.hpp\<close>. \<open>dispatch\<close> decides one
  body, the delivery handler \<open>consumer_deliver\<close> counts the decision, and \<open>poll\<close> settles what the
  workers finished before it pumps. The user's handlers run over a memory \<open>'u\<close> of their own and
  may throw anything.
\<close>

section \<open>Handlers and dispatch\<close>

record 'u handlers =
  onMessage :: "(byte_message \<Rightarrow> 'u \<Rightarrow> unit result \<times> 'u) option"
  onDeferred :: "(byte_message \<Rightarrow> nat \<Rightarrow> 'u \<Rightarrow> disposition result \<times> 'u) option"

record dispatch_result =
  dr_disposition :: disposition
  dr_error :: string

text \<open>\<open>decode\<close>: the failure it fills in on the left, the message on the right.\<close>

definition decode :: "string \<Rightarrow> (dispatch_result + byte_message) result" where
  "decode body =
     (if length body > MAX_PAYLOAD_BYTES
      then Inr (Inl \<lparr>dr_disposition = Reject, dr_error = msg_body_oversize (length body)\<rparr>)
      else
        (case deserialize body of
           Inr message \<Rightarrow> Inr (Inr message)
         | Inl e \<Rightarrow>
             if is_std_exception e
             then Inr (Inl \<lparr>dr_disposition = Reject, dr_error = what e\<rparr>)
             else Inl e))"

definition msg_persisted :: "string \<Rightarrow> string" where
  "msg_persisted reason =
     ''transient failure persisted across a redelivery, treating as permanent: '' @ reason"

definition classifyTransient :: "string \<Rightarrow> bool \<Rightarrow> dispatch_result" where
  "classifyTransient reason redelivered =
     (if redelivered
      then \<lparr>dr_disposition = Reject, dr_error = msg_persisted reason\<rparr>
      else \<lparr>dr_disposition = Requeue, dr_error = reason\<rparr>)"

definition msg_no_handler_configured :: string where
  "msg_no_handler_configured = ''message understood, but no handler is configured''"

text \<open>The catch clauses the two handler shapes share.\<close>

fun caught :: "exn \<Rightarrow> bool \<Rightarrow> dispatch_result result" where
  "caught (Transient_Failure reason) redelivered = Inr (classifyTransient reason redelivered)"
| "caught e redelivered =
     (if is_std_exception e then Inr \<lparr>dr_disposition = Reject, dr_error = what e\<rparr> else Inl e)"

definition dispatch ::
  "string \<Rightarrow> 'u handlers \<Rightarrow> bool \<Rightarrow> nat \<Rightarrow> 'u \<Rightarrow> dispatch_result result \<times> 'u" where
  "dispatch body handlers redelivered deliveryTag u =
     (case decode body of
        Inl e \<Rightarrow> (Inl e, u)
      | Inr (Inl failure) \<Rightarrow> (Inr failure, u)
      | Inr (Inr message) \<Rightarrow>
          (case onDeferred handlers of
             Some deferred \<Rightarrow>
               (case deferred message deliveryTag u of
                  (Inr d, u1) \<Rightarrow> (Inr \<lparr>dr_disposition = d, dr_error = []\<rparr>, u1)
                | (Inl e, u1) \<Rightarrow> (caught e redelivered, u1))
           | None \<Rightarrow>
               (case onMessage handlers of
                  None \<Rightarrow>
                    (Inr \<lparr>dr_disposition = Reject, dr_error = msg_no_handler_configured\<rparr>, u)
                | Some handler \<Rightarrow>
                    (case handler message u of
                       (Inr _, u1) \<Rightarrow> (Inr \<lparr>dr_disposition = Ack, dr_error = []\<rparr>, u1)
                     | (Inl e, u1) \<Rightarrow> (caught e redelivered, u1)))))"

definition dispatch_message ::
  "string \<Rightarrow> (byte_message \<Rightarrow> 'u \<Rightarrow> unit result \<times> 'u) option \<Rightarrow> bool \<Rightarrow> 'u
     \<Rightarrow> dispatch_result result \<times> 'u" where
  "dispatch_message body handler redelivered u =
     dispatch body \<lparr>onMessage = handler, onDeferred = None\<rparr> redelivered 0 u"

section \<open>The settlement queue\<close>

type_synonym settlement = "nat \<times> disposition"
type_synonym settlement_queue = "settlement list"

definition settlement_push :: "settlement \<Rightarrow> settlement_queue \<Rightarrow> settlement_queue" where
  "settlement_push s q = q @ [s]"

definition settlement_tryPop :: "settlement_queue \<Rightarrow> (settlement \<times> settlement_queue) option" where
  "settlement_tryPop q = (case q of [] \<Rightarrow> None | s # q' \<Rightarrow> Some (s, q'))"

section \<open>The consumer\<close>

record 'u consumer =
  con_handlers :: "'u handlers"
  con_acked :: nat
  con_rejected :: nat
  con_requeued :: nat
  con_deferred :: nat
  con_settlements :: "settlement_queue option"
  con_user :: 'u

definition msg_needs_handler :: string where
  "msg_needs_handler = ''Consumer requires at least one callable handler''"

definition msg_no_manual_ack :: "string \<Rightarrow> string" where
  "msg_no_manual_ack backend =
     ''transport backend '' @ quoted backend @
     '' does not support manual acknowledgement, so a message would be acknowledged '' @
     ''before it is processed. Poison-message rejection and redelivery after a worker '' @
     ''crash both depend on it.''"

definition msg_no_deferred_ack :: "string \<Rightarrow> string" where
  "msg_no_deferred_ack backend =
     ''transport backend '' @ quoted backend @
     '' does not support deferred acknowledgement (Capabilities::deferredAcknowledgement '' @
     ''is false), but a deferred handler was configured.''"

definition consumer_new :: "capabilities \<Rightarrow> 'u handlers \<Rightarrow> 'u \<Rightarrow> 'u consumer result" where
  "consumer_new caps handlers u =
     (if onMessage handlers = None \<and> onDeferred handlers = None
      then Inl (Invalid_Argument msg_needs_handler)
      else if \<not> manualAcknowledgement caps
      then Inl (Runtime_Error (msg_no_manual_ack (cap_name caps)))
      else if onDeferred handlers \<noteq> None \<and> \<not> deferredAcknowledgement caps
      then Inl (Runtime_Error (msg_no_deferred_ack (cap_name caps)))
      else Inr
        \<lparr>con_handlers = handlers, con_acked = 0, con_rejected = 0, con_requeued = 0,
         con_deferred = 0, con_settlements = None, con_user = u\<rparr>)"

definition attachSettlementQueue :: "settlement_queue \<Rightarrow> 'u consumer \<Rightarrow> 'u consumer" where
  "attachSettlementQueue q c = c\<lparr>con_settlements := Some q\<rparr>"

text \<open>
  The lambda that \<open>start\<close> subscribes. Its memory is the consumer it captures through \<open>this\<close>; the
  log lines are left out.
\<close>

definition consumer_deliver :: "capabilities \<Rightarrow> 'u consumer delivery_handler" where
  "consumer_deliver caps delivery c =
     (case dispatch (d_body delivery) (con_handlers c) (d_redelivered delivery) (d_tag delivery)
             (con_user c) of
        (Inl e, u) \<Rightarrow> (Inl e, c\<lparr>con_user := u\<rparr>)
      | (Inr result, u) \<Rightarrow>
          (let c1 = c\<lparr>con_user := u\<rparr>;
               d = (if dr_disposition result = Requeue \<and> \<not> requeueCap caps then Reject
                    else dr_disposition result) in
           (Inr d,
            (case d of
               Ack \<Rightarrow> c1\<lparr>con_acked := con_acked c1 + 1\<rparr>
             | Requeue \<Rightarrow> c1\<lparr>con_requeued := con_requeued c1 + 1\<rparr>
             | Reject \<Rightarrow> c1\<lparr>con_rejected := con_rejected c1 + 1\<rparr>
             | Deferred \<Rightarrow> c1\<lparr>con_deferred := con_deferred c1 + 1\<rparr>))))"

definition consumer_start ::
  "('e, 't, 'u consumer) itransport \<Rightarrow> topic \<Rightarrow> 'e \<Rightarrow> topic_options \<Rightarrow> bool \<Rightarrow> 'u consumer \<Rightarrow> 't
     \<Rightarrow> unit result \<times> 'u consumer \<times> 't" where
  "consumer_start it tp timeout options allowAsymmetric c t =
     (case checkTopicOptions (it_capabilities it) options allowAsymmetric of
        Inl e \<Rightarrow> (Inl e, c, t)
      | Inr _ \<Rightarrow>
          (case it_ensureTopic it tp options timeout t c of
             (Inl e, t1, c1) \<Rightarrow> (Inl e, c1, t1)
           | (Inr _, t1, c1) \<Rightarrow>
               (case it_subscribe it tp (Some (consumer_deliver (it_capabilities it))) timeout t1 c1 of
                  (r, t2, c2) \<Rightarrow> (r, c2, t2))))"

text \<open>
  The drain of \<open>poll\<close>. \<open>arrivals\<close> is what the workers push meanwhile: its first entry before the
  first \<open>tryPop\<close>, the next before the second, and so on; entries the drain does not get to are
  pushed by the time it returns. A settlement is popped before it is performed, so one whose
  \<open>settle\<close> throws is gone.
\<close>

definition count_settled :: "disposition \<Rightarrow> 'u consumer \<Rightarrow> 'u consumer" where
  "count_settled d c =
     (case d of
        Ack \<Rightarrow> c\<lparr>con_acked := con_acked c + 1\<rparr>
      | Requeue \<Rightarrow> c\<lparr>con_requeued := con_requeued c + 1\<rparr>
      | Reject \<Rightarrow> c\<lparr>con_rejected := con_rejected c + 1\<rparr>
      | Deferred \<Rightarrow> c)"

definition pushed :: "settlement list list \<Rightarrow> settlement list" where
  "pushed arrivals = (case arrivals of [] \<Rightarrow> [] | batch # _ \<Rightarrow> batch)"

function consumer_drain ::
  "(nat \<Rightarrow> disposition \<Rightarrow> 't \<Rightarrow> unit result \<times> 't) \<Rightarrow> settlement list list \<Rightarrow> settlement_queue
     \<Rightarrow> 'u consumer \<Rightarrow> 't \<Rightarrow> unit result \<times> settlement_queue \<times> 'u consumer \<times> 't" where
  "consumer_drain settle arrivals q c t =
     (case settlement_tryPop (foldl (\<lambda>p s. settlement_push s p) q (pushed arrivals)) of
        None \<Rightarrow> (Inr (), concat (tl arrivals), c, t)
      | Some ((handle, d), q1) \<Rightarrow>
          (case settle handle d t of
             (Inl e, t1) \<Rightarrow> (Inl e, q1 @ concat (tl arrivals), c, t1)
           | (Inr _, t1) \<Rightarrow> consumer_drain settle (tl arrivals) q1 (count_settled d c) t1))"
  by pat_completeness auto

lemma settlement_pushes: "foldl (\<lambda>p s. settlement_push s p) q xs = q @ xs"
  by (induction xs arbitrary: q) (simp_all add: settlement_push_def)

lemma settlement_tryPop_Some: "settlement_tryPop q = Some (s, q') \<longleftrightarrow> q = s # q'"
  by (auto simp: settlement_tryPop_def split: list.split)

lemma settlement_tryPop_None: "settlement_tryPop q = None \<longleftrightarrow> q = []"
  by (simp add: settlement_tryPop_def split: list.split)

lemma pushed_concat: "pushed arrivals @ concat (tl arrivals) = concat arrivals"
  by (cases arrivals) (simp_all add: pushed_def)

termination consumer_drain
proof (relation "measure (\<lambda>(settle, arrivals, q, c, t). length q + length (concat arrivals))")
  fix settle :: "nat \<Rightarrow> disposition \<Rightarrow> 'a \<Rightarrow> unit result \<times> 'a" and arrivals :: "settlement list list"
    and q :: settlement_queue and c :: "'b consumer" and t :: 'a
    and x2 x q1 handle d xb t1 x2b
  assume "settlement_tryPop (foldl (\<lambda>p s. settlement_push s p) q (pushed arrivals)) = Some x2"
    "(x, q1) = x2" "(handle, d) = x"
  then have "q @ pushed arrivals = (handle, d) # q1"
    by (auto simp: settlement_pushes settlement_tryPop_Some)
  then have "length q + length (pushed arrivals) = Suc (length q1)"
    by (metis length_Cons length_append)
  then show "((settle, tl arrivals, q1, count_settled d c, t1), settle, arrivals, q, c, t)
      \<in> measure (\<lambda>(settle, arrivals, q, c, t). length q + length (concat arrivals))"
    using arg_cong [OF pushed_concat [of arrivals], of length] by simp
qed simp

declare consumer_drain.simps [simp del]

definition consumer_poll ::
  "('e, 't, 'u consumer) itransport \<Rightarrow> settlement list list \<Rightarrow> 'e \<Rightarrow> 'u consumer \<Rightarrow> 't
     \<Rightarrow> bool result \<times> 'u consumer \<times> 't" where
  "consumer_poll it arrivals bound c t =
     (case con_settlements c of
        None \<Rightarrow> (case it_pump it bound t c of (r, t1, c1) \<Rightarrow> (r, c1, t1))
      | Some q \<Rightarrow>
          (case consumer_drain (it_settle it) arrivals q c t of
             (Inl e, q1, c1, t1) \<Rightarrow> (Inl e, c1\<lparr>con_settlements := Some q1\<rparr>, t1)
           | (Inr _, q1, c1, t1) \<Rightarrow>
               (case it_pump it bound t1 (c1\<lparr>con_settlements := Some q1\<rparr>) of
                  (r, t2, c2) \<Rightarrow> (r, c2, t2))))"

end
