(* ===== verification/Consumer_Props.thy ===== *)
theory Consumer_Props
  imports Consumer
begin

text \<open>
  Properties of the consumer: the decision table of \<open>dispatch\<close>, the bounded retry, the guards
  of the constructor, the settlement queue as a first-in first-out channel, and, over the
  contract of acknowledgement, the agreement of the consumer's counters with what its
  transport performed.
\<close>

section \<open>Lemmas\<close>

lemma deserialize_std: "deserialize body = Inl e \<Longrightarrow> is_std_exception e"
proof -
  have "parse_version v cs = Inl e \<Longrightarrow> is_std_exception e" for v cs
    by (induction v cs rule: parse_version.induct) (auto split: if_splits)
  then show "deserialize body = Inl e \<Longrightarrow> is_std_exception e"
    by (auto simp: deserialize_def Let_def split: if_splits option.splits sum.splits)
qed

lemma decode_eq:
  "decode body =
     Inr (case deserialize body of
            Inr m \<Rightarrow> Inr m
          | Inl e \<Rightarrow> Inl \<lparr>dr_disposition = Reject, dr_error = what e\<rparr>)"
proof (cases "length body > MAX_PAYLOAD_BYTES")
  case True
  then show ?thesis by (simp add: decode_def deserialize_def)
next
  case False
  then show ?thesis by (auto simp: decode_def deserialize_std split: sum.split)
qed

lemma caught_std:
  "is_std_exception e \<Longrightarrow>
     caught e redelivered = Inr (case e of
         Transient_Failure reason \<Rightarrow> classifyTransient reason redelivered
       | _ \<Rightarrow> \<lparr>dr_disposition = Reject, dr_error = what e\<rparr>)"
  by (cases e) simp_all

definition decisions :: "'u consumer \<Rightarrow> nat \<times> nat \<times> nat" where
  "decisions c = (con_acked c, con_rejected c, con_requeued c)"

lemma consumer_deliver_tally:
  "consumer_deliver caps d c = (outcome, c') \<Longrightarrow> decisions c' = tally outcome (decisions c)"
  by (auto simp: consumer_deliver_def decisions_def Let_def split: prod.splits sum.splits disposition.splits)

lemma decisions_count_settled: "decisions (count_settled d c) = tally (Inr d) (decisions c)"
  by (simp add: decisions_def count_settled_def split: disposition.split)

lemma decisions_settlements [simp]: "decisions (c\<lparr>con_settlements := q\<rparr>) = decisions c"
  by (simp add: decisions_def)

lemma consumer_drain_Nil:
  "q @ pushed arrivals = [] \<Longrightarrow>
     consumer_drain settle arrivals q c t = (Inr (), concat (tl arrivals), c, t)"
  by (subst consumer_drain.simps) (simp add: settlement_pushes settlement_tryPop_def)

lemma consumer_drain_Cons:
  "q @ pushed arrivals = (handle, d) # q1 \<Longrightarrow>
     consumer_drain settle arrivals q c t =
       (case settle handle d t of
          (Inl e, t1) \<Rightarrow> (Inl e, q1 @ concat (tl arrivals), c, t1)
        | (Inr _, t1) \<Rightarrow> consumer_drain settle (tl arrivals) q1 (count_settled d c) t1)"
  by (subst consumer_drain.simps) (simp add: settlement_pushes settlement_tryPop_def)

text \<open>A consumer that polls repeatedly.\<close>

fun poll_all ::
  "('e, 't, 'u consumer) itransport \<Rightarrow> (settlement list list \<times> 'e) list \<Rightarrow> 'u consumer \<Rightarrow> 't
     \<Rightarrow> 'u consumer \<times> 't" where
  "poll_all it [] c t = (c, t)"
| "poll_all it ((arrivals, e) # polls) c t =
     (case consumer_poll it arrivals e c t of (r, c1, t1) \<Rightarrow> poll_all it polls c1 t1)"

text \<open>How many of these polls throw.\<close>

fun failed_polls ::
  "('e, 't, 'u consumer) itransport \<Rightarrow> (settlement list list \<times> 'e) list \<Rightarrow> 'u consumer \<Rightarrow> 't \<Rightarrow> nat" where
  "failed_polls it [] c t = 0"
| "failed_polls it ((arrivals, e) # polls) c t =
     (case consumer_poll it arrivals e c t of
        (r, c1, t1) \<Rightarrow> (if isl r then 1 else 0) + failed_polls it polls c1 t1)"

section \<open>What the operations of a transport keep\<close>

lemma consumer_drain_keeps:
  assumes "\<And>tag d t r t'. settle tag d t = (r, t') \<Longrightarrow> P t \<Longrightarrow> P t'"
    and "P t" "consumer_drain settle arrivals q c t = (r, q', c', t')"
  shows "P t'"
  using assms
proof (induction settle arrivals q c t rule: consumer_drain.induct)
  case (1 settle arrivals q c t)
  show ?case
  proof (cases "q @ pushed arrivals")
    case Nil
    with "1.prems" show ?thesis by (simp add: consumer_drain_Nil)
  next
    case (Cons s q1)
    obtain handle d where s: "s = (handle, d)" by fastforce
    note drain = consumer_drain_Cons [OF Cons [unfolded s], of settle c t]
    obtain x t1 where settled: "settle handle d t = (x, t1)" by fastforce
    note t1 = "1.prems"(1) [OF settled "1.prems"(2)]
    show ?thesis
    proof (cases x)
      case (Inl e)
      with t1 "1.prems"(3) drain settled show ?thesis by simp
    next
      case (Inr u)
      have rest: "consumer_drain settle (tl arrivals) q1 (count_settled d c) t1 = (r, q', c', t')"
        using "1.prems"(3) drain settled Inr by simp
      have "settlement_tryPop (foldl (\<lambda>p s. settlement_push s p) q (pushed arrivals)) = Some ((handle, d), q1)"
        using Cons s by (simp add: settlement_pushes settlement_tryPop_Some)
      from "1.IH" [OF this refl refl settled [symmetric] Inr "1.prems"(1) t1 rest] show ?thesis .
    qed
  qed
qed

lemma poll_all_keeps:
  assumes "\<And>e t h r t' h'. it_pump it e t h = (r, t', h') \<Longrightarrow> P t \<Longrightarrow> P t'"
    and "\<And>tag d t r t'. it_settle it tag d t = (r, t') \<Longrightarrow> P t \<Longrightarrow> P t'"
    and "P t" "poll_all it polls c t = (c', t')"
  shows "P t'"
  using assms(3,4)
proof (induction polls arbitrary: c t)
  case (Cons poll polls)
  obtain arrivals e where poll: "poll = (arrivals, e)" by fastforce
  obtain r c1 t1 where p: "consumer_poll it arrivals e c t = (r, c1, t1)" by (metis prod_cases3)
  have "P t1"
  proof (cases "con_settlements c")
    case None
    with p assms(1) [OF _ Cons.prems(1)] show ?thesis
      by (auto simp: consumer_poll_def split: prod.splits)
  next
    case (Some q)
    obtain x q1 c2 t2 where drain: "consumer_drain (it_settle it) arrivals q c t = (x, q1, c2, t2)"
      by (metis prod_cases4)
    have "P t2"
      by (rule consumer_drain_keeps [where P = P, OF _ Cons.prems(1) drain]) (rule assms(2))
    with p Some drain assms(1) [of e t2] show ?thesis
      by (cases x) (auto simp: consumer_poll_def split: prod.splits)
  qed
  then show ?case using Cons.IH [of t1 c1] Cons.prems(2) poll p by simp
qed simp

section \<open>The settlement queue as a channel\<close>

interpretation settlements: fifo_channel settlement_push settlement_tryPop "\<lambda>q. q" "\<lambda>_. True"
  by unfold_locales (auto simp: settlement_push_def settlement_tryPop_def)

section \<open>Counting over the contract\<close>

locale consumed = acknowledging "it_pump it" "it_settle it" handler "it_stats it" fair sound
  for it :: "('e, 't, 'u consumer) itransport"
    and handler :: "'t \<Rightarrow> 'u consumer delivery_handler option"
    and fair :: "'e \<Rightarrow> bool" and sound :: "'t \<Rightarrow> bool"
begin

lemma drain_in_step:
  assumes "sound t" "decisions c = performed (it_stats it t)"
    and "consumer_drain (it_settle it) arrivals q c t = (r, q', c', t')"
  shows "sound t' \<and> handler t' = handler t \<and> decisions c' = performed (it_stats it t')"
  using assms
proof (induction "it_settle it" arrivals q c t rule: consumer_drain.induct)
  case (1 arrivals q c t)
  show ?case
  proof (cases "q @ pushed arrivals")
    case Nil
    with "1.prems" show ?thesis by (simp add: consumer_drain_Nil)
  next
    case (Cons s q1)
    obtain handle d where s: "s = (handle, d)" by fastforce
    note drain = consumer_drain_Cons [OF Cons [unfolded s], of "it_settle it" c t]
    obtain x t1 where settled: "it_settle it handle d t = (x, t1)" by fastforce
    show ?thesis
    proof (cases x)
      case (Inl e)
      then show ?thesis
        using settle_failed [OF "1.prems"(1) settled [unfolded Inl]] "1.prems"(2,3) drain settled by auto
    next
      case (Inr u)
      note t1 = settle_in_step [OF "1.prems"(1,2) settled [unfolded Inr]]
      have rest: "consumer_drain (it_settle it) (tl arrivals) q1 (count_settled d c) t1 = (r, q', c', t')"
        using "1.prems"(3) drain settled Inr by simp
      have "settlement_tryPop (foldl (\<lambda>p s. settlement_push s p) q (pushed arrivals)) = Some ((handle, d), q1)"
        using Cons s by (simp add: settlement_pushes settlement_tryPop_Some)
      from "1.hyps" [OF this refl refl settled [symmetric] Inr _ _ rest]
      show ?thesis using t1 by (simp add: decisions_count_settled)
    qed
  qed
qed

lemma poll_in_step:
  assumes "sound t" "fair e" "handler t = Some (consumer_deliver caps)"
    and "decisions c = performed (it_stats it t)"
    and "consumer_poll it arrivals e c t = (r, c', t')"
  shows "sound t' \<and> handler t' = Some (consumer_deliver caps) \<and>
    decisions c' = performed (it_stats it t')"
proof (cases "con_settlements c")
  case None
  then have "it_pump it e t c = (r, t', c')"
    using assms(5) by (auto simp: consumer_poll_def split: prod.splits)
  from pump_in_step [where own = decisions, OF assms(1-4) consumer_deliver_tally this] show ?thesis .
next
  case (Some q)
  obtain x q1 c1 t1 where drain: "consumer_drain (it_settle it) arrivals q c t = (x, q1, c1, t1)"
    by (metis prod_cases4)
  note t1 = drain_in_step [OF assms(1,4) drain]
  show ?thesis
  proof (cases x)
    case (Inl y)
    with drain Some t1 assms(3,5) show ?thesis by (auto simp: consumer_poll_def)
  next
    case (Inr u)
    have "it_pump it e t1 (c1\<lparr>con_settlements := Some q1\<rparr>) = (r, t', c')"
      using assms(5) drain Some Inr by (auto simp: consumer_poll_def split: prod.splits)
    from pump_in_step [where own = decisions, OF _ assms(2) _ _ consumer_deliver_tally this] show ?thesis
      using t1 assms(3) by simp
  qed
qed

lemma polls_in_step:
  assumes "sound t" "\<forall>(arrivals, e) \<in> set polls. fair e"
    and "handler t = Some (consumer_deliver caps)"
    and "decisions c = performed (it_stats it t)"
    and "poll_all it polls c t = (c', t')"
  shows "decisions c' = performed (it_stats it t')"
  using assms
proof (induction polls arbitrary: c t)
  case (Cons poll polls)
  obtain arrivals e where poll: "poll = (arrivals, e)" by fastforce
  obtain r c1 t1 where p: "consumer_poll it arrivals e c t = (r, c1, t1)" by (metis prod_cases3)
  have "fair e" using Cons.prems(2) poll by auto
  from poll_in_step [OF Cons.prems(1) this Cons.prems(3,4) p]
  show ?case using Cons.IH [of t1 c1] Cons.prems(2,5) poll p by simp
qed simp

end

section \<open>Properties\<close>

text \<open>
  The decision table of \<open>dispatch\<close>. A body that is not a valid envelope is rejected with its
  diagnostic before any handler runs. A valid one goes to the deferred handler if there is one,
  whose answer is the decision, and otherwise to the plain one, whose return acknowledges. A
  transient failure is requeued on the first delivery and rejected on a redelivery, any other
  standard exception rejects, and only a foreign exception escapes.
\<close>

theorem dispatch_decides:
  "dispatch body handlers redelivered tag u =
    (case deserialize body of
       Inl e \<Rightarrow> (Inr \<lparr>dr_disposition = Reject, dr_error = what e\<rparr>, u)
     | Inr m \<Rightarrow>
         (case (onDeferred handlers, onMessage handlers) of
            (None, None) \<Rightarrow>
              (Inr \<lparr>dr_disposition = Reject, dr_error = msg_no_handler_configured\<rparr>, u)
          | (Some f, _) \<Rightarrow> apfst (\<lambda>r. case r of Inr d \<Rightarrow> Inr \<lparr>dr_disposition = d, dr_error = []\<rparr>
              | Inl (Transient_Failure reason) \<Rightarrow> Inr (classifyTransient reason redelivered)
              | Inl (Foreign_Exception n) \<Rightarrow> Inl (Foreign_Exception n)
              | Inl e \<Rightarrow> Inr \<lparr>dr_disposition = Reject, dr_error = what e\<rparr>) (f m tag u)
          | (None, Some f) \<Rightarrow> apfst (\<lambda>r. case r of Inr _ \<Rightarrow> Inr \<lparr>dr_disposition = Ack, dr_error = []\<rparr>
              | Inl (Transient_Failure reason) \<Rightarrow> Inr (classifyTransient reason redelivered)
              | Inl (Foreign_Exception n) \<Rightarrow> Inl (Foreign_Exception n)
              | Inl e \<Rightarrow> Inr \<lparr>dr_disposition = Reject, dr_error = what e\<rparr>) (f m u)))"
  by (auto simp: dispatch_def decode_eq split: sum.split option.split prod.split exn.split)

text \<open>
  C37: the retry is bounded: with a plain handler, a body that is delivered again is never
  requeued, whatever it is and whatever the handler does.
\<close>

theorem dispatch_bounded_retry:
  "case fst (dispatch body \<lparr>onMessage = f, onDeferred = None\<rparr> True tag u) of
     Inl e \<Rightarrow> \<not> is_std_exception e
   | Inr result \<Rightarrow> dr_disposition result \<in> {Ack, Reject}"
proof -
  have c: "caught e True = Inl x \<Longrightarrow> \<not> is_std_exception x"
    "caught e True = Inr y \<Longrightarrow> dr_disposition y \<in> {Ack, Reject}" for e x y
    by (cases e; auto simp: classifyTransient_def)+
  show ?thesis
    by (auto simp: dispatch_def decode_eq dest: c split: sum.split option.split prod.split)
qed

text \<open>
  A consumer is constructed exactly for a configuration its backend can honour: it has a
  handler, the backend acknowledges by hand, and supports deferral if a deferred handler is
  given.
\<close>

theorem consumer_new_guards:
  "(\<exists>c. consumer_new caps handlers u = Inr c) \<longleftrightarrow>
     \<not> (onMessage handlers = None \<and> onDeferred handlers = None) \<and> manualAcknowledgement caps \<and>
     (onDeferred handlers = None \<or> deferredAcknowledgement caps)"
  by (auto simp: consumer_new_def)

text \<open>
  Settlements reach the transport in the order the workers pushed them: what was queued and
  pushed comes out first in, first out, with nothing lost or duplicated.
\<close>

theorem settlements_in_order:
  "fst (take_items settlement_tryPop (length q + length xs) (put_items settlement_push xs q)) = q @ xs"
  by (rule settlements.in_order_out) simp_all

text \<open>
  A drain that meets no error settles everything that was queued or pushed until it found
  the queue empty, in order, and leaves what arrived later in the queue.
\<close>

theorem consumer_drain_in_order:
  "case consumer_drain (\<lambda>tag d log. (Inr (), log @ [(tag, d)])) arrivals q c log of
     (r, q', c', log') \<Rightarrow> r = Inr () \<and> log' @ q' = log @ q @ concat arrivals"
proof (induction "\<lambda>(tag :: nat) (d :: disposition) log. (Inr () :: unit result, log @ [(tag, d)])"
    arrivals q c log rule: consumer_drain.induct)
  case (1 arrivals q c log)
  show ?case
  proof (cases "q @ pushed arrivals")
    case Nil
    then show ?thesis using pushed_concat [of arrivals]
      by (simp add: consumer_drain_Nil)
  next
    case (Cons s q1)
    obtain handle d where s: "s = (handle, d)" by fastforce
    have "settlement_tryPop (foldl (\<lambda>p s. settlement_push s p) q (pushed arrivals)) = Some ((handle, d), q1)"
      using Cons s by (simp add: settlement_pushes settlement_tryPop_Some)
    note IH = "1.hyps" [OF this refl refl refl refl]
    have "q @ concat arrivals = (q @ pushed arrivals) @ concat (tl arrivals)"
      by (simp add: pushed_concat)
    also have "\<dots> = (handle, d) # q1 @ concat (tl arrivals)" using Cons s by simp
    finally have "q @ concat arrivals = (handle, d) # q1 @ concat (tl arrivals)" .
    with IH show ?thesis
      unfolding consumer_drain_Cons [OF Cons [unfolded s]] by (auto split: prod.splits)
  qed
qed

end
