(* ===== verification/Producer.thy ===== *)
theory Producer
  imports Transport Wire_Envelope
begin

text \<open>
  The producer: \<open>include/motus/Producer.hpp\<close> and the static facade
  \<open>include/motus/MessagePublisher.hpp\<close> it sends through. The message type is a parameter; what
  the templates need of it is its \<open>serialize\<close>, which may throw.
\<close>

section \<open>Definitions\<close>

record producer =
  prod_options :: send_options
  prod_published :: nat

definition msg_not_durable_backend :: "string \<Rightarrow> string" where
  "msg_not_durable_backend backend =
     ''transport backend '' @ quoted backend @
     '' cannot deliver durable messages, but this producer requires them. '' @
     ''Messages would be lost on any middleware restart. Either select a backend '' @
     ''that supports durability, or construct the Producer with SendOptions{false} '' @
     ''to state explicitly that loss is acceptable.''"

definition msg_no_confirms :: "string \<Rightarrow> string" where
  "msg_no_confirms backend =
     ''transport backend '' @ quoted backend @
     '' does not support publisher confirms, but this producer requires them. '' @
     ''A send would report success once the frame left the socket, which is not the '' @
     ''same as the middleware having stored it.''"

definition producer_new :: "capabilities \<Rightarrow> send_options \<Rightarrow> producer result" where
  "producer_new caps options =
     (if so_durable options \<and> \<not> durableDelivery caps
      then Inl (Runtime_Error (msg_not_durable_backend (cap_name caps)))
      else if so_confirm options \<and> \<not> publisherConfirms caps
      then Inl (Runtime_Error (msg_no_confirms (cap_name caps)))
      else Inr \<lparr>prod_options = options, prod_published = 0\<rparr>)"

definition producer_declareTopic ::
  "('e, 't, 'h) itransport \<Rightarrow> topic \<Rightarrow> 'e \<Rightarrow> topic_options \<Rightarrow> bool \<Rightarrow> 't \<Rightarrow> 'h
     \<Rightarrow> u32 result \<times> 't \<times> 'h" where
  "producer_declareTopic it tp timeout options allowAsymmetric t h =
     (case checkTopicOptions (it_capabilities it) options allowAsymmetric of
        Inl e \<Rightarrow> (Inl e, t, h)
      | Inr _ \<Rightarrow>
          (case it_ensureTopic it tp options timeout t h of
             (Inl e, t1, h1) \<Rightarrow> (Inl e, t1, h1)
           | (Inr _, t1, h1) \<Rightarrow>
               if \<not> topicDepthCap (it_capabilities it) then (Inr 0, t1, h1)
               else it_topicDepth it tp timeout t1 h1))"

definition publish_message ::
  "('e, 't, 'h) itransport \<Rightarrow> ('m \<Rightarrow> string result) \<Rightarrow> topic \<Rightarrow> 'm \<Rightarrow> send_options \<Rightarrow> 't
     \<Rightarrow> bool result \<times> 't" where
  "publish_message it serializer tp message options t =
     (case serializer message of
        Inl e \<Rightarrow> (Inl e, t)
      | Inr wire \<Rightarrow> it_send it tp wire options t)"

definition producer_publishWith ::
  "('e, 't, 'h) itransport \<Rightarrow> ('m \<Rightarrow> string result) \<Rightarrow> topic \<Rightarrow> 'm \<Rightarrow> send_options \<Rightarrow> producer
     \<Rightarrow> 't \<Rightarrow> bool result \<times> producer \<times> 't" where
  "producer_publishWith it serializer tp message options p t =
     (case publish_message it serializer tp message options t of
        (Inl e, t1) \<Rightarrow> (Inl e, p, t1)
      | (Inr accepted, t1) \<Rightarrow>
          (Inr accepted, if accepted then p\<lparr>prod_published := prod_published p + 1\<rparr> else p, t1))"

definition producer_publish ::
  "('e, 't, 'h) itransport \<Rightarrow> ('m \<Rightarrow> string result) \<Rightarrow> topic \<Rightarrow> 'm \<Rightarrow> producer \<Rightarrow> 't
     \<Rightarrow> bool result \<times> producer \<times> 't" where
  "producer_publish it serializer tp message p t =
     producer_publishWith it serializer tp message (prod_options p) p t"

definition producer_flush ::
  "('e, 't, 'h) itransport \<Rightarrow> 'e \<Rightarrow> 't \<Rightarrow> 'h \<Rightarrow> unit result \<times> 't \<times> 'h" where
  "producer_flush it duration t h =
     (case it_pump it duration t h of
        (Inl e, t1, h1) \<Rightarrow> (Inl e, t1, h1)
      | (Inr _, t1, h1) \<Rightarrow> (Inr (), t1, h1))"

section \<open>Properties\<close>

text \<open>
  A producer comes into being exactly on a backend that delivers what its options ask of
  every message, and it has published nothing yet.
\<close>

theorem producer_new_guards:
  "producer_new caps options = Inr p \<longleftrightarrow>
     (so_durable options \<le> durableDelivery caps) \<and> (so_confirm options \<le> publisherConfirms caps) \<and>
     p = \<lparr>prod_options = options, prod_published = 0\<rparr>"
  by (auto simp: producer_new_def)

text \<open>
  A publish reaches the transport exactly when the message can be encoded, and is counted
  exactly when the transport accepts it; an encoding error leaves the transport untouched.
\<close>

theorem producer_publish_counts:
  "producer_publish it serializer tp message p t =
    (case serializer message of
       Inl e \<Rightarrow> (Inl e, p, t)
     | Inr wire \<Rightarrow>
         (let (r, t') = it_send it tp wire (prod_options p) t in
          (r, p\<lparr>prod_published := prod_published p + (if r = Inr True then 1 else 0)\<rparr>, t')))"
  by (auto simp: producer_publish_def producer_publishWith_def publish_message_def
      split: sum.split prod.split)

end
