(* ===== verification/In_Memory_Contract.thy ===== *)
theory In_Memory_Contract
  imports Fleet Consumer_Props Producer
begin

text \<open>
  The in-memory backend as an \<open>ITransport\<close>, the proof that it honours the contract of
  acknowledgement, and what producers and consumers get from each other over it.
\<close>

section \<open>The virtual table\<close>

type_synonym others = "(broker \<Rightarrow> broker) list"

definition im_transport :: "(others, 'h in_memory \<times> broker, 'h) itransport" where
  "im_transport =
     \<lparr>it_capabilities = im_capabilities,
      it_connect = (\<lambda>_ _ (t, b) h. (Inr (), (im_connect t, b), h)),
      it_close = (\<lambda>_ (t, b) h. (Inr (), im_close t b, h)),
      it_ready = (\<lambda>(t, b). im_ready t),
      it_ensureTopic = (\<lambda>tp opts _ (t, b) h.
        case im_ensureTopic tp opts t b of (r, b') \<Rightarrow> (r, (t, b'), h)),
      it_topicDepth = (\<lambda>tp _ (t, b) h. (im_topicDepth tp t b, (t, b), h)),
      it_purgeTopic = (\<lambda>tp _ (t, b) h. case im_purgeTopic tp t b of (r, b') \<Rightarrow> (r, (t, b'), h)),
      it_send = (\<lambda>tp body opts (t, b). im_send tp body opts t b),
      it_subscribe = (\<lambda>tp f _ (t, b) h. case im_subscribe tp f t of (r, t') \<Rightarrow> (r, (t', b), h)),
      it_settle = (\<lambda>tag d (t, b). im_settle tag d t b),
      it_setReconnectPolicy = (\<lambda>_ t. t),
      it_pump = (\<lambda>others (t, b) h.
        case im_pump others t h b of (r, t', h', b') \<Rightarrow> (r, (t', b'), h')),
      it_stats = (\<lambda>(t, b). im_stats t)\<rparr>"

lemma im_transport_sel [simp]:
  "it_capabilities im_transport = im_capabilities"
  "it_send im_transport tp body opts (t, b) = im_send tp body opts t b"
  "it_settle im_transport tag d (t, b) = im_settle tag d t b"
  "it_pump im_transport others (t, b) h =
     (case im_pump others t h b of (r, t', h', b') \<Rightarrow> (r, (t', b'), h'))"
  "it_stats im_transport (t, b) = im_stats t"
  by (simp_all add: im_transport_def)

section \<open>The contract of acknowledgement\<close>

text \<open>
  The transport is connected to a well formed broker and its topic is declared, which is what a
  rejection or a return needs to succeed; the rest of the process keeps the broker so.
\<close>

definition im_fair :: "others \<Rightarrow> bool" where
  "im_fair others \<longleftrightarrow>
     (\<forall>f \<in> set others. \<forall>b tp. well_formed b \<and> declared b tp \<longrightarrow>
        well_formed (f b) \<and> declared (f b) tp)"

definition im_sound :: "'h in_memory \<times> broker \<Rightarrow> bool" where
  "im_sound s \<longleftrightarrow> im_connected (fst s) \<and> well_formed (snd s) \<and> declared (snd s) (im_topic (fst s))"

lemma broker_requeue_declared:
  "well_formed b \<Longrightarrow> declared b tp \<Longrightarrow>
     well_formed (broker_requeue tp m b) \<and> declared (broker_requeue tp m b) tp"
  by (simp add: broker_requeue_def well_formed_set_queue del: not_None_eq)

lemma bury_declared:
  "well_formed b \<Longrightarrow> declared b tp \<Longrightarrow> well_formed (bury u m b) \<and> declared (bury u m b) tp"
  using declared_bury [of b u m tp] well_formed_bury [of b u m] by (auto simp: well_formed_def)

lemma perform_contract:
  assumes "im_sound (t, b)" "perform d m t b = (r, t', b')"
  shows "r = Inr () \<and> im_sound (t', b') \<and> im_handler t' = im_handler t \<and>
    performed (im_stats t') = tally (Inr d) (performed (im_stats t))"
proof -
  have b: "well_formed b" "declared b (im_topic t)" using assms(1) by (simp_all add: im_sound_def)
  show ?thesis
    using assms b broker_requeue_declared [OF b, of m] bury_declared [OF b, of "im_topic t" m]
    by (cases d) (auto simp: perform_def im_sound_def performed_def broker_deadLetter_bury)
qed

lemma im_sound_outstanding [simp]: "im_sound (t\<lparr>im_outstanding := q\<rparr>, b) = im_sound (t, b)"
  by (simp add: im_sound_def)

lemma finish_contract:
  assumes "im_sound (t, b)" "im_finish m outcome t b = (ok, t', b')"
  shows "im_sound (t', b') \<and> im_handler t' = im_handler t \<and>
    performed (im_stats t') = tally outcome (performed (im_stats t)) \<and>
    (\<forall>x. outcome = Inl x \<longrightarrow> ok = Inl x)"
proof (cases "\<exists>d. outcome = Inr d \<and> d \<noteq> Deferred")
  case False
  with assms show ?thesis
    by (cases outcome) (auto simp: im_finish_def im_sound_def performed_def)
next
  case True
  then obtain d where d: "outcome = Inr d" "d \<noteq> Deferred" by blast
  let ?t = "t\<lparr>im_outstanding := om_delete (h_sequence m) (im_outstanding t)\<rparr>"
  obtain r t1 b1 where p: "perform d m ?t b = (r, t1, b1)" by (metis prod_cases3)
  have "im_sound (?t, b)" using assms(1) by simp
  from perform_contract [OF this p] assms(2) p d show ?thesis
    by (auto simp: im_finish_def)
qed

lemma fetch_contract:
  assumes "im_sound (t, b)" "im_fetch t b = Some (m, t', b')"
  shows "im_sound (t', b') \<and> im_handler t' = im_handler t \<and>
    performed (im_stats t') = performed (im_stats t)"
proof -
  obtain c where c: "broker_take (im_topic t) b = Some (m, c)" "b' = c"
    using assms(2) by (auto simp: im_fetch_def split: if_splits option.splits)
  have b: "well_formed b" "declared b (im_topic t)" using assms(1) by (simp_all add: im_sound_def)
  obtain q where "b' = set_queue (im_topic t) q b" using broker_take_Some(2) [OF c(1)] c(2) by blast
  with well_formed_set_queue [OF b, of q] assms c show ?thesis
    by (auto simp: im_fetch_def im_sound_def performed_def split: if_splits)
qed

lemma pump_loop_contract:
  assumes "im_sound (t, b)" "im_fair others" "im_handler t = Some f"
    and "im_pump_loop f others t h b = (ok, t', h', b')"
  shows "im_sound (t', b') \<and> im_handler t' = Some f \<and>
    (h' = h \<and> performed (im_stats t') = performed (im_stats t) \<or>
     (\<exists>d outcome. f d h = (outcome, h') \<and>
        performed (im_stats t') = tally outcome (performed (im_stats t)) \<and>
        (\<forall>x. outcome = Inl x \<longrightarrow> ok = Inl x)))"
  using assms
proof (induction others arbitrary: b)
  case (Cons other others)
  have fair: "im_sound (u, other c)" if "im_sound (u, c)" for u :: "'a in_memory" and c
    using that Cons.prems(2) unfolding im_sound_def im_fair_def by (metis fst_conv list.set_intros(1) snd_conv)
  show ?case
  proof (cases "im_fetch t b")
    case None
    with Cons.prems(4) have "im_pump_loop f others t h (other b) = (ok, t', h', b')" by simp
    moreover have "im_fair others" using Cons.prems(2) unfolding im_fair_def by (meson list.set_intros(2))
    ultimately show ?thesis using Cons.IH [OF fair [OF Cons.prems(1)] _ Cons.prems(3)] by blast
  next
    case (Some a)
    obtain m t1 b1 where a: "im_fetch t b = Some (m, t1, b1)" using Some by (metis prod_cases3)
    note t1 = fetch_contract [OF Cons.prems(1) a]
    obtain outcome h1 where f: "f (delivery_of m) h = (outcome, h1)" by fastforce
    obtain ok2 t2 b2 where fin: "im_finish m outcome t1 (other b1) = (ok2, t2, b2)"
      by (metis prod_cases3)
    have "ok = ok2 \<and> t' = t2 \<and> h' = h1 \<and> b' = b2"
      using Cons.prems(4) a f fin by simp
    with finish_contract [OF fair fin] t1 f Cons.prems(3) show ?thesis by metis
  qed
qed auto

text \<open>The in-memory backend honours the contract.\<close>

interpretation im: acknowledging "it_pump im_transport" "it_settle im_transport"
    "\<lambda>s. im_handler (fst s)" "it_stats im_transport" im_fair im_sound
proof
  fix s e f h ok s' h'
  assume s: "im_sound s" "im_fair e" "im_handler (fst s) = Some f"
    "it_pump im_transport e s h = (ok, s', h')"
  obtain t b where tb: "s = (t, b)" by fastforce
  obtain t' b' where tb': "s' = (t', b')" by fastforce
  have "im_pump_loop f e t h b = (ok, t', h', b')"
    using s tb tb' by (auto simp: im_pump_def im_sound_def split: prod.splits)
  from pump_loop_contract [OF _ _ _ this] s
  have c: "im_sound (t', b')" "im_handler t' = Some f"
    "h' = h \<and> performed (im_stats t') = performed (im_stats t) \<or>
     (\<exists>d outcome. f d h = (outcome, h') \<and>
        performed (im_stats t') = tally outcome (performed (im_stats t)))"
    by (auto simp: tb)
  from c(3) have "(serve f)\<^sup>*\<^sup>* (h, performed (im_stats t)) (h', performed (im_stats t'))"
  proof (elim disjE exE conjE)
    fix d outcome
    assume "f d h = (outcome, h')" "performed (im_stats t') = tally outcome (performed (im_stats t))"
    with serve_once show ?thesis by metis
  qed simp
  with c show "im_sound s' \<and> im_handler (fst s') = Some f \<and>
    (serve f)\<^sup>*\<^sup>* (h, performed (it_stats im_transport s)) (h', performed (it_stats im_transport s'))"
    by (simp add: tb tb')
next
  fix s tag d r s'
  assume s: "im_sound s" "it_settle im_transport tag d s = (r, s')"
  obtain t b where tb: "s = (t, b)" by fastforce
  obtain t' b' where tb': "s' = (t', b')" by fastforce
  have settle: "im_settle tag d t b = (r, t', b')" using s by (simp add: tb tb')
  show "im_sound s' \<and> im_handler (fst s') = im_handler (fst s) \<and>
    performed (it_stats im_transport s') =
      (case r of Inl x \<Rightarrow> performed (it_stats im_transport s)
       | Inr _ \<Rightarrow> tally (Inr d) (performed (it_stats im_transport s)))"
  proof (cases "im_connected t \<and> d \<noteq> Deferred \<and> map_of (im_outstanding t) tag \<noteq> None")
    case False
    with settle s show ?thesis by (auto simp: im_settle_def tb tb' split: if_splits)
  next
    case True
    then obtain m where "perform d m (t\<lparr>im_outstanding := om_delete tag (im_outstanding t)\<rparr>) b = (r, t', b')"
      using settle by (auto simp: im_settle_def)
    from perform_contract [OF _ this] s show ?thesis by (simp add: tb tb')
  qed
qed

end
