(* ===== verification/Conveyance.thy ===== *)
theory Conveyance
  imports Consumer_Props Producer
begin

text \<open>
  From a producer to a consumer over any middleware. The interface is what the two of them rely
  on: the sender's transport stores a message behind those that wait, the receiver's transport
  hands out the message in front and takes it off the middleware when it is acknowledged. Over it
  the messages published arrive decoded, once each and in order. The theories In_Memory_Clients
  and Simple_Amqp_Clients interpret the interface.
\<close>

section \<open>Runs\<close>

text \<open>A producer that publishes message after message.\<close>

fun publish_all ::
  "('e, 't, 'h) itransport \<Rightarrow> ('m \<Rightarrow> string result) \<Rightarrow> topic \<Rightarrow> 'm list \<Rightarrow> producer \<Rightarrow> 't
     \<Rightarrow> producer \<times> 't" where
  "publish_all it ser tp [] p t = (p, t)"
| "publish_all it ser tp (m # ms) p t =
     (case producer_publish it ser tp m p t of (r, p1, t1) \<Rightarrow> publish_all it ser tp ms p1 t1)"

abbreviation envelope :: "byte_message \<Rightarrow> string" where
  "envelope m \<equiv> envelopePrefix @ payload m"

definition encodable :: "byte_message \<Rightarrow> bool" where
  "encodable m \<longleftrightarrow> 8 + byteCount m \<le> MAX_PAYLOAD_BYTES"

lemma deserialize_encodable: "encodable m \<Longrightarrow> deserialize (envelope m) = Inr m"
  by (simp add: encodable_def deserialize_envelope)

lemma serialize_encodable: "encodable m \<Longrightarrow> serialize m = Inr (envelope m)"
  by (simp add: encodable_def serialize_def byteCount_def envelopePrefix_eq)

section \<open>A consumer that records what it is given\<close>

definition recorder :: "byte_message list handlers" where
  "recorder = \<lparr>onMessage = Some (\<lambda>m u. (Inr (), u @ [m])), onDeferred = None\<rparr>"

lemma recorder_deliver:
  assumes "con_handlers c = recorder" "deserialize (d_body d) = Inr m"
  shows "consumer_deliver caps d c =
    (Inr Ack, c\<lparr>con_user := con_user c @ [m], con_acked := con_acked c + 1\<rparr>)"
  using assms
  by (simp add: consumer_deliver_def recorder_def dispatch_def decode_eq Let_def)

definition small_consumer :: "'u handlers \<Rightarrow> 'u \<Rightarrow> 'u consumer" where
  "small_consumer hs u =
     \<lparr>con_handlers = hs, con_acked = 0, con_rejected = 0, con_requeued = 0, con_deferred = 0,
      con_settlements = None, con_user = u\<rparr>"

lemma small_consumer_sel [simp]:
  "con_handlers (small_consumer hs u) = hs" "con_acked (small_consumer hs u) = 0"
  "con_rejected (small_consumer hs u) = 0" "con_requeued (small_consumer hs u) = 0"
  "con_settlements (small_consumer hs u) = None" "con_user (small_consumer hs u) = u"
  by (simp_all add: small_consumer_def)

section \<open>The interface\<close>

text \<open>
  \<open>move s t\<close> is the receiver's transport \<open>t\<close> with the middleware as the sender's \<open>s\<close> left it, and
  \<open>waiting\<close> what the receiver would be handed, in order. \<open>idle\<close> is a time bound in which nothing
  else happens.
\<close>

locale conveying =
  fixes out :: "('e, 's, 'g) itransport"
    and inn :: "('d, 't, byte_message list consumer) itransport"
    and idle :: 'd
    and sender :: "topic \<Rightarrow> send_options \<Rightarrow> 's \<Rightarrow> bool"
    and receiver :: "topic \<Rightarrow> byte_message list consumer delivery_handler \<Rightarrow> 't \<Rightarrow> bool"
    and move :: "'s \<Rightarrow> 't \<Rightarrow> 't"
    and waiting :: "topic \<Rightarrow> 't \<Rightarrow> string list"
  assumes send: "sender tp so s \<Longrightarrow> \<exists>s'. it_send out tp body so s = (Inr True, s') \<and> sender tp so s' \<and>
      (\<forall>f t. receiver tp f (move s t) \<longrightarrow>
         receiver tp f (move s' t) \<and> waiting tp (move s' t) = waiting tp (move s t) @ [body])"
    and receive: "receiver tp f t \<Longrightarrow> waiting tp t = body # rest \<Longrightarrow>
      (\<And>d. d_body d = body \<Longrightarrow> f d h = (Inr Ack, h')) \<Longrightarrow>
      \<exists>t'. it_pump inn idle t h = (Inr True, t', h') \<and> receiver tp f t' \<and> waiting tp t' = rest"
begin

lemma publish_one:
  assumes "sender tp (prod_options p) s" "encodable m"
  shows "\<exists>s'. producer_publish out serialize tp m p s =
      (Inr True, p\<lparr>prod_published := prod_published p + 1\<rparr>, s') \<and> sender tp (prod_options p) s' \<and>
    (\<forall>f t. receiver tp f (move s t) \<longrightarrow>
       receiver tp f (move s' t) \<and> waiting tp (move s' t) = waiting tp (move s t) @ [envelope m])"
  using send [OF assms(1), of "envelope m"] assms(2)
  by (auto simp: producer_publish_def producer_publishWith_def publish_message_def serialize_encodable)

lemma publish_conveys:
  assumes "sender tp (prod_options p) s" "list_all encodable ms"
    and "publish_all out serialize tp ms p s = (p', s')" "receiver tp f (move s t)"
  shows "receiver tp f (move s' t) \<and> waiting tp (move s' t) = waiting tp (move s t) @ map envelope ms \<and>
    prod_published p' = prod_published p + length ms"
  using assms
proof (induction ms arbitrary: p s)
  case (Cons m ms)
  obtain s1 where s1: "producer_publish out serialize tp m p s =
      (Inr True, p\<lparr>prod_published := prod_published p + 1\<rparr>, s1)" "sender tp (prod_options p) s1"
    "receiver tp f (move s1 t)" "waiting tp (move s1 t) = waiting tp (move s t) @ [envelope m]"
    using publish_one [OF Cons.prems(1), of m] Cons.prems(2,4) by auto
  from Cons.IH [of "p\<lparr>prod_published := prod_published p + 1\<rparr>" s1] s1 Cons.prems(2,3)
  show ?case by simp
qed simp

lemma poll_conveys:
  assumes "receiver tp (consumer_deliver caps) t" "waiting tp t = map envelope ms" "list_all encodable ms"
    and "con_handlers c = recorder" "con_settlements c = None"
    and "poll_all inn (replicate (length ms) ([], idle)) c t = (c', t')"
  shows "con_user c' = con_user c @ ms \<and> con_acked c' = con_acked c + length ms \<and> waiting tp t' = []"
  using assms
proof (induction ms arbitrary: c t)
  case (Cons m ms)
  let ?c = "c\<lparr>con_user := con_user c @ [m], con_acked := con_acked c + 1\<rparr>"
  have "consumer_deliver caps d c = (Inr Ack, ?c)" if "d_body d = envelope m" for d
    using recorder_deliver [OF Cons.prems(4), of d m caps] that Cons.prems(3) by (simp add: deserialize_encodable)
  from receive [OF Cons.prems(1) _ this] Cons.prems(2) obtain t1 where
    "it_pump inn idle t c = (Inr True, t1, ?c)" "receiver tp (consumer_deliver caps) t1"
    "waiting tp t1 = map envelope ms" by auto
  with Cons.IH [of t1 ?c] Cons.prems(3-6) show ?case by (simp add: consumer_poll_def)
qed simp

lemma end_to_end:
  assumes "sender tp (prod_options p) s" "receiver tp (consumer_deliver caps) (move s t)"
    and "waiting tp (move s t) = []" "list_all encodable ms"
    and "con_handlers c = recorder" "con_settlements c = None"
    and "publish_all out serialize tp ms p s = (p', s')"
    and "poll_all inn (replicate (length ms) ([], idle)) c (move s' t) = (c', t')"
  shows "con_user c' = con_user c @ ms \<and> con_acked c' = con_acked c + length ms \<and>
    prod_published p' = prod_published p + length ms \<and> waiting tp t' = []"
proof -
  have p: "receiver tp (consumer_deliver caps) (move s' t)" "waiting tp (move s' t) = map envelope ms"
    "prod_published p' = prod_published p + length ms"
    using publish_conveys [OF assms(1,4,7,2)] assms(3) by simp_all
  from poll_conveys [OF p(1,2) assms(4-6,8)] p(3) show ?thesis by simp
qed

end

end
