(* ===== verification/In_Memory_Clients.thy ===== *)
theory In_Memory_Clients
  imports In_Memory_Contract Conveyance
begin

text \<open>
  Producers and consumers on the in-memory backend: the counters of a consumer agree with what
  its transport performed, every message published is handled once and in order, and a message
  whose handler keeps failing transiently is tried twice and then preserved as a dead letter.
\<close>

section \<open>Counting\<close>

interpretation im_consumed: consumed im_transport "\<lambda>s. im_handler (fst s)" im_fair im_sound
  by (unfold_locales; rule im.pump_contract im.settle_contract; assumption)

section \<open>One poll\<close>

definition subscriber_of :: "topic \<Rightarrow> 'h delivery_handler \<Rightarrow> 'h in_memory \<Rightarrow> bool" where
  "subscriber_of tp f t \<longleftrightarrow>
     im_connected t \<and> im_handler t = Some f \<and> im_topic t = tp \<and> im_outstanding t = []"

abbreviation alone :: others where
  "alone \<equiv> [\<lambda>b. b]"

text \<open>A poll without settlement queue and without activity of others, by the decision.\<close>

lemma poll_alone:
  assumes "subscriber_of tp (consumer_deliver caps) t" "con_settlements c = None"
    and "queue b tp = m # ms" "consumer_deliver caps (delivery_of m) c = (Inr d, c')"
    and "d \<noteq> Deferred" "well_formed b" "declared b tp"
  shows "\<exists>t'. consumer_poll im_transport arrivals alone c (t, b) =
      (Inr True, c', t',
       (case d of Requeue \<Rightarrow> broker_requeue tp m (set_queue tp ms b)
        | Reject \<Rightarrow> bury tp m (set_queue tp ms b)
        | _ \<Rightarrow> set_queue tp ms b)) \<and>
    subscriber_of tp (consumer_deliver caps) t'"
proof -
  have w: "well_formed (set_queue tp ms b)" by (rule well_formed_set_queue [OF assms(6,7)])
  show ?thesis
    using assms w
    by (cases d)
      (auto simp: consumer_poll_def subscriber_of_def im_pump_def im_fetch_Cons im_finish_def
        perform_def broker_deadLetter_bury)
qed

lemma consumer_deliver_settlements:
  "consumer_deliver caps d c = (r, c') \<Longrightarrow>
     con_settlements c' = con_settlements c \<and> con_handlers c' = con_handlers c"
  by (auto simp: consumer_deliver_def Let_def split: prod.splits sum.splits disposition.splits)

section \<open>Publishing over the broker\<close>

lemma plain_topic_publish_to: "plain_topic tp b \<Longrightarrow> plain_topic tp (publish_to tp body b)"
  by (rule topic_fifo.put_usable)

lemma send_alone:
  assumes "plain_topic tp b" "im_connected t" "\<not> so_durable so"
  shows "\<exists>t'. it_send im_transport tp body so (t, b) = (Inr True, t', publish_to tp body b) \<and> im_connected t'"
  using assms plain_topic_publish [OF assms(1), of body]
  by (simp add: im_send_def publish_to_def)

lemma plain_topic_set_queue: "plain_topic tp b \<Longrightarrow> plain_topic tp (set_queue tp q b)"
  by (simp add: plain_topic_def well_formed_set_queue del: not_None_eq)

definition im_receiver :: "topic \<Rightarrow> 'h delivery_handler \<Rightarrow> 'h in_memory \<times> broker \<Rightarrow> bool" where
  "im_receiver tp f s \<longleftrightarrow> subscriber_of tp f (fst s) \<and> plain_topic tp (snd s)"

definition im_sender :: "topic \<Rightarrow> send_options \<Rightarrow> 'h in_memory \<times> broker \<Rightarrow> bool" where
  "im_sender tp so s \<longleftrightarrow> im_connected (fst s) \<and> \<not> so_durable so \<and> plain_topic tp (snd s)"

lemma pump_alone:
  assumes "im_receiver tp f t" "queue (snd t) tp = m # ms" "f (delivery_of m) h = (Inr Ack, h')"
  shows "\<exists>t'. it_pump im_transport alone t h = (Inr True, t', h') \<and> im_receiver tp f t' \<and>
    queue (snd t') tp = ms"
proof -
  have "plain_topic tp (set_queue tp ms (snd t))"
    using assms(1) by (simp add: im_receiver_def plain_topic_set_queue)
  moreover have "declared (snd t) tp" using assms(1) by (simp add: im_receiver_def plain_topic_def)
  ultimately show ?thesis
    using assms
    by (cases t) (auto simp: im_receiver_def subscriber_of_def im_pump_def im_fetch_Cons im_finish_def perform_def)
qed

interpretation im_conveys: conveying im_transport im_transport alone im_sender im_receiver
    "\<lambda>s t. (fst t, snd s)" "\<lambda>tp t. map h_body (queue (snd t) tp)"
proof
  fix tp so body and s :: "'a in_memory \<times> broker"
  assume s: "im_sender tp so s"
  then obtain t' where t': "it_send im_transport tp body so s = (Inr True, t', publish_to tp body (snd s))"
    "im_connected t'"
    using send_alone [of tp "snd s" "fst s" so body] by (auto simp: im_sender_def)
  have p: "plain_topic tp (snd s)" using s by (simp add: im_sender_def)
  show "\<exists>s'. it_send im_transport tp body so s = (Inr True, s') \<and> im_sender tp so s' \<and>
      (\<forall>f t. im_receiver tp f (fst (t :: byte_message list consumer in_memory \<times> broker), snd s) \<longrightarrow>
         im_receiver tp f (fst t, snd s') \<and>
         map h_body (queue (snd (fst t, snd s')) tp) = map h_body (queue (snd (fst t, snd s)) tp) @ [body])"
    using t' s plain_topic_publish_to [OF p, of body] topic_fifo.put_contents [OF p, of body]
    by (intro exI [of _ "(t', publish_to tp body (snd s))"]) (simp add: im_sender_def im_receiver_def)
next
  fix tp f t body rest h h'
  assume "im_receiver tp f t" "map h_body (queue (snd t) tp) = body # rest"
    and f: "\<And>d. d_body d = body \<Longrightarrow> f d h = (Inr Ack, h')"
  then obtain m ms where "queue (snd t) tp = m # ms" "h_body m = body" "map h_body ms = rest" by auto
  with pump_alone [OF \<open>im_receiver tp f t\<close> this(1) f] 
  show "\<exists>t'. it_pump im_transport alone t h = (Inr True, t', h') \<and> im_receiver tp f t' \<and>
      map h_body (queue (snd t') tp) = rest" by (auto simp: delivery_of_def)
qed

section \<open>A small broker\<close>

lemma small_subscriber_of: "subscriber_of ''t'' f (small_subscriber f)"
  by (simp add: subscriber_of_def)

lemma plain_small_broker: "plain_topic ''t'' (set_queue ''t'' [] (small_broker default_topic_options))"
  by (rule plain_topic_set_queue)
    (simp add: plain_topic_def well_formed_small_broker declared_small_broker
      state_of_small_broker default_topic_options_def del: not_None_eq)

section \<open>Properties\<close>

text \<open>
  C10: what a consumer decided is what its transport performed. Over any sequence of polls,
  with any handlers, settlements and activity of other threads, failures included, the
  consumer's counters of acknowledged, rejected and requeued messages equal the transport's.
\<close>

theorem im_consumer_counts_performed:
  assumes "im_sound s" "\<forall>(arrivals, e) \<in> set polls. im_fair e"
    and "im_handler (fst s) = Some (consumer_deliver caps)"
    and "decisions c = performed (it_stats im_transport s)"
    and "poll_all im_transport polls c s = (c', s')"
  shows "con_acked c' = acksPerformed (it_stats im_transport s') \<and>
    con_rejected c' = rejectsPerformed (it_stats im_transport s') \<and>
    con_requeued c' = requeuesPerformed (it_stats im_transport s')"
  using im_consumed.polls_in_step [OF assms] by (simp add: decisions_def performed_def)

lemma im_consumer_counts_performed_witness:
  "\<exists>c' s'. poll_all im_transport [([], alone)] (small_consumer recorder [])
       (small_subscriber (consumer_deliver im_capabilities), small_broker small_options) = (c', s') \<and>
     con_rejected c' = rejectsPerformed (it_stats im_transport s')"
proof -
  let ?s = "(small_subscriber (consumer_deliver im_capabilities), small_broker small_options)
    :: byte_message list consumer in_memory \<times> broker"
  obtain c' s' where r: "poll_all im_transport [([], alone)] (small_consumer recorder []) ?s = (c', s')"
    by (metis prod.collapse)
  have "im_sound ?s"
    by (simp add: im_sound_def well_formed_small_broker declared_small_broker del: not_None_eq)
  moreover have "decisions (small_consumer recorder []) = performed (it_stats im_transport ?s)"
    by (simp add: decisions_def performed_def no_stats_def)
  ultimately show ?thesis
    using im_consumer_counts_performed [OF _ _ _ _ r] r by (auto simp: im_fair_def)
qed

text \<open>
  End to end over the in-memory backend: the messages a producer publishes to an empty topic
  reach the consumer's handler decoded, each exactly once and in the order of publication, are
  all acknowledged, and leave the topic empty.
\<close>

theorem im_end_to_end:
  assumes "plain_topic tp b" "queue b tp = []" "list_all encodable ms"
    and "im_connected s" "\<not> so_durable (prod_options p)"
    and "subscriber_of tp (consumer_deliver caps) t"
    and "con_handlers c = recorder" "con_settlements c = None"
    and "publish_all im_transport serialize tp ms p (s, b) = (p', s', b')"
    and "poll_all im_transport (replicate (length ms) ([], alone)) c (t, b') = (c', t', b'')"
  shows "con_user c' = con_user c @ ms \<and> con_acked c' = con_acked c + length ms \<and>
    prod_published p' = prod_published p + length ms \<and> queue b'' tp = []"
proof -
  have "im_sender tp (prod_options p) (s, b)" "im_receiver tp (consumer_deliver caps) (t, b)"
    using assms(1,4-6) by (simp_all add: im_sender_def im_receiver_def)
  from im_conveys.end_to_end [of tp p "(s, b)" caps "(t, b)", OF _ _ _ assms(3,7,8,9)] this assms(2,10)
  show ?thesis by simp
qed

lemma im_end_to_end_witness:
  "\<exists>p' s' b' c' t' b''.
     publish_all im_transport serialize ''t'' [\<lparr>payload = ''hi''\<rparr>]
       \<lparr>prod_options = default_send_options\<lparr>so_durable := False\<rparr>, prod_published = 0\<rparr>
       (im_connect im_new :: byte_message list consumer in_memory, set_queue ''t'' [] (small_broker default_topic_options)) = (p', s', b') \<and>
     poll_all im_transport (replicate (length [\<lparr>payload = ''hi''\<rparr>]) ([], alone)) (small_consumer recorder [])
       (small_subscriber (consumer_deliver im_capabilities), b') = (c', t', b'') \<and>
     con_user c' = [\<lparr>payload = ''hi''\<rparr>]"
proof -
  let ?p = "\<lparr>prod_options = default_send_options\<lparr>so_durable := False\<rparr>, prod_published = 0\<rparr>"
  let ?b = "set_queue ''t'' [] (small_broker default_topic_options)"
  let ?s = "im_connect im_new :: byte_message list consumer in_memory"
  let ?ms = "[\<lparr>payload = ''hi''\<rparr>]"
  obtain p' s' b' where p: "publish_all im_transport serialize ''t'' ?ms ?p (?s, ?b) = (p', s', b')"
    by (metis prod_cases3)
  obtain c' t' b'' where c: "poll_all im_transport (replicate (length ?ms) ([], alone))
      (small_consumer recorder []) (small_subscriber (consumer_deliver im_capabilities), b') = (c', t', b'')"
    by (metis prod_cases3)
  have "list_all encodable ?ms" by (simp add: encodable_def byteCount_def MAX_PAYLOAD_BYTES_def)
  from im_end_to_end [OF plain_small_broker _ this _ _ small_subscriber_of _ _ p c]
  have "con_user c' = ?ms" by (simp add: im_connect_def)
  with p c show ?thesis by blast
qed

text \<open>
  C20: a message whose handler keeps failing transiently is tried exactly twice: the first poll
  returns it to the front of its topic, flagged, the second one rejects it into the forensic
  destination, and the messages behind it are untouched.
\<close>

theorem im_transient_tried_twice:
  assumes "subscriber_of tp (consumer_deliver im_capabilities) t" "con_settlements c = None"
    and "con_handlers c = \<lparr>onMessage = Some (\<lambda>m u. (Inl (Transient_Failure why), f u)), onDeferred = None\<rparr>"
    and "well_formed b" "declared b tp"
    and "queue b tp = held # rest" "\<not> h_redelivered held" "deserialize (h_body held) = Inr m"
    and "poll_all im_transport [([], alone), ([], alone)] c (t, b) = (c', t', b')"
  shows "con_user c' = f (f (con_user c)) \<and> con_requeued c' = con_requeued c + 1 \<and>
    con_rejected c' = con_rejected c + 1 \<and>
    b' = bury tp (held\<lparr>h_redelivered := True\<rparr>) (set_queue tp rest b) \<and> queue b' tp = rest"
proof -
  let ?c1 = "c\<lparr>con_user := f (con_user c), con_requeued := con_requeued c + 1\<rparr>"
  let ?h = "held\<lparr>h_redelivered := True\<rparr>"
  let ?b1 = "broker_requeue tp held (set_queue tp rest b)"
  have d: "consumer_deliver im_capabilities (delivery_of held) c = (Inr Requeue, ?c1)"
    using assms(3,7,8)
    by (simp add: consumer_deliver_def dispatch_def decode_eq delivery_of_def Let_def
        classifyTransient_def im_capabilities_def)
  from poll_alone [OF assms(1,2,6) d _ assms(4,5)] obtain t1 where
    p1: "consumer_poll im_transport [] alone c (t, b) = (Inr True, ?c1, t1, ?b1)"
    "subscriber_of tp (consumer_deliver im_capabilities) t1" by fastforce
  have b1: "?b1 = set_queue tp (?h # rest) b"
    using assms(4) by (simp add: broker_requeue_def set_queue_twice well_formed_def)
  have w1: "well_formed ?b1" "declared ?b1 tp" "queue ?b1 tp = ?h # rest"
    unfolding b1 by (simp_all add: well_formed_set_queue [OF assms(4,5)])
  have d2: "consumer_deliver im_capabilities (delivery_of ?h) ?c1 =
      (Inr Reject, ?c1\<lparr>con_user := f (con_user ?c1), con_rejected := con_rejected c + 1\<rparr>)"
    using assms(3,8)
    by (simp add: consumer_deliver_def dispatch_def decode_eq delivery_of_def Let_def
        classifyTransient_def im_capabilities_def)
  from poll_alone [OF p1(2) _ w1(3) d2 _ w1(1,2)] assms(2) obtain t2 where
    "consumer_poll im_transport [] alone ?c1 (t1, ?b1) =
       (Inr True, ?c1\<lparr>con_user := f (con_user ?c1), con_rejected := con_rejected c + 1\<rparr>, t2,
        bury tp ?h (set_queue tp rest ?b1))" by fastforce
  moreover have "set_queue tp rest ?b1 = set_queue tp rest b"
    using assms(4) unfolding b1 by (simp add: set_queue_twice well_formed_def)
  ultimately show ?thesis using p1(1) assms(9) by auto
qed

lemma im_transient_tried_twice_witness:
  "\<exists>c' t' b'. poll_all im_transport [([], alone), ([], alone)]
      (small_consumer \<lparr>onMessage = Some (\<lambda>m u. (Inl (Transient_Failure []), u + 1)), onDeferred = None\<rparr> (0 :: nat))
      (small_subscriber (consumer_deliver im_capabilities),
       set_queue ''t'' [small_message\<lparr>h_body := envelope \<lparr>payload = ''hi''\<rparr>\<rparr>] (small_broker small_options)) =
      (c', t', b') \<and>
    con_user c' = 2 \<and> con_requeued c' = 1 \<and> con_rejected c' = 1 \<and> queue b' ''t'' = []"
proof -
  let ?m = "small_message\<lparr>h_body := envelope \<lparr>payload = ''hi''\<rparr>\<rparr>"
  let ?b = "set_queue ''t'' [?m] (small_broker small_options)"
  let ?c = "small_consumer \<lparr>onMessage = Some (\<lambda>m u. (Inl (Transient_Failure []), u + 1)), onDeferred = None\<rparr> (0 :: nat)"
  obtain c' t' b' where r: "poll_all im_transport [([], alone), ([], alone)] ?c
      (small_subscriber (consumer_deliver im_capabilities), ?b) = (c', t', b')"
    by (metis prod_cases3)
  have "deserialize (h_body ?m) = Inr \<lparr>payload = ''hi''\<rparr>"
    using deserialize_encodable [of "\<lparr>payload = ''hi''\<rparr>"]
    by (simp add: encodable_def byteCount_def MAX_PAYLOAD_BYTES_def)
  from im_transient_tried_twice [OF small_subscriber_of _ _ well_formed_small_taken _ _ _ this r,
      of "[]" "\<lambda>u. u + 1" "[]"] r
  show ?thesis by (simp add: numeral_2_eq_2)
qed

text \<open>
  C29: the policy table end to end: what becomes of a message that waits first in its topic when a
  consumer with a plain handler polls the in-memory backend once. A body that is not an envelope
  is dead-lettered and the handler does not run. Otherwise the handler runs once: if it returns,
  the message is gone; if it fails transiently, the message is back in front and flagged the first
  time, and dead-lettered if it was flagged; any other standard exception dead-letters it. An
  exception that is no \<open>std::exception\<close> escapes from \<open>poll\<close>, decides nothing, and leaves the message
  outstanding. The messages behind it stay as they are, and exactly one decision is counted.
\<close>

theorem im_message_fate:
  assumes "subscriber_of tp (consumer_deliver im_capabilities) t" "con_settlements c = None"
    and "con_handlers c = \<lparr>onMessage = Some f, onDeferred = None\<rparr>"
    and "well_formed b" "declared b tp" "queue b tp = m # rest"
    and "consumer_poll im_transport [] alone c (t, b) = (r, c', t', b')"
  shows "case deserialize (h_body m) of
      Inl e \<Rightarrow> r = Inr True \<and> con_user c' = con_user c \<and> con_rejected c' = con_rejected c + 1 \<and>
        con_acked c' = con_acked c \<and> con_requeued c' = con_requeued c \<and> b' = bury tp m (set_queue tp rest b)
    | Inr message \<Rightarrow>
        con_user c' = snd (f message (con_user c)) \<and>
        (case fst (f message (con_user c)) of
           Inr _ \<Rightarrow> r = Inr True \<and> con_acked c' = con_acked c + 1 \<and>
             con_rejected c' = con_rejected c \<and> con_requeued c' = con_requeued c \<and> b' = set_queue tp rest b
         | Inl e \<Rightarrow>
             if \<not> is_std_exception e
             then r = Inl e \<and> decisions c' = decisions c \<and> im_outstanding t' = [(h_sequence m, m)] \<and>
               abandoned (im_stats t') = abandoned (im_stats t) + 1 \<and> b' = set_queue tp rest b
             else if (\<exists>reason. e = Transient_Failure reason) \<and> \<not> h_redelivered m
             then r = Inr True \<and> con_requeued c' = con_requeued c + 1 \<and>
               con_acked c' = con_acked c \<and> con_rejected c' = con_rejected c \<and>
               b' = set_queue tp (m\<lparr>h_redelivered := True\<rparr> # rest) b
             else r = Inr True \<and> con_rejected c' = con_rejected c + 1 \<and>
               con_acked c' = con_acked c \<and> con_requeued c' = con_requeued c \<and>
               b' = bury tp m (set_queue tp rest b))"
proof -
  have after: "r = Inr True \<and> c' = c1 \<and>
      b' = (case d of Requeue \<Rightarrow> broker_requeue tp m (set_queue tp rest b)
        | Reject \<Rightarrow> bury tp m (set_queue tp rest b) | _ \<Rightarrow> set_queue tp rest b)"
    if "consumer_deliver im_capabilities (delivery_of m) c = (Inr d, c1)" "d \<noteq> Deferred" for d c1
    using poll_alone [OF assms(1,2,6) that assms(4,5), of "[]"] assms(7) by auto
  have front: "broker_requeue tp m (set_queue tp rest b) = set_queue tp (m\<lparr>h_redelivered := True\<rparr> # rest) b"
    using assms(4) by (simp add: broker_requeue_def set_queue_twice well_formed_def)
  note deliver = consumer_deliver_def dispatch_def decode_eq delivery_of_def Let_def im_capabilities_def
    classifyTransient_def assms(3)
  show ?thesis
  proof (cases "deserialize (h_body m)")
    case (Inl e)
    then have "consumer_deliver im_capabilities (delivery_of m) c =
        (Inr Reject, c\<lparr>con_rejected := con_rejected c + 1\<rparr>)" by (simp add: deliver)
    with after Inl show ?thesis by fastforce
  next
    case (Inr message)
    obtain outcome u where o: "f message (con_user c) = (outcome, u)" by fastforce
    show ?thesis
    proof (cases outcome)
      case (Inr x)
      with o \<open>deserialize (h_body m) = Inr message\<close>
      have "consumer_deliver im_capabilities (delivery_of m) c =
        (Inr Ack, c\<lparr>con_user := u, con_acked := con_acked c + 1\<rparr>)" by (simp add: deliver)
      with after Inr o \<open>deserialize (h_body m) = Inr message\<close> show ?thesis by fastforce
    next
      case (Inl e)
      show ?thesis
      proof (cases "is_std_exception e")
        case False
        with o Inl Inr have "consumer_deliver im_capabilities (delivery_of m) c = (Inl e, c\<lparr>con_user := u\<rparr>)"
          by (cases e) (simp_all add: deliver)
        then have "r = Inl e \<and> c' = c\<lparr>con_user := u\<rparr> \<and> im_outstanding t' = [(h_sequence m, m)] \<and>
            abandoned (im_stats t') = abandoned (im_stats t) + 1 \<and> b' = set_queue tp rest b"
          using assms(1,2,6,7)
          by (auto simp: consumer_poll_def subscriber_of_def im_pump_def im_fetch_Cons im_finish_def count_def)
        with o Inl Inr False show ?thesis by (simp add: decisions_def)
      next
        case True
        let ?retry = "(\<exists>reason. e = Transient_Failure reason) \<and> \<not> h_redelivered m"
        from True o Inl Inr have "consumer_deliver im_capabilities (delivery_of m) c =
            (if ?retry then (Inr Requeue, c\<lparr>con_user := u, con_requeued := con_requeued c + 1\<rparr>)
             else (Inr Reject, c\<lparr>con_user := u, con_rejected := con_rejected c + 1\<rparr>))"
          by (cases e) (auto simp: deliver)
        with after [of "if ?retry then Requeue else Reject"] o Inl Inr True front show ?thesis
          by (fastforce split: if_splits)
      qed
    qed
  qed
qed

lemma im_message_fate_witness:
  "\<exists>c' t' b'. consumer_poll im_transport [] alone
      (small_consumer \<lparr>onMessage = Some (\<lambda>m u. (Inl (Foreign_Exception 7), u + 1)), onDeferred = None\<rparr> (0 :: nat))
      (small_subscriber (consumer_deliver im_capabilities),
       set_queue ''t'' [small_message\<lparr>h_body := envelope \<lparr>payload = ''hi''\<rparr>\<rparr>] (small_broker small_options)) =
      (Inl (Foreign_Exception 7), c', t', b') \<and>
    con_user c' = 1 \<and> con_rejected c' = 0 \<and> length (im_outstanding t') = 1"
proof -
  let ?m = "small_message\<lparr>h_body := envelope \<lparr>payload = ''hi''\<rparr>\<rparr>"
  let ?b = "set_queue ''t'' [?m] (small_broker small_options)"
  let ?c = "small_consumer \<lparr>onMessage = Some (\<lambda>m u. (Inl (Foreign_Exception 7), u + 1)), onDeferred = None\<rparr> (0 :: nat)"
  obtain r c' t' b' where r: "consumer_poll im_transport [] alone ?c
      (small_subscriber (consumer_deliver im_capabilities), ?b) = (r, c', t', b')"
    by (metis prod_cases4)
  have d: "deserialize (h_body ?m) = Inr \<lparr>payload = ''hi''\<rparr>"
    using deserialize_encodable [of "\<lparr>payload = ''hi''\<rparr>"]
    by (simp add: encodable_def byteCount_def MAX_PAYLOAD_BYTES_def)
  have c: "con_settlements ?c = None" "con_handlers ?c =
      \<lparr>onMessage = Some (\<lambda>m u. (Inl (Foreign_Exception 7), u + 1)), onDeferred = None\<rparr>" by simp_all
  have b: "declared ?b ''t''" "queue ?b ''t'' = [?m]" by simp_all
  from im_message_fate [OF small_subscriber_of c well_formed_small_taken b r, unfolded d] r
  show ?thesis by (simp add: decisions_def small_consumer_def)
qed

end
