(* ===== verification/In_Memory_Deferral.thy ===== *)
theory In_Memory_Deferral
  imports In_Memory_Clients
begin

text \<open>
  Deferred work on the in-memory backend, from the delivery to the worker's settlement: a consumer
  with a settlement queue defers a message, polls while the worker is busy, and performs the
  settlement in the first poll after it was pushed. Meanwhile its topic is held.
\<close>

section \<open>Lemmas\<close>

lemma drain_nothing:
  "concat arrivals = [] \<Longrightarrow> consumer_drain settle arrivals [] c t = (Inr (), [], c, t)"
  by (cases arrivals)
    (auto simp: consumer_drain.simps pushed_def settlement_tryPop_def)

lemma settlements_same: "con_settlements c = Some q \<Longrightarrow> c\<lparr>con_settlements := Some q\<rparr> = c"
  by simp

lemma drain_one:
  "settle tag d t = (Inr (), t') \<Longrightarrow>
     consumer_drain settle [[(tag, d)]] [] c t = (Inr (), [], count_settled d c, t')"
  using drain_nothing [of "[]" settle "count_settled d c" t']
  by (simp add: consumer_drain.simps [of settle "[[(tag, d)]]"] pushed_def settlement_tryPop_def settlement_push_def)

text \<open>The transport while the deferred delivery \<open>m\<close> is out.\<close>

definition holding :: "topic \<Rightarrow> 'h delivery_handler \<Rightarrow> held \<Rightarrow> 'h in_memory \<Rightarrow> bool" where
  "holding tp f m t \<longleftrightarrow> im_connected t \<and> im_handler t = Some f \<and> im_topic t = tp \<and>
     im_outstanding t = [(h_sequence m, m)]"

lemma loop_holding:
  "im_outstanding t \<noteq> [] \<Longrightarrow> im_pump_loop f others t h b = (Inr True, t, h, fold (\<lambda>other. other) others b)"
  by (induction others arbitrary: b) (simp_all add: im_fetch_def)

lemma pump_holding:
  "holding tp f m t \<Longrightarrow>
     it_pump im_transport others (t, b) h = (Inr True, (t, fold (\<lambda>other. other) others b), h)"
  by (simp add: holding_def im_pump_def loop_holding)

lemma poll_holding:
  assumes "holding tp f m t" "con_settlements c = Some []" "concat arrivals = []"
  shows "consumer_poll im_transport arrivals others c (t, b) =
    (Inr True, c, t, fold (\<lambda>other. other) others b)"
  by (simp add: consumer_poll_def assms(2) drain_nothing [OF assms(3)] pump_holding [OF assms(1)]
      settlements_same [OF assms(2)] del: im_transport_sel)

lemma polls_holding:
  "holding tp f m t \<Longrightarrow> con_settlements c = Some [] \<Longrightarrow> list_all (\<lambda>(arrivals, _). concat arrivals = []) polls \<Longrightarrow>
     poll_all im_transport polls c (t, b) = (c, t, fold (\<lambda>other. other) (concat (map snd polls)) b)"
proof (induction polls arbitrary: b)
  case (Cons poll polls)
  obtain arrivals others where p: "poll = (arrivals, others)" by fastforce
  with Cons.prems have "consumer_poll im_transport arrivals others c (t, b) =
      (Inr True, c, t, fold (\<lambda>other. other) others b)"
    by (intro poll_holding) simp_all
  with p Cons show ?case by simp
qed simp

lemma poll_defers:
  assumes "subscriber_of tp (consumer_deliver caps) t" "con_settlements c = Some []"
    and "queue b tp = m # rest" "consumer_deliver caps (delivery_of m) c = (Inr Deferred, c1)"
  shows "\<exists>t1. consumer_poll im_transport [] alone c (t, b) = (Inr True, c1, t1, set_queue tp rest b) \<and>
    holding tp (consumer_deliver caps) m t1 \<and> im_stats t1 = (im_stats t)\<lparr>received := received (im_stats t) + 1,
      bytesReceived := bytesReceived (im_stats t) + length (h_body m)\<rparr>"
  using assms
  by (auto simp: consumer_poll_def drain_nothing subscriber_of_def holding_def im_pump_def im_fetch_Cons
      im_finish_def count_def settlements_same)

text \<open>
  What a settlement does to the broker, and when it can: a rejection needs the forensic destination,
  which \<open>ensureTopic\<close> provisions.
\<close>

definition settled_broker :: "topic \<Rightarrow> held \<Rightarrow> disposition \<Rightarrow> broker \<Rightarrow> broker" where
  "settled_broker tp m d b =
     (case d of Requeue \<Rightarrow> broker_requeue tp m b | Reject \<Rightarrow> bury tp m b | _ \<Rightarrow> b)"

definition can_settle :: "disposition \<Rightarrow> broker \<Rightarrow> bool" where
  "can_settle d b \<longleftrightarrow>
     d \<noteq> Deferred \<and> (d = Reject \<longrightarrow> well_formed b)"

lemma settle_holding:
  assumes "holding tp f m t" "can_settle d b"
  shows "\<exists>t1. im_settle (h_sequence m) d t b = (Inr (), t1, settled_broker tp m d b) \<and>
    subscriber_of tp f t1 \<and> performed (im_stats t1) = tally (Inr d) (performed (im_stats t))"
  using assms
  by (cases d) (auto simp: can_settle_def settled_broker_def im_settle_def holding_def perform_def count_def
      subscriber_of_def performed_def broker_deadLetter_bury)

lemma poll_settles:
  assumes "holding tp f m t" "con_settlements c = Some []" "can_settle d b"
  shows "\<exists>t1. consumer_poll im_transport [[(h_sequence m, d)]] [] c (t, b) =
      (Inr True, count_settled d c, t1, settled_broker tp m d b) \<and>
    subscriber_of tp f t1 \<and> performed (im_stats t1) = tally (Inr d) (performed (im_stats t))"
proof -
  obtain t1 where t1: "im_settle (h_sequence m) d t b = (Inr (), t1, settled_broker tp m d b)"
    "subscriber_of tp f t1" "performed (im_stats t1) = tally (Inr d) (performed (im_stats t))"
    using settle_holding [OF assms(1,3)] by blast
  have c: "con_settlements (count_settled d c) = Some []"
    using assms(2) by (simp add: count_settled_def split: disposition.split)
  have "it_settle im_transport (h_sequence m) d (t, b) = (Inr (), t1, settled_broker tp m d b)"
    using t1(1) by simp
  from drain_one [where settle = "it_settle im_transport" and c = c, OF this] t1(2,3) show ?thesis
    by (auto simp: consumer_poll_def assms(2) settlements_same [OF c] im_pump_def subscriber_of_def)
qed

section \<open>Properties\<close>

text \<open>
  C7: a deferred delivery holds its topic until its worker has settled it. The poll that delivers
  it returns at once with nothing performed; however often the consumer polls before the
  settlement is pushed, and whatever the other threads do to the broker, no handler is called
  and nothing is performed; the first poll after the push performs exactly what the worker
  decided, once, counts it, puts a message that is to be tried again back, dead-letters one that is
  rejected, and opens the topic for the next delivery. A rejection needs a well-formed broker at
  that time, one where every topic that asks for it has its forensic destination; elsewhere it may
  throw.
\<close>

theorem im_deferral_holds_topic:
  assumes "subscriber_of tp (consumer_deliver caps) t" "con_settlements c = Some []"
    and "queue b tp = m # rest" "deserialize (h_body m) = Inr message"
    and "onDeferred (con_handlers c) = Some g" "g message (h_sequence m) (con_user c) = (Inr Deferred, u)"
    and "list_all (\<lambda>(arrivals, _). concat arrivals = []) polls"
    and "b1 = fold (\<lambda>other. other) (concat (map snd polls)) (set_queue tp rest b)"
    and "d \<noteq> Deferred" "d = Reject \<longrightarrow> well_formed b1"
  shows "\<exists>t1 t2. let c1 = c\<lparr>con_user := u, con_deferred := con_deferred c + 1\<rparr> in
    consumer_poll im_transport [] alone c (t, b) = (Inr True, c1, t1, set_queue tp rest b) \<and>
    performed (im_stats t1) = performed (im_stats t) \<and>
    poll_all im_transport polls c1 (t1, set_queue tp rest b) = (c1, t1, b1) \<and>
    consumer_poll im_transport [[(h_sequence m, d)]] [] c1 (t1, b1) =
      (Inr True, count_settled d c1, t2,
       case d of Requeue \<Rightarrow> broker_requeue tp m b1 | Reject \<Rightarrow> bury tp m b1 | _ \<Rightarrow> b1) \<and>
    performed (im_stats t2) = tally (Inr d) (performed (im_stats t)) \<and>
    subscriber_of tp (consumer_deliver caps) t2"
proof -
  let ?c1 = "c\<lparr>con_user := u, con_deferred := con_deferred c + 1\<rparr>"
  have c1: "con_settlements ?c1 = Some []" using assms(2) by simp
  have "consumer_deliver caps (delivery_of m) c = (Inr Deferred, ?c1)"
    using assms(4-6) by (simp add: consumer_deliver_def dispatch_def decode_eq delivery_of_def Let_def)
  from poll_defers [OF assms(1-3) this] obtain t1 where
    t1: "consumer_poll im_transport [] alone c (t, b) = (Inr True, ?c1, t1, set_queue tp rest b)"
    "holding tp (consumer_deliver caps) m t1" "performed (im_stats t1) = performed (im_stats t)"
    by (auto simp: performed_def)
  have "can_settle d b1" using assms(9,10) by (simp add: can_settle_def)
  from poll_settles [OF t1(2) c1 this] obtain t2 where
    "consumer_poll im_transport [[(h_sequence m, d)]] [] ?c1 (t1, b1) =
       (Inr True, count_settled d ?c1, t2, settled_broker tp m d b1)"
    "subscriber_of tp (consumer_deliver caps) t2"
    "performed (im_stats t2) = tally (Inr d) (performed (im_stats t1))" by blast
  with t1 polls_holding [OF t1(2) c1 assms(7)] assms(8) show ?thesis
    unfolding Let_def settled_broker_def by (intro exI [of _ t1] exI [of _ t2]) simp
qed

text \<open>One message, deferred, a poll in vain, then the worker's rejection.\<close>

definition deferring :: "unit consumer" where
  "deferring = (small_consumer \<lparr>onMessage = None, onDeferred = Some (\<lambda>m tag u. (Inr Deferred, u))\<rparr> ())
     \<lparr>con_settlements := Some []\<rparr>"

definition waiting_broker :: broker where
  "waiting_broker =
     set_queue ''t'' [small_message\<lparr>h_body := envelope \<lparr>payload = ''hi''\<rparr>\<rparr>] (small_broker small_options)"

lemma im_deferral_holds_topic_witness:
  "\<exists>t1 b1 t2 b2 c1 c2.
     consumer_poll im_transport [] alone deferring
       (small_subscriber (consumer_deliver im_capabilities), waiting_broker) = (Inr True, c1, t1, b1) \<and>
     poll_all im_transport [([], alone)] c1 (t1, b1) = (c1, t1, b1) \<and>
     consumer_poll im_transport [[(1, Reject)]] [] c1 (t1, b1) = (Inr True, c2, t2, b2) \<and>
     con_deferred c2 = 1 \<and> con_rejected c2 = 1"
proof -
  let ?m = "small_message\<lparr>h_body := envelope \<lparr>payload = ''hi''\<rparr>\<rparr>"
  let ?b1 = "set_queue ''t'' [] waiting_broker"
  let ?c1 = "deferring\<lparr>con_user := (), con_deferred := con_deferred deferring + 1\<rparr>"
  have d: "deserialize (h_body ?m) = Inr \<lparr>payload = ''hi''\<rparr>"
    using deserialize_encodable [of "\<lparr>payload = ''hi''\<rparr>"]
    by (simp add: encodable_def byteCount_def MAX_PAYLOAD_BYTES_def)
  have q: "queue waiting_broker ''t'' = [?m]"
    using well_formed_small_taken by (simp add: waiting_broker_def)
  have w: "well_formed ?b1"
    unfolding waiting_broker_def
    by (rule well_formed_set_queue [OF well_formed_small_taken])
      (simp add: declared_small_broker del: not_None_eq)
  have b1: "?b1 = fold (\<lambda>other. other) (concat (map snd [([] :: (nat \<times> disposition) list list, alone)])) (set_queue ''t'' [] waiting_broker)"
    by simp
  have g: "con_settlements deferring = Some []"
    "onDeferred (con_handlers deferring) = Some (\<lambda>m tag u. (Inr Deferred, u))" by (simp_all add: deferring_def)
  have n: "h_sequence ?m = 1" by simp
  have "list_all (\<lambda>(arrivals, _). concat arrivals = []) [([], alone)]" by simp
  moreover have "Reject \<noteq> Deferred" "Reject = Reject \<longrightarrow> well_formed ?b1" using w by simp_all
  ultimately obtain t1 t2 where r: "consumer_poll im_transport [] alone deferring
       (small_subscriber (consumer_deliver im_capabilities), waiting_broker) = (Inr True, ?c1, t1, ?b1)"
    "poll_all im_transport [([], alone)] ?c1 (t1, ?b1) = (?c1, t1, ?b1)"
    "consumer_poll im_transport [[(h_sequence ?m, Reject)]] [] ?c1 (t1, ?b1) =
       (Inr True, count_settled Reject ?c1, t2, bury ''t'' ?m ?b1)"
    using im_deferral_holds_topic [OF small_subscriber_of g(1) q d g(2) refl _ b1, of Reject im_capabilities]
    unfolding Let_def by auto
  have "con_deferred (count_settled Reject ?c1) = 1" "con_rejected (count_settled Reject ?c1) = 1"
    by (simp_all add: count_settled_def deferring_def small_consumer_def)
  with r [unfolded n] show ?thesis by blast
qed

end
