(* ===== verification/Competing_Consumers.thy ===== *)
theory Competing_Consumers
  imports In_Memory_Clients
begin

text \<open>
  Any number of consumers compete for one topic of the in-memory backend, each over a transport
  of its own, and are polled in any order. What is published is shared out among them without
  loss or repetition, and whatever their handlers do short of deferring, the topic is drained
  within two polls for each message.
\<close>

section \<open>Schedules\<close>

type_synonym 'u member = "'u consumer \<times> 'u consumer in_memory"

text \<open>The members by number, and the broker of the process; a schedule says who polls next.\<close>

definition poll_member ::
  "nat \<Rightarrow> (nat \<Rightarrow> 'u member) \<times> broker \<Rightarrow> (nat \<Rightarrow> 'u member) \<times> broker" where
  "poll_member i s =
     (case s of (ms, b) \<Rightarrow>
        (case consumer_poll im_transport [] alone (fst (ms i)) (snd (ms i), b) of
           (r, c, t, b1) \<Rightarrow> (ms(i := (c, t)), b1)))"

fun poll_schedule ::
  "nat list \<Rightarrow> (nat \<Rightarrow> 'u member) \<times> broker \<Rightarrow> (nat \<Rightarrow> 'u member) \<times> broker" where
  "poll_schedule [] s = s"
| "poll_schedule (i # sched) s = poll_schedule sched (poll_member i s)"

lemma poll_idle:
  assumes "subscriber_of tp f t" "con_settlements c = None" "queue b tp = []"
  shows "consumer_poll im_transport arrivals alone c (t, b) = (Inr True, c, t, b)"
  using assms
  by (auto simp: consumer_poll_def subscriber_of_def im_pump_def im_fetch_def broker_take_def state_of_def
      split: option.splits list.splits)

lemma well_formed_requeued:
  assumes "well_formed b" "declared b tp" "queue b tp = m # ms"
  shows "broker_requeue tp m (set_queue tp ms b) = set_queue tp (m\<lparr>h_redelivered := True\<rparr> # ms) b"
  using assms(1) by (simp add: broker_requeue_def set_queue_twice well_formed_def)

section \<open>Sharing\<close>

text \<open>A member that records what it is given, and what falls to a member of a schedule.\<close>

definition competitor :: "capabilities \<Rightarrow> topic \<Rightarrow> byte_message list member \<Rightarrow> bool" where
  "competitor caps tp m \<longleftrightarrow> subscriber_of tp (consumer_deliver caps) (snd m) \<and>
     con_handlers (fst m) = recorder \<and> con_settlements (fst m) = None"

definition portion :: "nat \<Rightarrow> 'a list \<Rightarrow> nat list \<Rightarrow> 'a list" where
  "portion i xs sched = map fst (filter (\<lambda>(x, j). j = i) (zip xs sched))"

lemma portion_simps [simp]:
  "portion i [] sched = []" "portion i xs [] = []"
  "portion i (x # xs) (j # sched) = (if j = i then x # portion i xs sched else portion i xs sched)"
  by (simp_all add: portion_def)

definition took :: "'u list consumer \<Rightarrow> 'u list \<Rightarrow> 'u list consumer \<Rightarrow> bool" where
  "took c xs c' \<longleftrightarrow> con_user c' = con_user c @ xs \<and> con_acked c' = con_acked c + length xs"

lemma member_idle:
  assumes "competitor caps tp (ms i)" "queue b tp = []"
  shows "poll_member i (ms, b) = (ms, b)"
  using assms poll_idle [of tp "consumer_deliver caps" "snd (ms i)" "fst (ms i)" b]
  by (simp add: poll_member_def competitor_def)

lemma member_takes:
  assumes "competitor caps tp (ms i)" "plain_topic tp b"
    and "map h_body (queue b tp) = envelope m # rest" "encodable m"
  shows "\<exists>x b'. poll_member i (ms, b) = (ms(i := x), b') \<and> competitor caps tp x \<and>
    took (fst (ms i)) [m] (fst x) \<and> plain_topic tp b' \<and> map h_body (queue b' tp) = rest"
proof -
  let ?c = "fst (ms i)" and ?t = "snd (ms i)"
  let ?c' = "?c\<lparr>con_user := con_user ?c @ [m], con_acked := con_acked ?c + 1\<rparr>"
  from assms(3) obtain held hs where q: "queue b tp = held # hs" "h_body held = envelope m" "map h_body hs = rest"
    by auto
  have "consumer_deliver caps (delivery_of held) ?c = (Inr Ack, ?c')"
    using assms(1,4) q(2)
    by (intro recorder_deliver) (simp_all add: competitor_def delivery_of_def deserialize_encodable)
  moreover have "im_receiver tp (consumer_deliver caps) (?t, b)"
    using assms(1,2) by (simp add: im_receiver_def competitor_def)
  ultimately have "\<exists>t'. it_pump im_transport alone (?t, b) ?c = (Inr True, t', ?c') \<and>
      im_receiver tp (consumer_deliver caps) t' \<and> queue (snd t') tp = hs"
    by (intro pump_alone) (simp_all add: q(1))
  then obtain t' where "it_pump im_transport alone (?t, b) ?c = (Inr True, t', ?c')"
    "im_receiver tp (consumer_deliver caps) t'" "queue (snd t') tp = hs" by blast
  with assms(1) q(3) show ?thesis
    by (intro exI [of _ "(?c', fst t')"] exI [of _ "snd t'"])
      (cases t', auto simp: poll_member_def consumer_poll_def competitor_def im_receiver_def took_def)
qed

lemma schedule_shares:
  assumes "\<forall>i \<in> set sched. competitor caps tp (members i)" "plain_topic tp b"
    and "map h_body (queue b tp) = map envelope ms" "list_all encodable ms"
    and "poll_schedule sched (members, b) = (members', b')"
  shows "(\<forall>i. took (fst (members i)) (portion i ms sched) (fst (members' i))) \<and>
    map h_body (queue b' tp) = map envelope (drop (length sched) ms)"
  using assms
proof (induction sched arbitrary: members b ms)
  case (Cons j sched)
  show ?case
  proof (cases ms)
    case Nil
    with Cons.prems member_idle [of caps tp members j b] Cons.IH [of members b "[]"] show ?thesis
      by simp
  next
    case (Cons m rest)
    have "competitor caps tp (members j)" "map h_body (queue b tp) = envelope m # map envelope rest"
      "encodable m" using Cons.prems(1,3,4) Cons by simp_all
    from member_takes [of caps tp members j, OF this(1) Cons.prems(2) this(2,3)] obtain x b1 where
      x: "poll_member j (members, b) = (members(j := x), b1)" "competitor caps tp x"
      "took (fst (members j)) [m] (fst x)" "plain_topic tp b1"
      "map h_body (queue b1 tp) = map envelope rest" by blast
    have "\<forall>i \<in> set sched. competitor caps tp ((members(j := x)) i)" using x(2) Cons.prems(1) by simp
    from Cons.IH [OF this x(4,5)] Cons.prems(4,5) Cons x(1,3) show ?thesis
      by (fastforce simp: took_def)
  qed
qed (simp add: took_def)

section \<open>Draining\<close>

text \<open>A plain handler that throws standard exceptions only, and what it settles.\<close>

definition plain_consumer :: "'u consumer \<Rightarrow> bool" where
  "plain_consumer c \<longleftrightarrow> con_settlements c = None \<and> onDeferred (con_handlers c) = None \<and>
     (\<forall>f m u e. onMessage (con_handlers c) = Some f \<and> fst (f m u) = Inl e \<longrightarrow> is_std_exception e)"

definition resolved :: "'u consumer \<Rightarrow> nat" where
  "resolved c = con_acked c + con_rejected c"

text \<open>How many polls the messages of a topic may still take.\<close>

definition credit :: "held list \<Rightarrow> nat" where
  "credit q = (\<Sum>m\<leftarrow>q. if h_redelivered m then 1 else 2)"

lemma credit_simps [simp]:
  "credit [] = 0" "credit (m # q) = (if h_redelivered m then 1 else 2) + credit q"
  by (simp_all add: credit_def)

lemma credit_positive: "0 < credit (m # q)"
  by simp

lemma credit_bound: "credit q \<le> 2 * length q"
  by (induction q) auto

lemma plain_dispatch:
  assumes "plain_consumer c"
  shows "\<exists>y u. dispatch body (con_handlers c) redelivered tag (con_user c) = (Inr y, u) \<and>
    dr_disposition y \<noteq> Deferred \<and> (dr_disposition y = Requeue \<longrightarrow> \<not> redelivered)"
proof (cases "deserialize body")
  case (Inr m)
  show ?thesis
  proof (cases "onMessage (con_handlers c)")
    case (Some f)
    obtain r u where f: "f m (con_user c) = (r, u)" by fastforce
    show ?thesis
    proof (cases r)
      case (Inl e)
      then have "is_std_exception e" using assms Some f by (auto simp: plain_consumer_def) (metis fst_conv)
      with assms Inr Some f Inl show ?thesis
        by (auto simp: dispatch_def decode_eq plain_consumer_def caught_std classifyTransient_def split: exn.split)
    qed (use assms Inr Some f in \<open>simp add: dispatch_def decode_eq plain_consumer_def\<close>)
  qed (use assms Inr in \<open>simp add: dispatch_def decode_eq plain_consumer_def\<close>)
qed (simp add: dispatch_def decode_eq)

lemma plain_deliver:
  assumes "plain_consumer c"
  shows "\<exists>d c'. consumer_deliver caps delivery c = (Inr d, c') \<and> d \<noteq> Deferred \<and>
    (d = Requeue \<longrightarrow> \<not> d_redelivered delivery) \<and> plain_consumer c' \<and>
    resolved c' = resolved c + (if d = Requeue then 0 else 1)"
proof -
  obtain y u where "dispatch (d_body delivery) (con_handlers c) (d_redelivered delivery) (d_tag delivery)
      (con_user c) = (Inr y, u)" "dr_disposition y \<noteq> Deferred"
    "dr_disposition y = Requeue \<longrightarrow> \<not> d_redelivered delivery"
    using plain_dispatch [OF assms] by blast
  with assms show ?thesis
    by (cases "dr_disposition y") (auto simp: consumer_deliver_def Let_def plain_consumer_def resolved_def)
qed

text \<open>A member at work, and one poll of it.\<close>

definition at_work :: "capabilities \<Rightarrow> topic \<Rightarrow> 'u member \<Rightarrow> bool" where
  "at_work caps tp m \<longleftrightarrow> subscriber_of tp (consumer_deliver caps) (snd m) \<and> plain_consumer (fst m)"

lemma member_idle_work:
  assumes "at_work caps tp (ms i)" "queue b tp = []"
  shows "poll_member i (ms, b) = (ms, b)"
  using assms poll_idle [of tp "consumer_deliver caps" "snd (ms i)" "fst (ms i)" b]
  by (simp add: poll_member_def at_work_def plain_consumer_def)

lemma member_progress:
  assumes "at_work caps tp (ms i)" "well_formed b" "declared b tp" "queue b tp = m # q"
  shows "\<exists>x b'. poll_member i (ms, b) = (ms(i := x), b') \<and> at_work caps tp x \<and> well_formed b' \<and>
    declared b' tp \<and> credit (queue b' tp) < credit (queue b tp) \<and>
    resolved (fst x) + length (queue b' tp) = resolved (fst (ms i)) + length (queue b tp)"
proof -
  have c: "plain_consumer (fst (ms i))" "con_settlements (fst (ms i)) = None"
    and t: "subscriber_of tp (consumer_deliver caps) (snd (ms i))"
    using assms(1) by (auto simp: at_work_def plain_consumer_def)
  obtain d c' where d: "consumer_deliver caps (delivery_of m) (fst (ms i)) = (Inr d, c')" "d \<noteq> Deferred"
    "d = Requeue \<longrightarrow> \<not> h_redelivered m" "plain_consumer c'"
    "resolved c' = resolved (fst (ms i)) + (if d = Requeue then 0 else 1)"
    using plain_deliver [OF c(1), of caps "delivery_of m"] by (auto simp: delivery_of_def)
  let ?b = "case d of Requeue \<Rightarrow> broker_requeue tp m (set_queue tp q b)
    | Reject \<Rightarrow> bury tp m (set_queue tp q b) | _ \<Rightarrow> set_queue tp q b"
  obtain t' where t': "consumer_poll im_transport [] alone (fst (ms i)) (snd (ms i), b) = (Inr True, c', t', ?b)"
    "subscriber_of tp (consumer_deliver caps) t'"
    using poll_alone [OF t c(2) assms(4) d(1,2) assms(2,3)] by blast
  have w: "well_formed (set_queue tp x b)" "declared (set_queue tp x b) tp" for x
    by (simp_all add: well_formed_set_queue [OF assms(2,3)])
  have "well_formed ?b \<and> declared ?b tp \<and> credit (queue ?b tp) < credit (queue b tp) \<and>
      resolved c' + length (queue ?b tp) = resolved (fst (ms i)) + length (queue b tp)"
    using w assms(4) d(2,3,5) well_formed_requeued [OF assms(2-4)] well_formed_bury [OF w(1)]
      declared_bury [of "set_queue tp q b" tp m tp]
    by (cases d) (auto simp: well_formed_def simp del: not_None_eq)
  with t' d(4) show ?thesis
    by (intro exI [of _ "(c', t')"] exI [of _ ?b]) (simp add: poll_member_def at_work_def)
qed

lemma schedule_drains:
  assumes "\<forall>i \<in> set sched. at_work caps tp (members i)" "well_formed b" "declared b tp"
    and "poll_schedule sched (members, b) = (members', b')" "finite I" "set sched \<subseteq> I"
  shows "credit (queue b' tp) \<le> credit (queue b tp) - length sched \<and>
    (\<Sum>i\<in>I. resolved (fst (members' i))) + length (queue b' tp) =
      (\<Sum>i\<in>I. resolved (fst (members i))) + length (queue b tp)"
  using assms
proof (induction sched arbitrary: members b)
  case (Cons j sched)
  show ?case
  proof (cases "queue b tp")
    case Nil
    with Cons.prems member_idle_work [of caps tp members j b] Cons.IH [of members b] show ?thesis by simp
  next
    case (Cons m q)
    have "at_work caps tp (members j)" using Cons.prems(1) by simp
    from member_progress [of caps tp members j, OF this Cons.prems(2,3) Cons] obtain x b1 where
      x: "poll_member j (members, b) = (members(j := x), b1)" "at_work caps tp x" "well_formed b1" "declared b1 tp"
      "credit (queue b1 tp) < credit (queue b tp)"
      "resolved (fst x) + length (queue b1 tp) = resolved (fst (members j)) + length (queue b tp)" by blast
    have "\<forall>i \<in> set sched. at_work caps tp ((members(j := x)) i)" using x(2) Cons.prems(1) by simp
    moreover have "poll_schedule sched (members(j := x), b1) = (members', b')" "set sched \<subseteq> I"
      using Cons.prems(4,6) x(1) by simp_all
    ultimately have i: "credit (queue b' tp) \<le> credit (queue b1 tp) - length sched \<and>
        (\<Sum>i\<in>I. resolved (fst (members' i))) + length (queue b' tp) =
          (\<Sum>i\<in>I. resolved (fst ((members(j := x)) i))) + length (queue b1 tp)"
      using Cons.IH [OF _ x(3,4) _ Cons.prems(5)] by blast
    have "j \<in> I" using Cons.prems(6) by simp
    then have "(\<Sum>i\<in>I. resolved (fst ((members(j := x)) i))) + resolved (fst (members j)) =
        (\<Sum>i\<in>I. resolved (fst (members i))) + resolved (fst x)"
      using Cons.prems(5) by (simp add: sum.remove)
    with i x(5,6) Cons.prems(6) show ?thesis
      by (elim conjE, intro conjI) (simp_all only: list.size, linarith+)
  qed
qed simp

section \<open>Properties\<close>

text \<open>
  C1: competing consumers share the work. The messages a producer publishes to an empty topic are
  handed out along the schedule: the n-th poll gives the n-th message, decoded, to the member that
  polls, so that each message goes to exactly one member, every member sees its portion in the
  order of publication and acknowledges it, what the schedule does not reach stays in order, and
  the producer counts every message.
\<close>

theorem competitors_share_messages:
  assumes "plain_topic tp b" "queue b tp = []" "list_all encodable ms"
    and "im_connected s" "\<not> so_durable (prod_options p)"
    and "\<forall>i \<in> set sched. competitor caps tp (members i)"
    and "publish_all im_transport serialize tp ms p (s, b) = (p', s', b')"
    and "poll_schedule sched (members, b') = (members', b'')"
  shows "(\<forall>i. con_user (fst (members' i)) = con_user (fst (members i)) @ portion i ms sched \<and>
      con_acked (fst (members' i)) = con_acked (fst (members i)) + length (portion i ms sched)) \<and>
    map h_body (queue b'' tp) = map envelope (drop (length sched) ms) \<and>
    prod_published p' = prod_published p + length ms"
proof -
  let ?f = "consumer_deliver caps :: byte_message list consumer delivery_handler"
  let ?t = "(im_new\<lparr>im_connected := True, im_topic := tp, im_handler := Some ?f\<rparr>, b)"
  have "im_sender tp (prod_options p) (s, b)" "im_receiver tp ?f (fst ?t, snd (s, b))"
    using assms(1,4,5) by (simp_all add: im_sender_def im_receiver_def subscriber_of_def im_new_def)
  from im_conveys.publish_conveys [OF this(1) assms(3,7) this(2)] assms(2)
  have "plain_topic tp b'" "map h_body (queue b' tp) = map envelope ms"
    and p: "prod_published p' = prod_published p + length ms"
    by (simp_all add: im_receiver_def)
  from schedule_shares [OF assms(6) this(1,2) assms(3,8)] p show ?thesis by (simp add: took_def)
qed

definition small_members :: "nat \<Rightarrow> byte_message list member" where
  "small_members i = (small_consumer recorder [], small_subscriber (consumer_deliver im_capabilities))"

lemma competitors_share_messages_witness:
  "\<exists>p' s' b' members' b''.
     publish_all im_transport serialize ''t'' [\<lparr>payload = ''a''\<rparr>, \<lparr>payload = ''b''\<rparr>, \<lparr>payload = ''c''\<rparr>]
       \<lparr>prod_options = default_send_options\<lparr>so_durable := False\<rparr>, prod_published = 0\<rparr>
       (im_connect im_new :: byte_message list consumer in_memory, set_queue ''t'' [] (small_broker default_topic_options)) = (p', s', b') \<and>
     poll_schedule [1, 0, 1, 1] (small_members, b') = (members', b'') \<and>
     con_user (fst (members' 0)) = [\<lparr>payload = ''b''\<rparr>] \<and>
     con_user (fst (members' 1)) = [\<lparr>payload = ''a''\<rparr>, \<lparr>payload = ''c''\<rparr>]"
proof -
  let ?p = "\<lparr>prod_options = default_send_options\<lparr>so_durable := False\<rparr>, prod_published = 0\<rparr>"
  let ?b = "set_queue ''t'' [] (small_broker default_topic_options)"
  let ?s = "im_connect im_new :: byte_message list consumer in_memory"
  let ?ms = "[\<lparr>payload = ''a''\<rparr>, \<lparr>payload = ''b''\<rparr>, \<lparr>payload = ''c''\<rparr>]"
  obtain p' s' b' where p: "publish_all im_transport serialize ''t'' ?ms ?p (?s, ?b) = (p', s', b')"
    by (metis prod_cases3)
  obtain members' b'' where c: "poll_schedule [1, 0, 1, 1] (small_members, b') = (members', b'')"
    by fastforce
  have e: "list_all encodable ?ms" by (simp add: encodable_def byteCount_def MAX_PAYLOAD_BYTES_def)
  have m: "\<forall>i \<in> set [1, 0, 1, 1 :: nat]. competitor im_capabilities ''t'' (small_members i)"
    by (simp add: competitor_def small_members_def small_subscriber_of)
  from competitors_share_messages [OF plain_small_broker _ e _ _ m p c]
  have "con_user (fst (members' i)) = portion i ?ms [1, 0, 1, 1]" for i
    by (simp add: im_connect_def small_members_def)
  with p c show ?thesis by auto
qed

text \<open>
  C6: competing consumers drain their topic. Whatever plain handlers the members have, failing
  transiently, throwing any standard exception or returning, undecodable bodies included: after two
  polls for each message, by any members in any order, the topic is empty and each of its messages
  was acknowledged or rejected exactly once.
\<close>

theorem competitors_drain_topic:
  assumes "well_formed b" "declared b tp" "\<forall>i \<in> set sched. at_work caps tp (members i)"
    and "poll_schedule sched (members, b) = (members', b')"
    and "2 * length (queue b tp) \<le> length sched"
  shows "queue b' tp = [] \<and>
    (\<Sum>i\<in>set sched. con_acked (fst (members' i)) + con_rejected (fst (members' i))) =
      (\<Sum>i\<in>set sched. con_acked (fst (members i)) + con_rejected (fst (members i))) + length (queue b tp)"
proof -
  have d: "credit (queue b' tp) \<le> credit (queue b tp) - length sched \<and>
      (\<Sum>i\<in>set sched. resolved (fst (members' i))) + length (queue b' tp) =
        (\<Sum>i\<in>set sched. resolved (fst (members i))) + length (queue b tp)"
    by (rule schedule_drains [OF assms(3,1,2,4)]) simp_all
  have "credit (queue b' tp) = 0" using d credit_bound [of "queue b tp"] assms(5) by simp
  then have "queue b' tp = []" by (cases "queue b' tp") (simp_all split: if_splits)
  with d show ?thesis by (simp add: resolved_def)
qed

text \<open>The first of two members never succeeds.\<close>

definition failing_member :: "nat \<Rightarrow> nat member" where
  "failing_member i =
     (small_consumer \<lparr>onMessage = Some (\<lambda>m n. (if i = 0 then Inl (Transient_Failure []) else Inr (), n + 1)),
        onDeferred = None\<rparr> 0, small_subscriber (consumer_deliver im_capabilities))"

lemma competitors_drain_topic_witness:
  "let b = set_queue ''t'' [small_message, small_message\<lparr>h_body := envelope \<lparr>payload = ''hi''\<rparr>\<rparr>] (small_broker small_options);
       s = poll_schedule [0, 1, 1, 0] (failing_member, b) in
     queue (snd s) ''t'' = [] \<and>
     (\<Sum>i\<in>{0, 1}. con_acked (fst (fst s i)) + con_rejected (fst (fst s i))) = 2"
proof -
  let ?b = "set_queue ''t'' [small_message, small_message\<lparr>h_body := envelope \<lparr>payload = ''hi''\<rparr>\<rparr>] (small_broker small_options)"
  obtain members' b' where r: "poll_schedule [0, 1, 1, 0] (failing_member, ?b) = (members', b')" by fastforce
  have "\<forall>i \<in> set [0, 1, 1, 0]. at_work im_capabilities ''t'' (failing_member i)"
    by (auto simp: at_work_def failing_member_def plain_consumer_def small_subscriber_of)
  from competitors_drain_topic [OF well_formed_small_taken _ this r]
  have "queue b' ''t'' = [] \<and>
      (\<Sum>i\<in>{0, 1}. con_acked (fst (members' i)) + con_rejected (fst (members' i))) = 2"
    by (simp add: insert_commute failing_member_def)
  then show ?thesis unfolding Let_def r fst_conv snd_conv .
qed

end
