(* ===== verification/Factory.thy ===== *)
theory Factory
  imports Motus_Prelude
begin

text \<open>
  The choice of a backend: \<open>src/transport/Factory.cpp\<close>. Which backends a build contains is
  decided by the generated configuration header, here the record \<open>build\<close>.
\<close>

section \<open>Definitions\<close>

datatype backend = AmqpCpp | InMemory | SimpleAmqp

record build =
  with_amqpcpp :: bool
  with_inmemory :: bool
  with_simpleamqp :: bool

definition cmakeOptionFor :: "backend \<Rightarrow> string" where
  "cmakeOptionFor b =
     (case b of
        AmqpCpp \<Rightarrow> ''MOTUS_WITH_AMQPCPP''
      | InMemory \<Rightarrow> ''MOTUS_WITH_INMEMORY''
      | SimpleAmqp \<Rightarrow> ''MOTUS_WITH_SIMPLEAMQP'')"

definition backendName :: "backend \<Rightarrow> string" where
  "backendName b =
     (case b of AmqpCpp \<Rightarrow> ''amqpcpp'' | InMemory \<Rightarrow> ''inmemory'' | SimpleAmqp \<Rightarrow> ''simpleamqp'')"

definition defaultBackend :: backend where
  "defaultBackend = AmqpCpp"

definition isAvailable :: "build \<Rightarrow> backend \<Rightarrow> bool" where
  "isAvailable cfg b =
     (case b of
        AmqpCpp \<Rightarrow> with_amqpcpp cfg
      | InMemory \<Rightarrow> with_inmemory cfg
      | SimpleAmqp \<Rightarrow> with_simpleamqp cfg)"

definition candidates :: "backend list" where
  "candidates = [AmqpCpp, InMemory, SimpleAmqp]"

definition availableBackends :: "build \<Rightarrow> backend list" where
  "availableBackends cfg = filter (isAvailable cfg) candidates"

text \<open>The loop of \<open>parseBackend\<close>; \<open>None\<close> leaves \<open>out\<close> as it was.\<close>

fun parse_among :: "backend list \<Rightarrow> string \<Rightarrow> backend option" where
  "parse_among [] s = None"
| "parse_among (c # cs) s = (if s = backendName c then Some c else parse_among cs s)"

definition parseBackend :: "string \<Rightarrow> backend option" where
  "parseBackend s = parse_among candidates s"

fun join_names :: "string \<Rightarrow> backend list \<Rightarrow> string" where
  "join_names acc [] = acc"
| "join_names acc (b # bs) =
     join_names ((if acc \<noteq> [] then acc @ '', '' else acc) @ backendName b) bs"

definition availableBackendList :: "build \<Rightarrow> string" where
  "availableBackendList cfg =
     (let s = join_names [] (availableBackends cfg) in if s = [] then ''(none)'' else s)"

definition msg_not_in_build :: "build \<Rightarrow> backend \<Rightarrow> string" where
  "msg_not_in_build cfg b =
     ''transport backend '' @ quoted (backendName b) @
     '' is not in this build -- reconfigure with -D'' @ cmakeOptionFor b @
     ''=ON (available here: '' @ availableBackendList cfg @ '')''"

text \<open>The class that \<open>makeTransport\<close> constructs.\<close>

datatype transport_class = AmqpCppTransport | InMemoryTransport | SimpleAmqpTransport

definition makeTransport :: "build \<Rightarrow> backend \<Rightarrow> transport_class result" where
  "makeTransport cfg b =
     (case b of
        AmqpCpp \<Rightarrow> if with_amqpcpp cfg then Inr AmqpCppTransport
                   else Inl (Runtime_Error (msg_not_in_build cfg b))
      | InMemory \<Rightarrow> if with_inmemory cfg then Inr InMemoryTransport
                    else Inl (Runtime_Error (msg_not_in_build cfg b))
      | SimpleAmqp \<Rightarrow> if with_simpleamqp cfg then Inr SimpleAmqpTransport
                      else Inl (Runtime_Error (msg_not_in_build cfg b)))"

section \<open>Lemmas\<close>

lemma backendName_inj: "backendName a = backendName b \<longleftrightarrow> a = b"
  by (cases a; cases b) (simp_all add: backendName_def)

lemma parse_among_Some:
  "distinct cs \<Longrightarrow> parse_among cs s = Some b \<longleftrightarrow> b \<in> set cs \<and> s = backendName b"
  by (induction cs) (auto simp: backendName_inj)

lemma candidates_all: "distinct candidates" "b \<in> set candidates"
  by (simp_all add: candidates_def) (cases b; simp)

section \<open>Properties\<close>

text \<open>
  A name is parsed as a backend exactly when it is that backend's name, whether or not the
  build contains it; and a transport is made for exactly the backends listed as available, of
  the class that belongs to the backend, while any other is refused naming its CMake option.
\<close>

theorem makeTransport_parsed:
  "(parseBackend s = Some b \<longleftrightarrow> s = backendName b) \<and>
   makeTransport cfg b =
     (if b \<in> set (availableBackends cfg)
      then Inr (case b of AmqpCpp \<Rightarrow> AmqpCppTransport | InMemory \<Rightarrow> InMemoryTransport
                | SimpleAmqp \<Rightarrow> SimpleAmqpTransport)
      else Inl (Runtime_Error (msg_not_in_build cfg b)))"
proof -
  have "parseBackend s = Some b \<longleftrightarrow> s = backendName b"
    using candidates_all by (simp add: parseBackend_def parse_among_Some)
  moreover have "b \<in> set (availableBackends cfg) \<longleftrightarrow> isAvailable cfg b"
    using candidates_all by (simp add: availableBackends_def)
  ultimately show ?thesis by (cases b) (simp_all add: makeTransport_def isAvailable_def)
qed

end
