(* ===== verification/Logger.thy ===== *)
theory Logger
  imports Motus_Prelude
begin

text \<open>
  The text of the log: \<open>src/Logger.cpp\<close> without its asynchronous sink, which theory Log_Sink
  models. Levels and their names, time stamps, lines, and the hex dump.
\<close>

section \<open>Levels\<close>

datatype log_level = Trace | Debug | Info | Warn | Error | Off

fun level_number :: "log_level \<Rightarrow> nat" where
  "level_number Trace = 0"
| "level_number Debug = 1"
| "level_number Info = 2"
| "level_number Warn = 3"
| "level_number Error = 4"
| "level_number Off = 5"

instantiation log_level :: linorder
begin

definition less_eq_log_level :: "log_level \<Rightarrow> log_level \<Rightarrow> bool" where
  "less_eq_log_level a b \<longleftrightarrow> level_number a \<le> level_number b"

definition less_log_level :: "log_level \<Rightarrow> log_level \<Rightarrow> bool" where
  "less_log_level a b \<longleftrightarrow> level_number a < level_number b"

instance
proof
  fix a b :: log_level
  show "a \<le> b \<Longrightarrow> b \<le> a \<Longrightarrow> a = b"
    by (cases a; cases b) (simp_all add: less_eq_log_level_def)
qed (auto simp: less_eq_log_level_def less_log_level_def)

end

definition enabled :: "log_level \<Rightarrow> log_level \<Rightarrow> bool" where
  "enabled threshold level =
     (if threshold = Off then False else level_number level \<ge> level_number threshold)"

fun levelName :: "log_level \<Rightarrow> string" where
  "levelName Trace = ''TRACE''"
| "levelName Debug = ''DEBUG''"
| "levelName Info = ''INFO ''"
| "levelName Warn = ''WARN ''"
| "levelName Error = ''ERROR''"
| "levelName Off = ''OFF  ''"

text \<open>\<open>std::tolower\<close> in the C locale.\<close>

definition to_lower :: "char \<Rightarrow> char" where
  "to_lower c = (if CHR ''A'' \<le> c \<and> c \<le> CHR ''Z'' then char_of (of_char c + (32 :: nat)) else c)"

definition parseLevel :: "string \<Rightarrow> log_level option" where
  "parseLevel s =
     (let lowered = map to_lower s in
      if lowered = ''trace'' then Some Trace
      else if lowered = ''debug'' then Some Debug
      else if lowered = ''info'' then Some Info
      else if lowered = ''warn'' \<or> lowered = ''warning'' then Some Warn
      else if lowered = ''error'' then Some Error
      else if lowered = ''off'' \<or> lowered = ''none'' then Some Off
      else None)"

text \<open>The environment variable, if set, and the level before give the result and the level after.\<close>

definition initFromEnvironment :: "string option \<Rightarrow> log_level \<Rightarrow> bool \<times> log_level" where
  "initFromEnvironment value level =
     (case value of
        None \<Rightarrow> (True, level)
      | Some s \<Rightarrow> (case parseLevel s of None \<Rightarrow> (False, level) | Some l \<Rightarrow> (True, l)))"

section \<open>The hex dump\<close>

definition hex_digit :: "nat \<Rightarrow> char" where
  "hex_digit d = (if d < 10 then char_of (48 + d) else char_of (87 + d))"

fun to_hex :: "nat \<Rightarrow> string" where
  "to_hex n = (if n < 16 then [hex_digit n] else to_hex (n div 16) @ [hex_digit (n mod 16)])"

declare to_hex.simps [simp del]

text \<open>\<open>std::setw\<close> with fill character \<open>0\<close>.\<close>

definition zero_pad :: "nat \<Rightarrow> string \<Rightarrow> string" where
  "zero_pad w s = replicate (w - length s) (CHR ''0'') @ s"

text \<open>
  A time stamp of the broken-down local time (\<open>std::tm\<close> counts years from 1900 and months from 0)
  and the milliseconds, and a line of the log.
\<close>

record broken_time =
  tm_year :: nat
  tm_mon :: nat
  tm_mday :: nat
  tm_hour :: nat
  tm_min :: nat
  tm_sec :: nat

definition timestamp :: "broken_time \<Rightarrow> nat \<Rightarrow> string" where
  "timestamp tm ms =
     to_string (tm_year tm + 1900) @ ''-'' @ zero_pad 2 (to_string (tm_mon tm + 1)) @ ''-'' @
     zero_pad 2 (to_string (tm_mday tm)) @ '' '' @ zero_pad 2 (to_string (tm_hour tm)) @ '':'' @
     zero_pad 2 (to_string (tm_min tm)) @ '':'' @ zero_pad 2 (to_string (tm_sec tm)) @ ''.'' @
     zero_pad 3 (to_string ms)"

definition log_line :: "string \<Rightarrow> log_level \<Rightarrow> string \<Rightarrow> string" where
  "log_line stamp level message = stamp @ '' ['' @ levelName level @ ''] '' @ message"

definition is_print :: "char \<Rightarrow> bool" where
  "is_print c \<longleftrightarrow> 32 \<le> (of_char c :: nat) \<and> (of_char c :: nat) \<le> 126"

text \<open>One line of at most 16 bytes, of which the dump shows those below \<open>lineEnd\<close>.\<close>

definition hex_line :: "string \<Rightarrow> nat \<Rightarrow> nat \<Rightarrow> string" where
  "hex_line data offset lineEnd =
     CHR 0x0A # ''  '' @ zero_pad 4 (to_hex offset) @ ''  '' @
     concat (map (\<lambda>i. if i < lineEnd then zero_pad 2 (to_hex (of_char (data ! i))) @ '' '' else ''   '')
       [offset ..< offset + 16]) @
     '' |'' @
     map (\<lambda>i. if is_print (data ! i) then data ! i else CHR ''.'') [offset ..< lineEnd] @
     ''|''"

function hex_lines :: "string \<Rightarrow> nat \<Rightarrow> nat \<Rightarrow> string" where
  "hex_lines data shown offset =
     (if offset < shown
      then hex_line data offset (min (offset + 16) shown) @ hex_lines data shown (offset + 16)
      else [])"
  by pat_completeness auto
termination
  by (relation "measure (\<lambda>(data, shown, offset). shown - offset)") auto

declare hex_lines.simps [simp del]

text \<open>\<open>data\<close> is \<open>None\<close> for the null pointer.\<close>

definition hexDump :: "string option \<Rightarrow> nat \<Rightarrow> string" where
  "hexDump data maxBytes =
     (case data of
        None \<Rightarrow> ''(empty)''
      | Some bytes \<Rightarrow>
          if bytes = [] then ''(empty)''
          else
            (let shown = min (length bytes) maxBytes in
             hex_lines bytes shown 0 @
             (if length bytes > shown
              then CHR 0x0A # ''  ... '' @ to_string (length bytes - shown) @ '' more byte(s)''
              else [])))"

section \<open>Lemmas\<close>

lemma enabled_iff: "enabled threshold level \<longleftrightarrow> threshold \<noteq> Off \<and> threshold \<le> level"
  by (simp add: enabled_def less_eq_log_level_def)

lemma enabled_mono: "enabled threshold l \<Longrightarrow> l \<le> m \<Longrightarrow> enabled threshold m"
  by (auto simp: enabled_iff)

lemma to_lower_idem: "to_lower (to_lower c) = to_lower c"
proof (cases "CHR ''A'' \<le> c \<and> c \<le> CHR ''Z''")
  case True
  then have "65 \<le> (of_char c :: nat)" "(of_char c :: nat) \<le> 90"
    by (auto simp: less_eq_char_def)
  then show ?thesis by (simp add: to_lower_def less_eq_char_def)
next
  case False
  then have "to_lower c = c" unfolding to_lower_def by (rule if_not_P)
  then show ?thesis by simp
qed

lemma to_lower_names:
  "map to_lower (takeWhile (\<lambda>c. c \<noteq> CHR '' '') (levelName l)) =
     (case l of Trace \<Rightarrow> ''trace'' | Debug \<Rightarrow> ''debug'' | Info \<Rightarrow> ''info'' | Warn \<Rightarrow> ''warn''
      | Error \<Rightarrow> ''error'' | Off \<Rightarrow> ''off'')"
  by (induction l) code_simp+

lemma drop_concat_blocks:
  assumes "\<And>x. x \<in> set xs \<Longrightarrow> length (f x) = k" "i < length xs"
  shows "take k (drop (k * i) (concat (map f xs) @ ys)) = f (xs ! i)"
  using assms
proof (induction xs arbitrary: i)
  case (Cons x xs)
  then show ?case
  proof (cases i)
    case (Suc j)
    with Cons show ?thesis by (simp add: add.commute)
  qed simp
qed simp

text \<open>The value of lower-case hexadecimal digits.\<close>

definition hex_digit_value :: "char \<Rightarrow> nat" where
  "hex_digit_value c = (if (of_char c :: nat) < 58 then of_char c - 48 else of_char c - 87)"

definition hex_value :: "string \<Rightarrow> nat" where
  "hex_value ds = foldl (\<lambda>v c. 16 * v + hex_digit_value c) 0 ds"

lemma hex_digit_value_digit: "d < 16 \<Longrightarrow> hex_digit_value (hex_digit d) = d"
  by (simp add: hex_digit_value_def hex_digit_def)

lemma to_hex_byte:
  assumes "n < 256"
  shows "zero_pad 2 (to_hex n) = [hex_digit (n div 16), hex_digit (n mod 16)]"
proof (cases "n < 16")
  case True
  then show ?thesis
    by (simp add: to_hex.simps zero_pad_def hex_digit_def char_of_def bit_0)
next
  case False
  then have "n div 16 < 16" using assms by simp
  with False show ?thesis by (subst to_hex.simps) (simp add: to_hex.simps [of "n div 16"] zero_pad_def)
qed

lemma hex_value_byte: "n < 256 \<Longrightarrow> hex_value (zero_pad 2 (to_hex n)) = n"
  by (simp add: to_hex_byte hex_value_def hex_digit_value_digit)

lemma length_to_hex: "0 < w \<Longrightarrow> n < 16 ^ w \<Longrightarrow> length (to_hex n) \<le> w"
proof (induction w arbitrary: n)
  case (Suc w)
  show ?case
  proof (cases "n < 16")
    case False
    then have "w \<noteq> 0" using Suc.prems by (cases w) auto
    then have "length (to_hex (n div 16)) \<le> w" using Suc by (intro Suc.IH) (auto simp: div_less_iff_less_mult mult.commute)
    then show ?thesis using False by (subst to_hex.simps) simp
  qed (simp add: to_hex.simps)
qed simp

lemma length_zero_pad_hex: "0 < w \<Longrightarrow> n < 16 ^ w \<Longrightarrow> length (zero_pad w (to_hex n)) = w"
  using length_to_hex [of w n] by (simp add: zero_pad_def)

section \<open>Properties\<close>

text \<open>
  A level is read back from its printed name, whatever the case of the letters; and a
  configured threshold lets through exactly the levels from it on, except that \<open>Off\<close> lets
  through nothing.
\<close>

theorem parseLevel_names:
  "(enabled (snd (initFromEnvironment (Some s) Info)) l \<longleftrightarrow>
      (case parseLevel s of None \<Rightarrow> Info \<le> l | Some t \<Rightarrow> t \<noteq> Off \<and> t \<le> l)) \<and>
   parseLevel (takeWhile (\<lambda>c. c \<noteq> CHR '' '') (levelName l)) = Some l \<and>
   parseLevel (map to_lower s) = parseLevel s"
proof (intro conjI)
  show "enabled (snd (initFromEnvironment (Some s) Info)) l \<longleftrightarrow>
      (case parseLevel s of None \<Rightarrow> Info \<le> l | Some t \<Rightarrow> t \<noteq> Off \<and> t \<le> l)"
    by (simp add: initFromEnvironment_def enabled_iff split: option.split)
  show "parseLevel (takeWhile (\<lambda>c. c \<noteq> CHR '' '') (levelName l)) = Some l"
    by (cases l) (simp_all only: parseLevel_def to_lower_names Let_def, simp_all)
  have "map to_lower (map to_lower s) = map to_lower s"
    by (simp add: to_lower_idem)
  then show "parseLevel (map to_lower s) = parseLevel s"
    by (simp only: parseLevel_def)
qed

text \<open>
  The columns of the hex dump line up and are faithful: in every line below offset 65536 the
  two digits of the \<open>i\<close>th byte stand at column \<open>9 + 3 i\<close> and are its value, and the line has
  the same width up to the text column however many bytes it shows.
\<close>

theorem hex_line_columns:
  assumes "offset < 65536" "i < 16" "offset + i < lineEnd" "lineEnd \<le> offset + 16"
  shows "hex_value (take 2 (drop (9 + 3 * i) (hex_line data offset lineEnd))) =
      of_char (data ! (offset + i)) \<and>
    length (hex_line data offset lineEnd) = 60 + (lineEnd - offset)"
proof -
  let ?f = "\<lambda>j. if j < lineEnd then zero_pad 2 (to_hex (of_char (data ! j))) @ '' '' else ''   ''"
  let ?rest = "'' |'' @ map (\<lambda>j. if is_print (data ! j) then data ! j else CHR ''.'')
    [offset ..< lineEnd] @ ''|''"
  let ?front = "CHR 0x0A # ''  '' @ zero_pad 4 (to_hex offset) @ ''  ''"
  have len: "length (?f j) = 3" for j
    using length_zero_pad_hex [of 2 "of_char (data ! j)"] by simp
  have front: "length ?front = 9"
    using length_zero_pad_hex [of 4 offset] assms(1) by simp
  have line: "hex_line data offset lineEnd =
      ?front @ concat (map ?f [offset ..< offset + 16]) @ ?rest"
    by (simp add: hex_line_def)
  have "take 3 (drop (3 * i) (concat (map ?f [offset ..< offset + 16]) @ ?rest)) = ?f (offset + i)"
    using len assms(2) by (subst drop_concat_blocks) auto
  then have "take 3 (drop (9 + 3 * i) (hex_line data offset lineEnd)) = ?f (offset + i)"
    unfolding line using front by (simp only: drop_append) simp
  then have "take 2 (take 3 (drop (9 + 3 * i) (hex_line data offset lineEnd))) = take 2 (?f (offset + i))"
    by (rule arg_cong)
  moreover have "take 2 (take 3 xs) = take 2 xs" for xs :: string by simp
  ultimately have "take 2 (drop (9 + 3 * i) (hex_line data offset lineEnd)) = take 2 (?f (offset + i))"
    by (simp only:)
  moreover have "take 2 (?f (offset + i)) = zero_pad 2 (to_hex (of_char (data ! (offset + i))))"
    using assms(3) length_zero_pad_hex [of 2 "of_char (data ! (offset + i))"] by simp
  moreover have "length (concat (map ?f [offset ..< offset + 16])) = 48"
    by (simp add: length_concat comp_def len sum_list_triv)
  ultimately show ?thesis
    using front hex_value_byte [of "of_char (data ! (offset + i))"] by (simp add: line)
qed

lemma hex_line_columns_witness:
  "hex_value (take 2 (drop 12 (hex_line ''AZ'' 0 2))) = of_char CHR ''Z''"
  using hex_line_columns [of 0 1 2 "''AZ''"] by simp

end
