(* ===== verification/Log_Sink.thy ===== *)
theory Log_Sink
  imports Logger "HOL-Library.Sublist"
begin

text \<open>
  The asynchronous sink of the logger: class \<open>AsyncLogSink\<close> of \<open>src/Logger.cpp\<close> and the static
  functions of \<open>Logger\<close> over it. Any thread enqueues under the queue mutex and replaces the
  destination under the sink mutex; one worker takes a record out, copies the destination, and
  writes; any number of threads wait in \<open>flush\<close>. Each critical section is one step, and so are a
  write and a notification. A thread that waits on a condition variable is asleep and takes no step
  until it is notified or wakes up spuriously.
\<close>

section \<open>State\<close>

type_synonym log_record = "log_level \<times> string"

text \<open>
  A destination is a function of the caller, here a number, or empty for the standard error
  stream.
\<close>

type_synonym destination = "nat option"

text \<open>
  The members of \<open>AsyncLogSink\<close>; the record the worker has in hand and its copy of the
  destination; the two condition variables: whether the worker is asleep on \<open>_changed\<close>, how many
  producers have released the mutex and not yet called \<open>notify_one\<close>, and which threads in \<open>flush\<close>
  are asleep on \<open>_drained\<close> and which are woken and have not yet tested again; whether the worker's
  write will never return; what the standard error stream got; and three histories the code does
  not keep: how many lines were handed in, which were accepted, and what was written where.
\<close>

record log_sink =
  ls_pending :: "log_record list"
  ls_pendingBytes :: nat
  ls_inFlight :: bool
  ls_dropped :: nat
  ls_sink :: destination
  ls_hand :: "log_record option"
  ls_copy :: "destination option"
  ls_asleep :: bool
  ls_wakeups :: nat
  ls_waiting :: "nat set"
  ls_woken :: "nat set"
  ls_stuck :: bool
  ls_stderr :: string
  ls_calls :: nat
  ls_accepted :: "log_record list"
  ls_written :: "(destination \<times> log_record) list"

definition log_sink_new :: log_sink where
  "log_sink_new =
     \<lparr>ls_pending = [], ls_pendingBytes = 0, ls_inFlight = False, ls_dropped = 0, ls_sink = None,
      ls_hand = None, ls_copy = None, ls_asleep = False, ls_wakeups = 0, ls_waiting = {}, ls_woken = {},
      ls_stuck = False, ls_stderr = [], ls_calls = 0, ls_accepted = [], ls_written = []\<rparr>"

definition kMaxPendingLines :: nat where
  "kMaxPendingLines = 1024"

definition kMaxPendingBytes :: nat where
  "kMaxPendingBytes = 1024 * 1024"

section \<open>What callers do\<close>

definition log_setSink :: "destination \<Rightarrow> log_sink \<Rightarrow> log_sink" where
  "log_setSink d s = s\<lparr>ls_sink := d\<rparr>"

text \<open>
  \<open>enqueue\<close>; \<open>allocated\<close> tells whether \<open>push_back\<close> finds memory. The byte count is raised before
  and stays raised when it does not. Only a line that was accepted is followed by \<open>notify_one\<close>.
\<close>

definition log_enqueue :: "log_level \<Rightarrow> string \<Rightarrow> bool \<Rightarrow> log_sink \<Rightarrow> log_sink" where
  "log_enqueue level line allocated s =
     (let s = s\<lparr>ls_calls := ls_calls s + 1\<rparr> in
      if length (ls_pending s) \<ge> kMaxPendingLines \<or>
         length line > kMaxPendingBytes - min (ls_pendingBytes s) kMaxPendingBytes
      then s\<lparr>ls_dropped := ls_dropped s + 1\<rparr>
      else
        (let s1 = s\<lparr>ls_pendingBytes := ls_pendingBytes s + length line\<rparr> in
         if allocated
         then s1\<lparr>ls_pending := ls_pending s1 @ [(level, line)],
                 ls_accepted := ls_accepted s1 @ [(level, line)], ls_wakeups := ls_wakeups s1 + 1\<rparr>
         else s1\<lparr>ls_dropped := ls_dropped s1 + 1\<rparr>))"

text \<open>The call of \<open>notify_one\<close> on \<open>_changed\<close>, where only the worker waits.\<close>

definition log_notify :: "log_sink \<Rightarrow> log_sink" where
  "log_notify s = s\<lparr>ls_wakeups := ls_wakeups s - 1, ls_asleep := False\<rparr>"

definition log_write ::
  "string \<Rightarrow> log_level \<Rightarrow> string \<Rightarrow> bool \<Rightarrow> log_sink \<Rightarrow> log_sink" where
  "log_write stamp level message allocated s = log_enqueue level (log_line stamp level message) allocated s"

text \<open>
  The destructor of \<open>LogRecord\<close>; \<open>formatted\<close> tells whether it could build the line, and it swallows
  what is thrown.
\<close>

definition log_emit :: "string \<Rightarrow> log_level \<Rightarrow> string \<Rightarrow> bool \<Rightarrow> bool \<Rightarrow> log_sink \<Rightarrow> log_sink" where
  "log_emit stamp level message formatted allocated s =
     (if formatted then log_write stamp level message allocated s else s)"

text \<open>
  A \<open>MOTUS_LOG\<close> macro: only if the level is enabled is the expression, which may have effects on the
  program's state \<open>'x\<close>, evaluated and the record made and destroyed.
\<close>

definition log_at ::
  "log_level \<Rightarrow> log_level \<Rightarrow> ('x \<Rightarrow> string \<times> 'x) \<Rightarrow> string \<Rightarrow> bool \<Rightarrow> bool \<Rightarrow> 'x \<times> log_sink \<Rightarrow> 'x \<times> log_sink" where
  "log_at threshold level expr stamp formatted allocated = (\<lambda>(x, s).
     if \<not> enabled threshold level then (x, s)
     else
       (case expr x of
          (message, y) \<Rightarrow> (y, log_emit stamp level message formatted allocated s)))"

text \<open>
  The predicate of the wait in \<open>flush\<close>, and what a thread does each time it has the mutex there, at
  the call and after every wake-up: it returns, or goes to sleep on \<open>_drained\<close>.
\<close>

definition flush_returns :: "log_sink \<Rightarrow> bool" where
  "flush_returns s \<longleftrightarrow> ls_pending s = [] \<and> \<not> ls_inFlight s"

definition log_flush :: "nat \<Rightarrow> log_sink \<Rightarrow> bool \<times> log_sink" where
  "log_flush i s =
     (if flush_returns s then (True, s\<lparr>ls_woken := ls_woken s - {i}\<rparr>)
      else (False, s\<lparr>ls_waiting := insert i (ls_waiting s), ls_woken := ls_woken s - {i}\<rparr>))"

section \<open>What the worker does\<close>

text \<open>The wait for work: a line is taken, or the worker goes to sleep on \<open>_changed\<close>.\<close>

definition worker_take :: "log_sink \<Rightarrow> log_sink" where
  "worker_take s =
     (case ls_pending s of
        [] \<Rightarrow> s\<lparr>ls_asleep := True\<rparr>
      | (level, line) # rest \<Rightarrow>
          s\<lparr>ls_pending := rest, ls_pendingBytes := ls_pendingBytes s - length line,
            ls_inFlight := True, ls_hand := Some (level, line)\<rparr>)"

text \<open>
  How a write ends: copying the destination finds memory or not; the write returns, or blocks for
  good; a destination of the caller returns or throws; \<open>fwrite\<close> gets some of the bytes out and
  \<open>fflush\<close> succeeds or not, and only all bytes and a flush are a success.
\<close>

record write_outcome =
  wo_copied :: bool
  wo_ends :: bool
  wo_threw :: bool
  wo_bytes :: nat
  wo_flushed :: bool

definition sinkSnapshot :: "write_outcome \<Rightarrow> log_sink \<Rightarrow> log_sink" where
  "sinkSnapshot out s =
     (if wo_copied out then s\<lparr>ls_copy := Some (ls_sink s)\<rparr>
      else s\<lparr>ls_dropped := ls_dropped s + 1, ls_hand := None\<rparr>)"

definition writeToStderr :: "string \<Rightarrow> write_outcome \<Rightarrow> bool \<times> string" where
  "writeToStderr line out =
     (let complete = line @ [CHR 0x0A]; n = min (wo_bytes out) (length complete) in
      (n = length complete \<and> wo_flushed out, take n complete))"

definition worker_write :: "write_outcome \<Rightarrow> log_record \<Rightarrow> destination \<Rightarrow> log_sink \<Rightarrow> log_sink" where
  "worker_write out r d s =
     (if \<not> wo_ends out then s\<lparr>ls_stuck := True\<rparr>
      else
        (case (case d of Some _ \<Rightarrow> (\<not> wo_threw out, []) | None \<Rightarrow> writeToStderr (snd r) out) of
           (delivered, bytes) \<Rightarrow>
             (let s1 = s\<lparr>ls_stderr := ls_stderr s @ bytes, ls_hand := None, ls_copy := None\<rparr> in
              if delivered then s1\<lparr>ls_written := ls_written s1 @ [(d, r)]\<rparr>
              else s1\<lparr>ls_dropped := ls_dropped s1 + 1\<rparr>)))"

text \<open>The last section of the loop, with \<open>notify_all\<close> on \<open>_drained\<close> if nothing is pending.\<close>

definition worker_settle :: "log_sink \<Rightarrow> log_sink" where
  "worker_settle s =
     (let s1 = s\<lparr>ls_inFlight := False\<rparr> in
      if ls_pending s1 = [] then s1\<lparr>ls_woken := ls_woken s1 \<union> ls_waiting s1, ls_waiting := {}\<rparr>
      else s1)"

text \<open>
  The loop \<open>run\<close>, from wherever it is: the worker's next step, none while it is asleep or its write
  does not return.
\<close>

definition worker_step :: "write_outcome \<Rightarrow> log_sink \<Rightarrow> log_sink option" where
  "worker_step out s =
     (if ls_asleep s \<or> ls_stuck s then None
      else
        (case (ls_hand s, ls_copy s) of
           (None, _) \<Rightarrow> Some (if ls_inFlight s then worker_settle s else worker_take s)
         | (Some _, None) \<Rightarrow> Some (sinkSnapshot out s)
         | (Some r, Some d) \<Rightarrow> Some (worker_write out r d s)))"

section \<open>All interleavings\<close>

inductive log_step :: "log_sink \<Rightarrow> log_sink \<Rightarrow> bool" where
  enqueue: "log_step s (log_enqueue level line allocated s)"
| notify: "0 < ls_wakeups s \<Longrightarrow> log_step s (log_notify s)"
| set_sink: "log_step s (log_setSink d s)"
| flush: "i \<notin> ls_waiting s \<Longrightarrow> log_step s (snd (log_flush i s))"
| worker: "worker_step out s = Some s' \<Longrightarrow> log_step s s'"
| worker_spurious: "log_step s (s\<lparr>ls_asleep := False\<rparr>)"
| flush_spurious: "i \<in> ls_waiting s \<Longrightarrow>
    log_step s (s\<lparr>ls_waiting := ls_waiting s - {i}, ls_woken := insert i (ls_woken s)\<rparr>)"

inductive log_reachable :: "log_sink \<Rightarrow> bool" where
  log_start: "log_reachable log_sink_new"
| log_next: "log_reachable s \<Longrightarrow> log_step s s' \<Longrightarrow> log_reachable s'"

inductive_cases log_stepE: "log_step s s'"

text \<open>
  The steps the sink takes by itself, when no thread logs, changes the destination or calls \<open>flush\<close>,
  and no write blocks: the notifications still to come, the worker, and the woken threads in
  \<open>flush\<close> that test again.
\<close>

inductive drain_step :: "log_sink \<Rightarrow> log_sink \<Rightarrow> bool" where
  drain_worker: "wo_ends out \<Longrightarrow> worker_step out s = Some s' \<Longrightarrow> drain_step s s'"
| drain_notify: "0 < ls_wakeups s \<Longrightarrow> drain_step s (log_notify s)"
| drain_flush: "i \<in> ls_woken s \<Longrightarrow> drain_step s (snd (log_flush i s))"

inductive_cases drain_stepE: "drain_step s s'"

section \<open>The static functions of \<open>Logger\<close>\<close>

text \<open>
  The process-wide state: the threshold, which starts at \<open>Info\<close>, and the one sink. The functions of
  \<open>Logger\<close> act on it; \<open>logger_flush\<close> tells whether the calling thread returns or waits.
\<close>

record logger =
  lg_level :: log_level
  lg_sink :: log_sink

definition logger_start :: logger where
  "logger_start = \<lparr>lg_level = Info, lg_sink = log_sink_new\<rparr>"

definition logger_setLevel :: "log_level \<Rightarrow> logger \<Rightarrow> logger" where
  "logger_setLevel level g = g\<lparr>lg_level := level\<rparr>"

definition logger_enabled :: "log_level \<Rightarrow> logger \<Rightarrow> bool" where
  "logger_enabled level g = enabled (lg_level g) level"

definition logger_setSink :: "destination \<Rightarrow> logger \<Rightarrow> logger" where
  "logger_setSink d g = g\<lparr>lg_sink := log_setSink d (lg_sink g)\<rparr>"

definition logger_write :: "string \<Rightarrow> log_level \<Rightarrow> string \<Rightarrow> bool \<Rightarrow> logger \<Rightarrow> logger" where
  "logger_write stamp level message allocated g =
     g\<lparr>lg_sink := log_write stamp level message allocated (lg_sink g)\<rparr>"

definition logger_flush :: "nat \<Rightarrow> logger \<Rightarrow> bool \<times> logger" where
  "logger_flush i g = (case log_flush i (lg_sink g) of (returned, s) \<Rightarrow> (returned, g\<lparr>lg_sink := s\<rparr>))"

definition logger_dropped :: "logger \<Rightarrow> nat" where
  "logger_dropped g = ls_dropped (lg_sink g)"

definition logger_initFromEnvironment :: "string option \<Rightarrow> logger \<Rightarrow> bool \<times> logger" where
  "logger_initFromEnvironment value g =
     (case initFromEnvironment value (lg_level g) of (ok, level) \<Rightarrow> (ok, logger_setLevel level g))"

text \<open>A \<open>MOTUS_LOG\<close> macro on the process-wide state.\<close>

definition logger_at ::
  "log_level \<Rightarrow> ('x \<Rightarrow> string \<times> 'x) \<Rightarrow> string \<Rightarrow> bool \<Rightarrow> bool \<Rightarrow> 'x \<times> logger \<Rightarrow> 'x \<times> logger" where
  "logger_at level expr stamp formatted allocated = (\<lambda>(x, g).
     case log_at (lg_level g) level expr stamp formatted allocated (x, lg_sink g) of
       (y, s) \<Rightarrow> (y, g\<lparr>lg_sink := s\<rparr>))"

text \<open>
  After the environment was read, a macro below the threshold it names does nothing at all, and one
  at or above it evaluates its expression once and hands in one line.
\<close>

lemma logger_at_threshold:
  assumes "logger_initFromEnvironment (Some text) g = (True, g')" "parseLevel text = Some threshold"
  shows "logger_at level expr stamp True allocated (x, g') =
    (if threshold = Off \<or> level < threshold then (x, g')
     else (snd (expr x), logger_write stamp level (fst (expr x)) allocated g'))"
  using assms
  by (auto simp: logger_initFromEnvironment_def initFromEnvironment_def logger_setLevel_def logger_at_def
      log_at_def log_emit_def logger_write_def enabled_iff split: prod.splits)

section \<open>The invariant\<close>

definition in_hand :: "log_sink \<Rightarrow> log_record list" where
  "in_hand s = (case ls_hand s of None \<Rightarrow> [] | Some r \<Rightarrow> [r])"

definition pending_size :: "log_sink \<Rightarrow> nat" where
  "pending_size s = sum_list (map (length \<circ> snd) (ls_pending s))"

text \<open>Every line is written, counted as dropped, or still on its way, in the order accepted.\<close>

definition log_ok :: "log_sink \<Rightarrow> bool" where
  "log_ok s \<longleftrightarrow>
     length (ls_written s) + ls_dropped s + length (in_hand s) + length (ls_pending s) = ls_calls s \<and>
     subseq (map snd (ls_written s) @ in_hand s @ ls_pending s) (ls_accepted s) \<and>
     length (ls_pending s) \<le> kMaxPendingLines \<and>
     pending_size s \<le> ls_pendingBytes s \<and> ls_pendingBytes s \<le> kMaxPendingBytes \<and>
     (ls_hand s = None \<longrightarrow> ls_copy s = None)"

text \<open>
  No wake-up is lost: a worker asleep over a pending line has a notification coming, and a thread
  asleep in \<open>flush\<close> has a line to wait for, whose end will wake it.
\<close>

definition wakeups_ok :: "log_sink \<Rightarrow> bool" where
  "wakeups_ok s \<longleftrightarrow>
     (ls_hand s \<noteq> None \<longrightarrow> ls_inFlight s) \<and> (ls_asleep s \<longrightarrow> \<not> ls_inFlight s) \<and>
     (ls_asleep s \<and> ls_pending s \<noteq> [] \<longrightarrow> 0 < ls_wakeups s) \<and>
     (flush_returns s \<longrightarrow> ls_waiting s = {}) \<and>
     finite (ls_waiting s) \<and> finite (ls_woken s) \<and> ls_waiting s \<inter> ls_woken s = {} \<and>
     (ls_stuck s \<longrightarrow> ls_hand s \<noteq> None \<and> ls_copy s \<noteq> None)"

lemma log_ok_new: "log_ok log_sink_new"
  by (simp add: log_ok_def log_sink_new_def in_hand_def pending_size_def)

lemma log_ok_enqueue:
  assumes "log_ok s"
  shows "log_ok (log_enqueue level line allocated s)"
proof -
  let ?s = "log_enqueue level line allocated s"
  have fits: "ls_pendingBytes s + length line \<le> kMaxPendingBytes"
    if "length line \<le> kMaxPendingBytes - min (ls_pendingBytes s) kMaxPendingBytes"
    using that assms by (auto simp: log_ok_def)
  have "subseq (ws @ [r]) (as @ [r])" if "subseq ws as" for ws as and r :: log_record
    using that by (simp add: list_emb_append_mono)
  from this [of "map snd (ls_written s) @ in_hand s @ ls_pending s" "ls_accepted s" "(level, line)"]
  show ?thesis
    using assms fits
    by (auto simp: log_ok_def log_enqueue_def Let_def in_hand_def pending_size_def not_le not_less)
qed

lemma log_ok_take: "log_ok s \<Longrightarrow> ls_hand s = None \<Longrightarrow> log_ok (worker_take s)"
  by (auto simp: log_ok_def worker_take_def in_hand_def pending_size_def split: list.splits)

lemma subseq_drop_middle: "subseq (ws @ r # ps) as \<Longrightarrow> subseq (ws @ ps) as"
  by (rule subseq_order.order_trans [of _ "ws @ r # ps"]) (auto intro: list_emb_append_mono)

lemma log_ok_snapshot: "log_ok s \<Longrightarrow> ls_hand s = Some r \<Longrightarrow> ls_copy s = None \<Longrightarrow> log_ok (sinkSnapshot out s)"
  by (auto simp: log_ok_def sinkSnapshot_def in_hand_def pending_size_def intro: subseq_drop_middle)

lemma log_ok_write:
  assumes "log_ok s" "ls_hand s = Some r"
  shows "log_ok (worker_write out r d s)"
  using assms
  by (auto simp: log_ok_def worker_write_def in_hand_def pending_size_def Let_def
      intro: subseq_drop_middle split: option.splits prod.splits)

lemma log_ok_settle: "log_ok s \<Longrightarrow> log_ok (worker_settle s)"
  by (auto simp: log_ok_def worker_settle_def in_hand_def pending_size_def Let_def)

lemma log_ok_worker: "log_ok s \<Longrightarrow> worker_step out s = Some s' \<Longrightarrow> log_ok s'"
  by (auto simp: worker_step_def split: option.splits if_splits
      intro: log_ok_take log_ok_snapshot log_ok_write log_ok_settle)

lemma log_ok_others:
  "log_ok s \<Longrightarrow> log_ok (log_notify s)" "log_ok s \<Longrightarrow> log_ok (log_setSink d s)"
  "log_ok s \<Longrightarrow> log_ok (snd (log_flush i s))" "log_ok s \<Longrightarrow> log_ok (s\<lparr>ls_asleep := b\<rparr>)"
  "log_ok s \<Longrightarrow> log_ok (s\<lparr>ls_waiting := w, ls_woken := w'\<rparr>)"
  by (simp_all add: log_ok_def log_notify_def log_setSink_def log_flush_def in_hand_def pending_size_def)

lemma log_reachable_ok: "log_reachable s \<Longrightarrow> log_ok s"
proof (induction rule: log_reachable.induct)
  case log_start
  show ?case by (rule log_ok_new)
next
  case (log_next s s')
  from log_next.hyps(2) show ?case
    by (rule log_stepE) (use log_next.IH in \<open>auto intro: log_ok_enqueue log_ok_others log_ok_worker\<close>)
qed

lemma wakeups_ok_new: "wakeups_ok log_sink_new"
  by (simp add: wakeups_ok_def log_sink_new_def)

lemma wakeups_ok_enqueue: "wakeups_ok s \<Longrightarrow> wakeups_ok (log_enqueue level line allocated s)"
  by (auto simp: wakeups_ok_def log_enqueue_def flush_returns_def Let_def)

lemma wakeups_ok_take:
  "wakeups_ok s \<Longrightarrow> \<not> ls_inFlight s \<Longrightarrow> \<not> ls_asleep s \<Longrightarrow> \<not> ls_stuck s \<Longrightarrow> wakeups_ok (worker_take s)"
  by (auto simp: wakeups_ok_def worker_take_def flush_returns_def split: list.splits)

lemma wakeups_ok_snapshot:
  "wakeups_ok s \<Longrightarrow> ls_hand s = Some r \<Longrightarrow> \<not> ls_stuck s \<Longrightarrow> wakeups_ok (sinkSnapshot out s)"
  by (auto simp: wakeups_ok_def sinkSnapshot_def flush_returns_def)

lemma wakeups_ok_write:
  "wakeups_ok s \<Longrightarrow> ls_hand s = Some r \<Longrightarrow> ls_copy s = Some d \<Longrightarrow> \<not> ls_stuck s \<Longrightarrow>
     wakeups_ok (worker_write out r d s)"
  by (auto simp: wakeups_ok_def worker_write_def flush_returns_def Let_def split: prod.splits)

lemma wakeups_ok_settle: "wakeups_ok s \<Longrightarrow> ls_hand s = None \<Longrightarrow> wakeups_ok (worker_settle s)"
  by (auto simp: wakeups_ok_def worker_settle_def flush_returns_def Let_def)

lemma wakeups_ok_worker: "wakeups_ok s \<Longrightarrow> worker_step out s = Some s' \<Longrightarrow> wakeups_ok s'"
  by (auto simp: worker_step_def split: option.splits if_splits
      intro: wakeups_ok_take wakeups_ok_snapshot wakeups_ok_write wakeups_ok_settle)

lemma wakeups_ok_others:
  "wakeups_ok s \<Longrightarrow> wakeups_ok (log_notify s)" "wakeups_ok s \<Longrightarrow> wakeups_ok (log_setSink d s)"
  "wakeups_ok s \<Longrightarrow> wakeups_ok (snd (log_flush i s))" "wakeups_ok s \<Longrightarrow> wakeups_ok (s\<lparr>ls_asleep := False\<rparr>)"
  "wakeups_ok s \<Longrightarrow> wakeups_ok (s\<lparr>ls_waiting := ls_waiting s - {i}, ls_woken := insert i (ls_woken s)\<rparr>)"
  by (auto simp: wakeups_ok_def log_notify_def log_setSink_def log_flush_def flush_returns_def)

lemma log_reachable_wakeups: "log_reachable s \<Longrightarrow> wakeups_ok s"
proof (induction rule: log_reachable.induct)
  case log_start
  show ?case by (rule wakeups_ok_new)
next
  case (log_next s s')
  from log_next.hyps(2) show ?case
    by (rule log_stepE)
      (use log_next.IH in \<open>auto intro: wakeups_ok_enqueue wakeups_ok_others wakeups_ok_worker\<close>)
qed

text \<open>The macros are enqueues of lines, so what holds in all reachable states holds after them.\<close>

lemma log_at_reachable:
  "log_reachable s \<Longrightarrow>
     log_reachable (snd (log_at threshold level expr stamp formatted allocated (x, s)))"
  by (auto simp: log_at_def log_emit_def log_write_def split: prod.split intro: log_next log_step.enqueue)

section \<open>Progress\<close>

text \<open>The steps of the sink by itself are steps of the system, and each uses up some credit.\<close>

lemma drain_step_log_step: "wakeups_ok s \<Longrightarrow> drain_step s s' \<Longrightarrow> log_step s s'"
  by (auto elim!: drain_stepE simp: wakeups_ok_def intro: log_step.worker log_step.notify log_step.flush)

definition worker_credit :: "log_sink \<Rightarrow> nat" where
  "worker_credit s = 4 * length (ls_pending s) +
     (if ls_inFlight s then (case ls_hand s of None \<Rightarrow> 1 | Some _ \<Rightarrow> if ls_copy s = None then 3 else 2) else 0) +
     (if ls_asleep s then 0 else 1)"

definition flush_credit :: "log_sink \<Rightarrow> nat" where
  "flush_credit s =
     (if flush_returns s then card (ls_woken s) else 2 * card (ls_woken s) + card (ls_waiting s))"

definition drain_credit :: "log_sink \<Rightarrow> nat" where
  "drain_credit s = worker_credit s + 2 * ls_wakeups s + flush_credit s"

lemma drain_credit_bound:
  "drain_credit s \<le> 4 * length (ls_pending s) + 2 * ls_wakeups s + 2 * card (ls_woken s) + card (ls_waiting s) + 4"
  by (simp add: drain_credit_def worker_credit_def flush_credit_def split: option.split)

lemma worker_stepE:
  assumes "worker_step out s = Some s'"
  obtains "ls_hand s = None" "ls_inFlight s" "s' = worker_settle s"
  | "ls_hand s = None" "\<not> ls_inFlight s" "\<not> ls_asleep s" "s' = worker_take s"
  | r where "ls_hand s = Some r" "ls_copy s = None" "s' = sinkSnapshot out s"
  | r d where "ls_hand s = Some r" "ls_copy s = Some d" "s' = worker_write out r d s"
  using assms by (auto simp: worker_step_def split: option.splits if_splits)

lemma worker_settle_credit:
  "wakeups_ok s \<Longrightarrow> ls_hand s = None \<Longrightarrow> ls_inFlight s \<Longrightarrow> drain_credit (worker_settle s) < drain_credit s"
  by (auto simp: worker_settle_def drain_credit_def worker_credit_def flush_credit_def flush_returns_def
      Let_def wakeups_ok_def card_Un_disjoint Int_commute)

lemma worker_take_credit:
  "wakeups_ok s \<Longrightarrow> ls_hand s = None \<Longrightarrow> \<not> ls_inFlight s \<Longrightarrow> \<not> ls_asleep s \<Longrightarrow>
     drain_credit (worker_take s) < drain_credit s"
  by (cases "ls_pending s")
    (auto simp: worker_take_def drain_credit_def worker_credit_def flush_credit_def flush_returns_def
      wakeups_ok_def split: prod.split)

lemma sinkSnapshot_credit:
  "wakeups_ok s \<Longrightarrow> ls_hand s = Some r \<Longrightarrow> ls_copy s = None \<Longrightarrow> drain_credit (sinkSnapshot out s) < drain_credit s"
  by (simp add: sinkSnapshot_def drain_credit_def worker_credit_def flush_credit_def flush_returns_def
      wakeups_ok_def)

lemma worker_write_credit:
  "wakeups_ok s \<Longrightarrow> wo_ends out \<Longrightarrow> ls_hand s = Some r \<Longrightarrow> ls_copy s = Some d \<Longrightarrow>
     drain_credit (worker_write out r d s) < drain_credit s"
  by (simp add: worker_write_def drain_credit_def worker_credit_def flush_credit_def flush_returns_def
      wakeups_ok_def Let_def split: prod.split)

lemma worker_step_credit:
  "worker_step out s = Some s' \<Longrightarrow> wakeups_ok s \<Longrightarrow> wo_ends out \<Longrightarrow> drain_credit s' < drain_credit s"
  by (erule worker_stepE)
    (simp_all add: worker_settle_credit worker_take_credit sinkSnapshot_credit worker_write_credit)

lemma log_notify_credit: "0 < ls_wakeups s \<Longrightarrow> drain_credit (log_notify s) < drain_credit s"
  by (auto simp: drain_credit_def worker_credit_def flush_credit_def flush_returns_def log_notify_def
      split: option.splits)

lemma log_flush_credit:
  assumes "wakeups_ok s" "i \<in> ls_woken s"
  shows "drain_credit (snd (log_flush i s)) < drain_credit s"
proof -
  from assms obtain n where n: "card (ls_woken s) = Suc n"
    by (cases "card (ls_woken s)") (auto simp: wakeups_ok_def)
  with assms have "card (ls_woken s - {i}) = n" "i \<notin> ls_waiting s" by (auto simp: wakeups_ok_def)
  with n assms(1) show ?thesis
    by (auto simp: drain_credit_def worker_credit_def flush_credit_def flush_returns_def log_flush_def
        wakeups_ok_def)
qed

lemma drain_step_credit: "wakeups_ok s \<Longrightarrow> drain_step s s' \<Longrightarrow> drain_credit s' < drain_credit s"
  by (auto elim!: drain_stepE intro: worker_step_credit log_notify_credit log_flush_credit)

lemma drain_step_keeps: "drain_step s s' \<Longrightarrow> ls_calls s' = ls_calls s \<and> (ls_stuck s' \<longleftrightarrow> ls_stuck s)"
  by (auto elim!: drain_stepE simp: worker_step_def worker_settle_def worker_take_def sinkSnapshot_def
      worker_write_def log_notify_def log_flush_def Let_def
      split: option.splits if_splits list.splits prod.splits)

text \<open>Where none of these steps is left, the worker sleeps over an empty queue and no thread waits.\<close>

lemma drained_if_no_step:
  assumes "wakeups_ok s" "\<not> ls_stuck s" "\<nexists>s'. drain_step s s'"
  shows "ls_asleep s \<and> flush_returns s \<and> ls_waiting s = {} \<and> ls_woken s = {}"
proof -
  define out where "out = \<lparr>wo_copied = True, wo_ends = True, wo_threw = False, wo_bytes = 0, wo_flushed = True\<rparr>"
  have "worker_step out s = None"
    using assms(3) drain_worker [of out s] by (cases "worker_step out s") (auto simp: out_def)
  with assms(2) have "ls_asleep s" by (auto simp: worker_step_def split: if_splits option.splits)
  moreover have "ls_wakeups s = 0" using assms(3) drain_notify by blast
  moreover have "ls_woken s = {}" using assms(3) drain_flush by blast
  ultimately show ?thesis using assms(1) by (auto simp: wakeups_ok_def flush_returns_def)
qed

lemma drain_steps_credit:
  "(drain_step ^^ n) s s' \<Longrightarrow> log_reachable s \<Longrightarrow>
     log_reachable s' \<and> n + drain_credit s' \<le> drain_credit s \<and> ls_calls s' = ls_calls s \<and>
     (ls_stuck s' \<longleftrightarrow> ls_stuck s)"
proof (induction n arbitrary: s')
  case 0
  then show ?case by simp
next
  case (Suc n)
  then obtain t where t: "(drain_step ^^ n) s t" "drain_step t s'" by auto
  from Suc.IH [OF t(1) Suc.prems(2)] drain_step_log_step [OF log_reachable_wakeups t(2)]
    drain_step_credit [OF log_reachable_wakeups t(2)] drain_step_keeps [OF t(2)]
  show ?case by (auto intro: log_next)
qed

text \<open>A write that does not return holds every \<open>flush\<close> for good, whatever the other threads do.\<close>

lemma stuck_step: "log_step s s' \<Longrightarrow> wakeups_ok s \<Longrightarrow> ls_stuck s \<Longrightarrow> ls_stuck s'"
  by (auto elim!: log_stepE simp: worker_step_def log_enqueue_def log_setSink_def log_notify_def log_flush_def
      Let_def)

lemma stuck_flush_never_returns:
  assumes "log_step\<^sup>*\<^sup>* s s'" "log_reachable s" "ls_stuck s"
  shows "\<not> fst (log_flush i s')"
proof -
  have "log_reachable s' \<and> ls_stuck s'"
    using assms(1)
    by (induction rule: rtranclp_induct)
      (use assms(2,3) in \<open>auto intro: log_next stuck_step log_reachable_wakeups\<close>)
  then have "wakeups_ok s'" "ls_stuck s'" by (auto intro: log_reachable_wakeups)
  then show ?thesis by (auto simp: wakeups_ok_def log_flush_def flush_returns_def)
qed

text \<open>Steps other than a change of the destination.\<close>

definition steady_step :: "log_sink \<Rightarrow> log_sink \<Rightarrow> bool" where
  "steady_step s s' \<longleftrightarrow> log_step s s' \<and> ls_sink s' = ls_sink s"

definition writes_to :: "destination \<Rightarrow> (destination \<times> log_record) list \<Rightarrow> log_sink \<Rightarrow> bool" where
  "writes_to d before s \<longleftrightarrow> ls_sink s = d \<and> ls_copy s \<in> {None, Some d} \<and>
     (\<exists>rs. ls_written s = before @ map (Pair d) rs)"

lemma writes_to_worker:
  assumes "writes_to d before s" "worker_step out s = Some s'"
  shows "writes_to d before s'"
proof -
  obtain rs where rs: "ls_written s = before @ map (Pair d) rs" using assms(1) by (auto simp: writes_to_def)
  then have more: "\<exists>rs'. ls_written s @ [(d, r)] = before @ map (Pair d) rs'" for r
    by (intro exI [of _ "rs @ [r]"]) simp
  show ?thesis
    using assms more
    by (auto simp: writes_to_def worker_step_def worker_take_def sinkSnapshot_def worker_write_def
        worker_settle_def Let_def split: option.splits list.splits prod.splits if_splits)
qed

lemma writes_to_step:
  assumes "writes_to d before s" "steady_step s s'"
  shows "writes_to d before s'"
  using assms(2) unfolding steady_step_def
proof (elim conjE log_stepE)
  fix level line allocated
  assume "s' = log_enqueue level line allocated s"
  with assms(1) show ?thesis by (simp add: writes_to_def log_enqueue_def Let_def)
next
  fix e
  assume "s' = log_setSink e s" "ls_sink s' = ls_sink s"
  with assms(1) show ?thesis by (simp add: writes_to_def log_setSink_def)
next
  fix out
  assume "worker_step out s = Some s'"
  with assms(1) show ?thesis by (rule writes_to_worker)
qed (use assms(1) in \<open>simp_all add: writes_to_def log_notify_def log_flush_def\<close>)

lemma writes_to_steps: "steady_step\<^sup>*\<^sup>* s s' \<Longrightarrow> writes_to d before s \<Longrightarrow> writes_to d before s'"
  by (induction rule: rtranclp_induct) (auto intro: writes_to_step)

section \<open>Properties\<close>

text \<open>
  C39: no diagnostic disappears without trace, and none is reordered. In every reachable state of
  the sink, under any interleaving of producers, changes of the destination, worker and failures
  of a destination and with memory running out at any point, each line handed in is written,
  counted as dropped, in the worker's hand or pending; what was written precedes what is in hand
  and pending in the order of acceptance; and the queue keeps both its bounds.
\<close>

theorem log_sink_accounts:
  assumes "log_reachable s"
  shows "length (ls_written s) + ls_dropped s + length (in_hand s) + length (ls_pending s) = ls_calls s \<and>
    subseq (map snd (ls_written s) @ in_hand s @ ls_pending s) (ls_accepted s) \<and>
    length (ls_pending s) \<le> 1024 \<and> pending_size s \<le> 1024 * 1024"
  using log_reachable_ok [OF assms]
  by (auto simp: log_ok_def kMaxPendingLines_def kMaxPendingBytes_def)

lemma log_sink_accounts_witness:
  "subseq (map snd (ls_written (log_enqueue Warn ''disk'' True log_sink_new)) @
      in_hand (log_enqueue Warn ''disk'' True log_sink_new) @
      ls_pending (log_enqueue Warn ''disk'' True log_sink_new))
     (ls_accepted (log_enqueue Warn ''disk'' True log_sink_new))"
  using log_sink_accounts [OF log_next [OF log_start log_step.enqueue, of Warn "''disk''" True]] by blast

text \<open>
  C40: \<open>flush\<close> ends and has waited for everything. Take any reachable state in which the worker's
  write is not blocked for good, and let the sink run by itself: the notifications still to come
  arrive, the worker takes its steps, woken threads test again, in any order, and every write ends
  somehow. Such a run has a bounded number of steps, and when none is left the worker sleeps over
  an empty queue, no thread is asleep or woken in \<open>flush\<close>, a thread that calls it returns at once,
  and each line handed in before was written or counted as dropped. No wake-up is lost on either
  condition variable.
\<close>

theorem flush_terminates:
  assumes "log_reachable s" "\<not> ls_stuck s" "(drain_step ^^ n) s s'"
  shows "n \<le> 4 * length (ls_pending s) + 2 * ls_wakeups s + 2 * card (ls_woken s) + card (ls_waiting s) + 4 \<and>
    ((\<exists>s''. drain_step s' s'') \<or>
     ls_asleep s' \<and> ls_waiting s' = {} \<and> ls_woken s' = {} \<and> fst (log_flush i s') \<and>
     length (ls_written s') + ls_dropped s' = ls_calls s)"
proof -
  note run = drain_steps_credit [OF assms(3,1)]
  then have bound: "n \<le> drain_credit s" by simp
  from run have reach: "log_reachable s'" and stuck: "\<not> ls_stuck s'" and calls: "ls_calls s' = ls_calls s"
    using assms(2) by auto
  have "length (ls_written s') + ls_dropped s' = ls_calls s"
    if "flush_returns s'"
    using that log_reachable_ok [OF reach] log_reachable_wakeups [OF reach] calls
    by (auto simp: log_ok_def flush_returns_def in_hand_def wakeups_ok_def split: option.splits)
  with drained_if_no_step [OF log_reachable_wakeups [OF reach] stuck] bound drain_credit_bound [of s]
  show ?thesis by (auto simp: log_flush_def)
qed

text \<open>The same of any state in which a thread finds that it may return from \<open>flush\<close>.\<close>

lemma flush_waits:
  assumes "log_reachable s" "fst (log_flush i s)"
  shows "length (ls_written s) + ls_dropped s = ls_calls s"
  using log_reachable_ok [OF assms(1)] log_reachable_wakeups [OF assms(1)] assms(2)
  by (auto simp: log_ok_def log_flush_def flush_returns_def in_hand_def wakeups_ok_def
      split: option.splits if_splits)

lemma logger_flush_accounts:
  assumes "log_reachable (lg_sink g)" "logger_flush i g = (True, g')"
  shows "length (ls_written (lg_sink g)) + logger_dropped g = ls_calls (lg_sink g)"
proof (rule flush_waits [OF assms(1), of i, folded logger_dropped_def])
  show "fst (log_flush i (lg_sink g))" using assms(2) by (auto simp: logger_flush_def split: prod.splits)
qed

lemma flush_waits_witness:
  "length (ls_written log_sink_new) + ls_dropped log_sink_new = ls_calls log_sink_new"
  by (rule flush_waits [OF log_start, of 0]) (simp add: log_flush_def flush_returns_def log_sink_new_def)

text \<open>
  An example: the worker sleeps, a line is handed in, thread 7 calls \<open>flush\<close> and sleeps; then come
  the notification, the five steps of the worker around a short write, and the test of thread 7.
\<close>

definition short_write :: write_outcome where
  "short_write = \<lparr>wo_copied = True, wo_ends = True, wo_threw = False, wo_bytes = 3, wo_flushed = True\<rparr>"

definition sleeping_flush :: log_sink where
  "sleeping_flush =
     snd (log_flush 7 (log_enqueue Warn ''disk'' True (log_sink_new\<lparr>ls_asleep := True\<rparr>)))"

definition line_dropped :: log_sink where
  "line_dropped = log_sink_new
     \<lparr>ls_asleep := True, ls_dropped := 1, ls_stderr := ''dis'', ls_calls := 1,
      ls_accepted := [(Warn, ''disk'')]\<rparr>"

lemma sleeping_flush_eq: "sleeping_flush = log_sink_new
    \<lparr>ls_pending := [(Warn, ''disk'')], ls_pendingBytes := 4, ls_asleep := True, ls_wakeups := 1,
     ls_waiting := {7}, ls_calls := 1, ls_accepted := [(Warn, ''disk'')]\<rparr>"
  by (simp add: sleeping_flush_def log_flush_def flush_returns_def log_enqueue_def log_sink_new_def
      kMaxPendingLines_def kMaxPendingBytes_def Let_def)

lemma sleeping_flush_reachable: "log_reachable sleeping_flush"
proof -
  have "worker_step short_write log_sink_new = Some (log_sink_new\<lparr>ls_asleep := True\<rparr>)"
    by (simp add: worker_step_def worker_take_def log_sink_new_def)
  then have "log_reachable (log_sink_new\<lparr>ls_asleep := True\<rparr>)"
    by (rule log_next [OF log_start log_step.worker])
  then have "log_reachable (log_enqueue Warn ''disk'' True (log_sink_new\<lparr>ls_asleep := True\<rparr>))" (is "log_reachable ?s")
    by (rule log_next [OF _ log_step.enqueue])
  moreover have "7 \<notin> ls_waiting ?s" by (simp add: log_enqueue_def log_sink_new_def Let_def)
  ultimately show ?thesis unfolding sleeping_flush_def by (rule log_next [OF _ log_step.flush])
qed

lemma sleeping_flush_drains: "(drain_step ^^ 7) sleeping_flush line_dropped"
proof -
  let ?a = "sleeping_flush\<lparr>ls_wakeups := 0, ls_asleep := False\<rparr>"
  let ?b = "?a\<lparr>ls_pending := [], ls_pendingBytes := 0, ls_inFlight := True, ls_hand := Some (Warn, ''disk'')\<rparr>"
  let ?c = "?b\<lparr>ls_copy := Some None\<rparr>"
  let ?d = "?c\<lparr>ls_stderr := ''dis'', ls_hand := None, ls_copy := None, ls_dropped := 1\<rparr>"
  let ?e = "?d\<lparr>ls_inFlight := False, ls_woken := {7}, ls_waiting := {}\<rparr>"
  let ?f = "?e\<lparr>ls_asleep := True\<rparr>"
  note sink = sleeping_flush_eq log_sink_new_def worker_step_def short_write_def
  have "drain_step sleeping_flush ?a"
    using drain_notify [of sleeping_flush] by (simp add: log_notify_def sleeping_flush_eq)
  moreover have "drain_step ?a ?b"
    by (rule drain_worker [of short_write]) (simp_all add: sink worker_take_def)
  moreover have "drain_step ?b ?c"
    by (rule drain_worker [of short_write]) (simp_all add: sink sinkSnapshot_def)
  moreover have "drain_step ?c ?d"
    by (rule drain_worker [of short_write]) (simp_all add: sink worker_write_def writeToStderr_def Let_def)
  moreover have "drain_step ?d ?e"
    by (rule drain_worker [of short_write]) (simp_all add: sink worker_settle_def Let_def)
  moreover have "drain_step ?e ?f"
    by (rule drain_worker [of short_write]) (simp_all add: sink worker_take_def)
  moreover have "drain_step ?f line_dropped"
    using drain_flush [of 7 ?f] by (simp add: sink log_flush_def flush_returns_def line_dropped_def)
  ultimately show ?thesis by (auto simp: numeral_eq_Suc intro!: relcomppI)
qed

lemma flush_terminates_witness:
  "ls_waiting sleeping_flush = {7} \<and> \<not> fst (log_flush 7 sleeping_flush) \<and>
   ((\<exists>s. drain_step line_dropped s) \<or> fst (log_flush 7 line_dropped) \<and> ls_dropped line_dropped = 1)"
proof -
  have "\<not> ls_stuck sleeping_flush" "ls_calls sleeping_flush = 1" "ls_written line_dropped = []"
    "ls_waiting sleeping_flush = {7}" "\<not> fst (log_flush 7 sleeping_flush)"
    by (simp_all add: sleeping_flush_eq line_dropped_def log_sink_new_def log_flush_def flush_returns_def)
  with flush_terminates [OF sleeping_flush_reachable _ sleeping_flush_drains, of 7] show ?thesis by auto
qed

text \<open>
  A destination takes effect. If the caller flushes and then sets a destination before anything
  else is logged, all that is written from then on, until the next change, goes there and
  nothing goes to the destination before.
\<close>

theorem setSink_takes_effect:
  assumes "log_reachable s" "flush_returns s" "steady_step\<^sup>*\<^sup>* (log_setSink d s) s'"
  shows "\<exists>rs. ls_written s' = ls_written s @ map (Pair d) rs"
proof -
  have "writes_to d (ls_written s) (log_setSink d s)"
    using log_reachable_ok [OF assms(1)] log_reachable_wakeups [OF assms(1)] assms(2)
    by (auto simp: writes_to_def log_setSink_def log_ok_def wakeups_ok_def flush_returns_def)
  from writes_to_steps [OF assms(3) this] show ?thesis by (simp add: writes_to_def)
qed

lemma setSink_takes_effect_witness:
  "\<exists>rs. ls_written (log_enqueue Info ''x'' True (log_setSink (Some 1) log_sink_new)) = map (Pair (Some 1)) rs"
proof -
  let ?s = "log_setSink (Some 1) log_sink_new"
  have "steady_step ?s (log_enqueue Info ''x'' True ?s)"
    by (simp add: steady_step_def log_step.enqueue) (simp add: log_enqueue_def Let_def)
  from setSink_takes_effect [OF log_start _ r_into_rtranclp [of steady_step, OF this]] show ?thesis
    by (simp add: flush_returns_def log_sink_new_def)
qed

text \<open>
  The byte budget leaks when memory runs out: an allocation that fails while a line of the
  full budget is queued leaves the queue empty and the budget spent, so that from then on every
  non-empty line is dropped.
\<close>

theorem log_budget_leaks:
  "let s = log_enqueue level (replicate kMaxPendingBytes c) False log_sink_new in
     ls_pending s = [] \<and> flush_returns s \<and>
     (line = [] \<or> log_enqueue level' line allocated s =
        s\<lparr>ls_calls := ls_calls s + 1, ls_dropped := ls_dropped s + 1\<rparr>)"
  by (auto simp: log_enqueue_def Let_def log_sink_new_def flush_returns_def kMaxPendingLines_def)

end
