(* ===== verification/Amqp_Connection.thy ===== *)
theory Amqp_Connection
  imports Motus_Prelude
begin

text \<open>
  The blocking AMQP connection: class \<open>AmqpConnection\<close> of \<open>include/motus/AmqpConnection.hpp\<close>.
  What it is built on is a parameter: the protocol library (its parser over a state \<open>'p\<close>, which
  answers bytes with the callbacks \<open>'c\<close> it makes and the number of bytes consumed) is the record
  \<open>amqp_library\<close>; what the operating system and the peer do is the record \<open>net\<close> of scripts,
  consumed entry by entry and completed by the default when exhausted. The clock appears as
  the number of rounds a wait has before its deadline. The state of whoever owns the
  connection is \<open>'x\<close>, so that a callback can act on it.
\<close>

section \<open>What is outside\<close>

datatype error_code =
  Eof | Operation_Aborted | Connection_Reset | Connection_Aborted | Broken_Pipe | Not_Connected
  | Other_Error

datatype read_outcome = Timed_Out | Read_Failed error_code string | Got string

text \<open>
  Name resolutions, connects and writes fail with a message or succeed (the default), reads
  time out by default, waits have no round left by default.
\<close>

record net =
  net_resolves :: "string option list"
  net_connects :: "string option list"
  net_writes :: "string option list"
  net_reads :: "read_outcome list"
  net_budgets :: "nat list"

definition quiet_net :: net where
  "quiet_net =
     \<lparr>net_resolves = [], net_connects = [], net_writes = [], net_reads = [], net_budgets = []\<rparr>"

fun pop :: "'a \<Rightarrow> 'a list \<Rightarrow> 'a \<times> 'a list" where
  "pop d [] = (d, [])"
| "pop d (x # xs) = (x, xs)"

record ('p, 'c) amqp_library =
  lib_is_literal :: "string \<Rightarrow> bool"
  lib_new :: "string \<Rightarrow> string \<Rightarrow> string \<Rightarrow> 'p"
  lib_header :: string
  lib_close :: string
  lib_parse :: "'p \<Rightarrow> string \<Rightarrow> 'c list \<times> nat \<times> 'p"

section \<open>State\<close>

record 'p amqp_connection =
  ac_host :: string
  ac_port :: u16
  ac_user :: string
  ac_password :: string
  ac_vhost :: string
  ac_open :: bool
  ac_inBuffer :: string
  ac_connection :: "'p option"
  ac_ready :: bool
  ac_closed :: bool
  ac_error :: string
  ac_bytesSent :: nat
  ac_bytesReceived :: nat

definition amqp_connection_new ::
  "string \<Rightarrow> u16 \<Rightarrow> string \<Rightarrow> string \<Rightarrow> string \<Rightarrow> 'p amqp_connection" where
  "amqp_connection_new host port user password vhost =
     \<lparr>ac_host = host, ac_port = port, ac_user = user, ac_password = password, ac_vhost = vhost,
      ac_open = False, ac_inBuffer = [], ac_connection = None, ac_ready = False,
      ac_closed = False, ac_error = [], ac_bytesSent = 0, ac_bytesReceived = 0\<rparr>"

definition ac_is_ready :: "'p amqp_connection \<Rightarrow> bool" where
  "ac_is_ready c \<longleftrightarrow> ac_ready c \<and> \<not> ac_closed c"

record ('p, 'x) session =
  s_conn :: "'p amqp_connection"
  s_net :: net
  s_rest :: 'x

definition set_conn ::
  "('p amqp_connection \<Rightarrow> 'p amqp_connection) \<Rightarrow> ('p, 'x) session \<Rightarrow> ('p, 'x) session" where
  "set_conn f s = s\<lparr>s_conn := f (s_conn s)\<rparr>"

definition set_closed :: "('p, 'x) session \<Rightarrow> ('p, 'x) session" where
  "set_closed = set_conn (\<lambda>c. c\<lparr>ac_closed := True\<rparr>)"

section \<open>The handler of the library\<close>

definition onData :: "string \<Rightarrow> ('p, 'x) session \<Rightarrow> unit result \<times> ('p, 'x) session" where
  "onData bytes s =
     (let s1 = set_conn (\<lambda>c. c\<lparr>ac_bytesSent := ac_bytesSent c + length bytes\<rparr>) s in
      case pop None (net_writes (s_net s1)) of
        (ec, writes) \<Rightarrow>
          (let s2 = s1\<lparr>s_net := (s_net s1)\<lparr>net_writes := writes\<rparr>\<rparr> in
           case ec of
             None \<Rightarrow> (Inr (), s2)
           | Some message \<Rightarrow>
               if ac_closed (s_conn s2) then (Inr (), set_closed s2)
               else (Inl (Runtime_Error (''socket write failed: '' @ message)), set_closed s2)))"

definition onReady :: "('p, 'x) session \<Rightarrow> ('p, 'x) session" where
  "onReady = set_conn (\<lambda>c. c\<lparr>ac_ready := True\<rparr>)"

definition onError :: "string option \<Rightarrow> ('p, 'x) session \<Rightarrow> ('p, 'x) session" where
  "onError message =
     set_conn (\<lambda>c. c\<lparr>ac_error := (case message of None \<Rightarrow> ''unknown protocol error'' | Some m \<Rightarrow> m)\<rparr>)"

definition onClosed :: "('p, 'x) session \<Rightarrow> ('p, 'x) session" where
  "onClosed = set_closed"

section \<open>Reading and waiting\<close>

definition clean_end :: "error_code \<Rightarrow> bool" where
  "clean_end ec \<longleftrightarrow>
     ec \<in> {Eof, Operation_Aborted, Connection_Reset, Connection_Aborted, Broken_Pipe, Not_Connected}"

text \<open>The callbacks of one \<open>parse\<close>, up to the first that throws.\<close>

fun run_callbacks ::
  "('c \<Rightarrow> ('p, 'x) session \<Rightarrow> unit result \<times> ('p, 'x) session) \<Rightarrow> 'c list \<Rightarrow> ('p, 'x) session
     \<Rightarrow> unit result \<times> ('p, 'x) session" where
  "run_callbacks run [] s = (Inr (), s)"
| "run_callbacks run (c # cs) s =
     (case run c s of
        (Inl e, s1) \<Rightarrow> (Inl e, s1)
      | (Inr _, s1) \<Rightarrow> run_callbacks run cs s1)"

text \<open>
  Bytes can only come over a connected socket, hence when the protocol connection exists; the
  model ends the wait if a script says otherwise.
\<close>

definition pumpOnce ::
  "('p, 'c) amqp_library \<Rightarrow> ('c \<Rightarrow> ('p, 'x) session \<Rightarrow> unit result \<times> ('p, 'x) session)
     \<Rightarrow> ('p, 'x) session \<Rightarrow> bool result \<times> ('p, 'x) session" where
  "pumpOnce lib run s =
     (case pop Timed_Out (net_reads (s_net s)) of
        (outcome, reads) \<Rightarrow>
          (let s1 = s\<lparr>s_net := (s_net s)\<lparr>net_reads := reads\<rparr>\<rparr> in
           case outcome of
             Timed_Out \<Rightarrow> (Inr False, s1)
           | Read_Failed ec message \<Rightarrow>
               if clean_end ec then (Inr False, set_closed s1)
               else (Inl (Runtime_Error (''socket read failed: '' @ message)), set_closed s1)
           | Got bytes \<Rightarrow>
               (let s2 = set_conn (\<lambda>c. c\<lparr>ac_bytesReceived := ac_bytesReceived c + length bytes,
                                        ac_inBuffer := ac_inBuffer c @ bytes\<rparr>) s1 in
                case ac_connection (s_conn s2) of
                  None \<Rightarrow> (Inr False, s2)
                | Some p \<Rightarrow>
                    (case lib_parse lib p (ac_inBuffer (s_conn s2)) of
                       (callbacks, consumed, p1) \<Rightarrow>
                         (case run_callbacks run callbacks
                                 (set_conn (\<lambda>c. c\<lparr>ac_connection := Some p1\<rparr>) s2) of
                            (Inl e, s3) \<Rightarrow> (Inl e, s3)
                          | (Inr _, s3) \<Rightarrow>
                              (Inr True,
                               set_conn (\<lambda>c. c\<lparr>ac_inBuffer := drop consumed (ac_inBuffer c)\<rparr>) s3))))))"

text \<open>\<open>pumpUntil\<close>; the number is how often the deadline is not yet reached.\<close>

fun pumpUntil ::
  "('p, 'c) amqp_library \<Rightarrow> ('c \<Rightarrow> ('p, 'x) session \<Rightarrow> unit result \<times> ('p, 'x) session)
     \<Rightarrow> (('p, 'x) session \<Rightarrow> bool) \<Rightarrow> nat \<Rightarrow> ('p, 'x) session \<Rightarrow> bool result \<times> ('p, 'x) session" where
  "pumpUntil lib run predicate 0 s = (Inr (predicate s), s)"
| "pumpUntil lib run predicate (Suc n) s =
     (if predicate s then (Inr True, s)
      else
        (case pumpOnce lib run s of
           (Inl e, s1) \<Rightarrow> (Inl e, s1)
         | (Inr False, s1) \<Rightarrow> (Inr (predicate s1), s1)
         | (Inr True, s1) \<Rightarrow> pumpUntil lib run predicate n s1))"

definition wait_for ::
  "('p, 'c) amqp_library \<Rightarrow> ('c \<Rightarrow> ('p, 'x) session \<Rightarrow> unit result \<times> ('p, 'x) session)
     \<Rightarrow> (('p, 'x) session \<Rightarrow> bool) \<Rightarrow> ('p, 'x) session \<Rightarrow> bool result \<times> ('p, 'x) session" where
  "wait_for lib run predicate s =
     (case pop 0 (net_budgets (s_net s)) of
        (n, budgets) \<Rightarrow>
          pumpUntil lib run predicate n (s\<lparr>s_net := (s_net s)\<lparr>net_budgets := budgets\<rparr>\<rparr>))"

section \<open>Opening and closing\<close>

definition msg_unresolved :: "string \<Rightarrow> string \<Rightarrow> string" where
  "msg_unresolved host reason =
     ''cannot resolve '' @ quoted host @ '': '' @ reason @
     '' (pass an IP literal such as 127.0.0.1 instead -- restrictive DNS policy'' @
     '' can break even localhost lookups)''"

definition msg_unreachable :: "string \<Rightarrow> u16 \<Rightarrow> string \<Rightarrow> string" where
  "msg_unreachable host port reason =
     ''cannot reach broker at '' @ host @ '':'' @ to_string (unat port) @ '' -- '' @ reason @
     '' (is rabbitmq-server.bat running?)''"

definition msg_rejected :: "string \<Rightarrow> string \<Rightarrow> string" where
  "msg_rejected reason vhost =
     ''AMQP handshake rejected: '' @ reason @
     '' (check credentials and vhost '' @ quoted vhost @ '')''"

definition msg_closed_in_handshake :: string where
  "msg_closed_in_handshake = ''broker closed the connection during handshake''"

definition msg_handshake_timeout :: "string \<Rightarrow> string" where
  "msg_handshake_timeout host = ''timed out waiting for AMQP handshake from '' @ host"

text \<open>The TCP connection: \<open>Inl\<close> the exception.\<close>

definition tcp_connect :: "('p, 'c) amqp_library \<Rightarrow> ('p, 'x) session \<Rightarrow> unit result \<times> ('p, 'x) session" where
  "tcp_connect lib s =
     (let c = s_conn s in
      case (if lib_is_literal lib (ac_host c) then (None, net_resolves (s_net s))
            else pop None (net_resolves (s_net s))) of
        (Some reason, resolves) \<Rightarrow>
          (Inl (Runtime_Error (msg_unresolved (ac_host c) reason)),
           s\<lparr>s_net := (s_net s)\<lparr>net_resolves := resolves\<rparr>\<rparr>)
      | (None, resolves) \<Rightarrow>
          (case pop None (net_connects (s_net s)) of
             (ec, connects) \<Rightarrow>
               (let s1 = s\<lparr>s_net := (s_net s)\<lparr>net_resolves := resolves, net_connects := connects\<rparr>\<rparr> in
                case ec of
                  Some reason \<Rightarrow>
                    (Inl (Runtime_Error (msg_unreachable (ac_host c) (ac_port c) reason)), s1)
                | None \<Rightarrow> (Inr (), set_conn (\<lambda>c. c\<lparr>ac_open := True\<rparr>) s1))))"

definition handshake_settled :: "('p, 'x) session \<Rightarrow> bool" where
  "handshake_settled s \<longleftrightarrow>
     ac_ready (s_conn s) \<or> ac_error (s_conn s) \<noteq> [] \<or> ac_closed (s_conn s)"

definition connect ::
  "('p, 'c) amqp_library \<Rightarrow> ('c \<Rightarrow> ('p, 'x) session \<Rightarrow> unit result \<times> ('p, 'x) session)
     \<Rightarrow> ('p, 'x) session \<Rightarrow> unit result \<times> ('p, 'x) session" where
  "connect lib run s =
     (case tcp_connect lib s of
        (Inl e, s1) \<Rightarrow> (Inl e, s1)
      | (Inr _, s1) \<Rightarrow>
          (case onData (lib_header lib) s1 of
             (Inl e, s2) \<Rightarrow> (Inl e, s2)
           | (Inr _, s2) \<Rightarrow>
               (let c = s_conn s2;
                    s3 = set_conn (\<lambda>c. c\<lparr>ac_connection :=
                           Some (lib_new lib (ac_user c) (ac_password c) (ac_vhost c))\<rparr>) s2 in
                case wait_for lib run handshake_settled s3 of
                  (Inl e, s4) \<Rightarrow> (Inl e, s4)
                | (Inr settled, s4) \<Rightarrow>
                    let c4 = s_conn s4 in
                    if ac_error c4 \<noteq> []
                    then (Inl (Runtime_Error (msg_rejected (ac_error c4) (ac_vhost c4))), s4)
                    else if ac_closed c4 then (Inl (Runtime_Error msg_closed_in_handshake), s4)
                    else if \<not> settled \<or> \<not> ac_ready c4
                    then (Inl (Runtime_Error (msg_handshake_timeout (ac_host c4))), s4)
                    else (Inr (), s4))))"

definition close ::
  "('p, 'c) amqp_library \<Rightarrow> ('c \<Rightarrow> ('p, 'x) session \<Rightarrow> unit result \<times> ('p, 'x) session)
     \<Rightarrow> ('p, 'x) session \<Rightarrow> unit result \<times> ('p, 'x) session" where
  "close lib run s =
     (let shut = (\<lambda>s. (Inr (), set_conn (\<lambda>c. c\<lparr>ac_open := False\<rparr>) s)) in
      if ac_connection (s_conn s) \<noteq> None \<and> \<not> ac_closed (s_conn s)
      then
        (case onData (lib_close lib) s of
           (Inl e, s1) \<Rightarrow> (Inl e, s1)
         | (Inr _, s1) \<Rightarrow>
             (case wait_for lib run (\<lambda>s. ac_closed (s_conn s)) s1 of
                (Inl e, s2) \<Rightarrow> (Inl e, s2)
              | (Inr _, s2) \<Rightarrow> shut s2))
      else shut s)"

text \<open>The destructor swallows what \<open>close\<close> throws.\<close>

definition destroy ::
  "('p, 'c) amqp_library \<Rightarrow> ('c \<Rightarrow> ('p, 'x) session \<Rightarrow> unit result \<times> ('p, 'x) session)
     \<Rightarrow> ('p, 'x) session \<Rightarrow> ('p, 'x) session" where
  "destroy lib run s = snd (close lib run s)"

section \<open>The identity announced to the broker\<close>

text \<open>The generated version header is a parameter.\<close>

record version_info =
  versionString :: string
  kVersion :: string
  kCommit :: string
  kCommitDate :: string
  kProvenance :: string

definition applyMotusClientProperties ::
  "version_info \<Rightarrow> (string, string) omap \<Rightarrow> (string, string) omap" where
  "applyMotusClientProperties v client =
     (let existing = (case map_of client ''connection_name'' of None \<Rightarrow> [] | Some n \<Rightarrow> n) in
      om_update ''connection_name''
        (if existing = [] then versionString v else existing @ '' | '' @ versionString v)
      (om_update ''motus_provenance'' (kProvenance v)
      (om_update ''motus_commit_date'' (kCommitDate v)
      (om_update ''motus_commit'' (kCommit v)
      (om_update ''information'' ''https://github.com/mertefesensoy/motus''
      (om_update ''version'' (kVersion v)
      (om_update ''product'' ''motus'' client)))))))"

end
