(* ===== verification/Amqp_Connection_Props.thy ===== *)
theory Amqp_Connection_Props
  imports Amqp_Connection
begin

text \<open>
  Properties of the AMQP connection: frames come through whatever the fragmentation of the
  stream, a failed write is an exception only while the connection is believed live, a
  successful \<open>connect\<close> leaves a usable connection, and \<open>ready\<close> after an unanswered \<open>close\<close>.
\<close>

section \<open>Lemmas\<close>

lemma set_conn_sel [simp]:
  "s_conn (set_conn f s) = f (s_conn s)" "s_net (set_conn f s) = s_net s"
  "s_rest (set_conn f s) = s_rest s"
  by (simp_all add: set_conn_def)

lemma set_closed_sel [simp]:
  "s_conn (set_closed s) = (s_conn s)\<lparr>ac_closed := True\<rparr>" "s_net (set_closed s) = s_net s"
  "s_rest (set_closed s) = s_rest s"
  by (simp_all add: set_closed_def)

lemma onData_closed:
  "onData bytes s = (r, s') \<Longrightarrow> ac_closed (s_conn s) \<Longrightarrow> r = Inr () \<and> ac_closed (s_conn s')"
  by (auto simp: onData_def Let_def split: prod.splits option.splits)

lemma onData_rest: "s_rest (snd (onData bytes s)) = s_rest s"
  by (simp add: onData_def Let_def split: prod.split option.split)

lemma onData_conn:
  "ac_ready (s_conn (snd (onData bytes s))) = ac_ready (s_conn s)"
  "ac_connection (s_conn (snd (onData bytes s))) = ac_connection (s_conn s)"
  "ac_open (s_conn (snd (onData bytes s))) = ac_open (s_conn s)"
  "ac_error (s_conn (snd (onData bytes s))) = ac_error (s_conn s)"
  by (simp_all add: onData_def Let_def split: prod.split option.split)

lemma onData_quiet:
  "net_writes (s_net s) = [] \<Longrightarrow>
     onData bytes s = (Inr (), (set_conn (\<lambda>c. c\<lparr>ac_bytesSent := ac_bytesSent c + length bytes\<rparr>) s))"
  by (simp add: onData_def Let_def set_conn_def)

text \<open>What \<open>AMQP::Connection::parse\<close> does: only whole frames are consumed, the rest is left for later.\<close>

definition framed :: "('p \<Rightarrow> string \<Rightarrow> 'c list \<times> nat \<times> 'p) \<Rightarrow> bool" where
  "framed parse \<longleftrightarrow>
     (\<forall>p xs ys. case parse p xs of (cs, n, p1) \<Rightarrow>
        n \<le> length xs \<and>
        parse p (xs @ ys) =
          (case parse p1 (drop n xs @ ys) of (ds, k, p2) \<Rightarrow> (cs @ ds, n + k, p2)))"

lemma framedD:
  assumes "framed parse" "parse p xs = (cs, n, p1)"
  shows "n \<le> length xs \<and>
    parse p (xs @ ys) = (case parse p1 (drop n xs @ ys) of (ds, k, p2) \<Rightarrow> (cs @ ds, n + k, p2))"
proof -
  have "case parse p xs of (cs, n, p1) \<Rightarrow> n \<le> length xs \<and> parse p (xs @ ys) =
      (case parse p1 (drop n xs @ ys) of (ds, k, p2) \<Rightarrow> (cs @ ds, n + k, p2))"
    by (rule assms(1) [unfolded framed_def, THEN spec, THEN spec, THEN spec])
  then show ?thesis by (simp add: assms(2))
qed

lemma framed_left:
  assumes "framed parse" "parse p xs = (cs, n, p1)"
  shows "parse p1 (drop n xs) = ([], 0, p1)"
  using framedD [OF assms, of "[]"] assms(2) by (auto split: prod.splits)

text \<open>
  Callbacks that act on the owner's state \<open>'x\<close> by \<open>g\<close>, on the connection at most by counting bytes,
  and never throw: those that are \<open>accepted\<close>, while \<open>I\<close> holds of the owner and \<open>N\<close> of the world.
\<close>

locale streaming =
  fixes run :: "'c \<Rightarrow> ('p, 'x) session \<Rightarrow> unit result \<times> ('p, 'x) session"
    and accepted :: "'c \<Rightarrow> bool" and I :: "'x \<Rightarrow> bool" and N :: "net \<Rightarrow> bool" and g :: "'c \<Rightarrow> 'x \<Rightarrow> 'x"
  assumes accept: "accepted c \<Longrightarrow> I (s_rest s) \<Longrightarrow> N (s_net s) \<Longrightarrow>
      \<exists>b. run c s = (Inr (), s\<lparr>s_conn := (s_conn s)\<lparr>ac_bytesSent := b\<rparr>, s_rest := g c (s_rest s)\<rparr>)"
    and keep: "accepted c \<Longrightarrow> I x \<Longrightarrow> I (g c x)"
    and reads: "N n \<Longrightarrow> N (n\<lparr>net_reads := rs\<rparr>)"
begin

lemma keep_all: "list_all accepted cs \<Longrightarrow> I x \<Longrightarrow> I (fold g cs x)"
  by (induction cs arbitrary: x) (simp_all add: keep)

lemma accept_all:
  "list_all accepted cs \<Longrightarrow> I (s_rest s) \<Longrightarrow> N (s_net s) \<Longrightarrow>
     \<exists>b. run_callbacks run cs s =
       (Inr (), s\<lparr>s_conn := (s_conn s)\<lparr>ac_bytesSent := b\<rparr>, s_rest := fold g cs (s_rest s)\<rparr>)"
proof (induction cs arbitrary: s)
  case Nil
  show ?case by (intro exI [of _ "ac_bytesSent (s_conn s)"]) simp
next
  case (Cons c cs)
  let ?s = "\<lambda>b. s\<lparr>s_conn := (s_conn s)\<lparr>ac_bytesSent := b\<rparr>, s_rest := g c (s_rest s)\<rparr>"
  obtain b where b: "run c s = (Inr (), ?s b)" using accept [of c s] Cons.prems by auto
  have "\<exists>b'. run_callbacks run cs (?s b) = (Inr (), (?s b)\<lparr>s_conn := (s_conn (?s b))\<lparr>ac_bytesSent := b'\<rparr>,
      s_rest := fold g cs (s_rest (?s b))\<rparr>)"
    using Cons.prems keep [of c "s_rest s"] by (intro Cons.IH) simp_all
  with b show ?case by simp
qed

lemma pumpOnce_accepts:
  assumes "net_reads (s_net s) = Got bytes # rs" "ac_connection (s_conn s) = Some p"
    and "lib_parse lib p (ac_inBuffer (s_conn s) @ bytes) = (cs, n, p1)"
    and "list_all accepted cs" "I (s_rest s)" "N (s_net s)"
  shows "\<exists>s'. pumpOnce lib run s = (Inr True, s') \<and> s_rest s' = fold g cs (s_rest s) \<and>
    s_net s' = (s_net s)\<lparr>net_reads := rs\<rparr> \<and> ac_closed (s_conn s') = ac_closed (s_conn s) \<and>
    ac_connection (s_conn s') = Some p1 \<and>
    ac_inBuffer (s_conn s') = drop n (ac_inBuffer (s_conn s) @ bytes)"
proof -
  let ?s = "set_conn (\<lambda>c. c\<lparr>ac_connection := Some p1\<rparr>)
    (set_conn (\<lambda>c. c\<lparr>ac_bytesReceived := ac_bytesReceived c + length bytes,
       ac_inBuffer := ac_inBuffer c @ bytes\<rparr>) (s\<lparr>s_net := (s_net s)\<lparr>net_reads := rs\<rparr>\<rparr>))"
  obtain b where "run_callbacks run cs ?s =
      (Inr (), ?s\<lparr>s_conn := (s_conn ?s)\<lparr>ac_bytesSent := b\<rparr>, s_rest := fold g cs (s_rest ?s)\<rparr>)"
    using accept_all [of cs ?s] assms(4-6) reads by auto
  then show ?thesis using assms(1-3) by (simp add: pumpOnce_def Let_def)
qed

text \<open>
  The bytes of the peer in any pieces, and a wait that lasts long enough to read them all and ends
  then, or when a read times out.
\<close>

lemma pumpUntil_accepts:
  assumes "framed (lib_parse lib)" "ac_connection (s_conn s) = Some p"
    and "lib_parse lib p (ac_inBuffer (s_conn s)) = ([], 0, p)"
    and "net_reads (s_net s) = map Got chunks @ rs" "m = 0 \<or> rs = [] \<or> hd rs = Timed_Out"
    and "lib_parse lib p (ac_inBuffer (s_conn s) @ concat chunks) = (cs, k, p')"
    and "list_all accepted cs" "I (s_rest s)" "N (s_net s)"
  shows "\<exists>s'. pumpUntil lib run (\<lambda>_. False) (length chunks + m) s = (Inr False, s') \<and>
    s_rest s' = fold g cs (s_rest s) \<and> ac_closed (s_conn s') = ac_closed (s_conn s) \<and>
    s_net s' = (s_net s)\<lparr>net_reads := if m = 0 then rs else tl rs\<rparr> \<and> ac_connection (s_conn s') = Some p' \<and>
    ac_inBuffer (s_conn s') = drop k (ac_inBuffer (s_conn s) @ concat chunks)"
  using assms(2-9)
proof (induction chunks arbitrary: s p cs k)
  case Nil
  have "pop Timed_Out rs = (Timed_Out, tl rs)" if "rs = [] \<or> hd rs = Timed_Out"
    using that by (cases rs) simp_all
  then have "pumpUntil lib run (\<lambda>_. False) m s = (Inr False, s\<lparr>s_net := (s_net s)\<lparr>net_reads := tl rs\<rparr>\<rparr>)" if "m \<noteq> 0"
    using Nil.prems(3,4) that by (cases m) (simp_all add: pumpOnce_def)
  with Nil.prems show ?case by (cases "m = 0") simp_all
next
  case (Cons chunk chunks)
  let ?b = "ac_inBuffer (s_conn s) @ chunk"
  obtain cs1 n1 p1 where one: "lib_parse lib p ?b = (cs1, n1, p1)" by (metis prod_cases3)
  obtain cs2 n2 p2 where two: "lib_parse lib p1 (drop n1 ?b @ concat chunks) = (cs2, n2, p2)"
    by (metis prod_cases3)
  have fr: "n1 \<le> length ?b \<and> lib_parse lib p (?b @ ys) =
      (case lib_parse lib p1 (drop n1 ?b @ ys) of (ds, j, q) \<Rightarrow> (cs1 @ ds, n1 + j, q))" for ys
    by (rule framedD [OF assms(1) one])
  have all: "cs = cs1 @ cs2" "k = n1 + n2" "p' = p2" "n1 \<le> length ?b"
    using fr [of "concat chunks"] two Cons.prems(5) by simp_all
  note left = framed_left [OF assms(1) one]
  have read: "net_reads (s_net s) = Got chunk # map Got chunks @ rs" using Cons.prems(3) by simp
  obtain s1 where s1: "pumpOnce lib run s = (Inr True, s1)" "s_rest s1 = fold g cs1 (s_rest s)"
    "s_net s1 = (s_net s)\<lparr>net_reads := map Got chunks @ rs\<rparr>" "ac_closed (s_conn s1) = ac_closed (s_conn s)"
    "ac_connection (s_conn s1) = Some p1" "ac_inBuffer (s_conn s1) = drop n1 ?b"
    using pumpOnce_accepts [OF read Cons.prems(1) one _ Cons.prems(7,8)] Cons.prems(6) all(1) by auto
  have more: "I (s_rest s1)" "N (s_net s1)"
    using s1(2,3) Cons.prems(6-8) all(1) keep_all [of cs1 "s_rest s"] reads by simp_all
  obtain s' where s': "pumpUntil lib run (\<lambda>_. False) (length chunks + m) s1 = (Inr False, s')"
    "s_rest s' = fold g cs2 (s_rest s1)" "ac_closed (s_conn s') = ac_closed (s_conn s1)"
    "s_net s' = (s_net s1)\<lparr>net_reads := if m = 0 then rs else tl rs\<rparr>" "ac_connection (s_conn s') = Some p'" "ac_inBuffer (s_conn s') = drop n2 (drop n1 ?b @ concat chunks)"
    using Cons.IH [OF s1(5), of cs2 n2] s1(3,6) left two all Cons.prems(4,6) more by auto
  have "drop n1 ?b @ concat chunks = drop n1 (?b @ concat chunks)"
    using all(4) by (simp only: drop_append) simp
  then have "ac_inBuffer (s_conn s') = drop k (ac_inBuffer (s_conn s) @ concat (chunk # chunks))"
    using s'(6) all(2) by (simp only: drop_drop concat.simps append_assoc add.commute)
  with s' s1 all show ?case by simp
qed

end

text \<open>Callbacks that are only recorded.\<close>

definition note_callback :: "'c \<Rightarrow> ('p, 'c list) session \<Rightarrow> unit result \<times> ('p, 'c list) session" where
  "note_callback c s = (Inr (), s\<lparr>s_rest := s_rest s @ [c]\<rparr>)"

lemma note_callback_accepted:
  "\<exists>b. note_callback c s = (Inr (), s\<lparr>s_conn := (s_conn s)\<lparr>ac_bytesSent := b\<rparr>, s_rest := s_rest s @ [c]\<rparr>)"
  by (intro exI [of _ "ac_bytesSent (s_conn s)"]) (simp add: note_callback_def)

interpretation noting: streaming note_callback "\<lambda>_. True" "\<lambda>_. True" "\<lambda>_. True" "\<lambda>c cs. cs @ [c]"
  by unfold_locales (rule note_callback_accepted, rule TrueI, rule TrueI)

lemma fold_snoc: "fold (\<lambda>c cs. cs @ [c]) cs ds = ds @ cs"
  by (induction cs arbitrary: ds) simp_all

lemma pumpUntil_closed_predicate:
  "pumpUntil lib run P n s = (Inr b, s') \<Longrightarrow> b = P s'"
  by (induction n arbitrary: s) (auto split: if_splits prod.splits sum.splits bool.splits)

section \<open>What holds across every operation\<close>

text \<open>
  A relation between sessions that allows changes of the connection, the consumption of the
  scripts, and every callback, holds across every operation of the connection. \<open>later\<close> says that
  writes were only consumed.
\<close>

definition later :: "net \<Rightarrow> net \<Rightarrow> bool" where
  "later n n' \<longleftrightarrow> (\<exists>k. net_writes n' = drop k (net_writes n))"

lemma later_same [simp]: "net_writes n' = net_writes n \<Longrightarrow> later n n'"
  unfolding later_def by (metis drop0)

lemma later_pop: "pop d (net_writes n) = (w, ws) \<Longrightarrow> net_writes n' = ws \<Longrightarrow> later n n'"
proof (cases "net_writes n")
  case (Cons x xs)
  moreover assume "pop d (net_writes n) = (w, ws)" "net_writes n' = ws"
  ultimately have "net_writes n' = drop 1 (net_writes n)" by simp
  then show ?thesis unfolding later_def by blast
qed (auto simp: later_def)

locale session_relation =
  fixes R :: "('p, 'x) session \<Rightarrow> ('p, 'x) session \<Rightarrow> bool"
    and run :: "'c \<Rightarrow> ('p, 'x) session \<Rightarrow> unit result \<times> ('p, 'x) session"
  assumes rel_refl: "R s s"
    and rel_trans: "R s t \<Longrightarrow> R t u \<Longrightarrow> R s u"
    and rel_conn: "R s (set_conn f s)"
    and rel_net: "later (s_net s) n \<Longrightarrow> R s (s\<lparr>s_net := n\<rparr>)"
    and rel_run: "run c s = (r, s') \<Longrightarrow> R s s'"
begin

lemma rel_conn_after: "R s t \<Longrightarrow> R s (set_conn f t)"
  by (rule rel_trans [OF _ rel_conn])

lemma rel_closed_after: "R s t \<Longrightarrow> R s (set_closed t)"
  unfolding set_closed_def by (rule rel_conn_after)

lemma rel_net_after: "R s t \<Longrightarrow> later (s_net t) n \<Longrightarrow> R s (t\<lparr>s_net := n\<rparr>)"
  by (rule rel_trans [OF _ rel_net])

lemma rel_onData:
  assumes "onData bytes s = (r, s')"
  shows "R s s'"
proof -
  let ?s = "set_conn (\<lambda>c. c\<lparr>ac_bytesSent := ac_bytesSent c + length bytes\<rparr>) s"
  obtain w ws where w: "pop None (net_writes (s_net ?s)) = (w, ws)" by fastforce
  let ?t = "?s\<lparr>s_net := (s_net ?s)\<lparr>net_writes := ws\<rparr>\<rparr>"
  have t: "R s ?t" by (rule rel_net_after [OF rel_conn later_pop [OF w]]) simp
  moreover have "s' = ?t \<or> s' = set_closed ?t"
    using assms w by (auto simp: onData_def Let_def split: option.splits if_splits)
  ultimately show ?thesis using rel_closed_after [OF t] by blast
qed

lemma rel_run_callbacks: "run_callbacks run cs s = (r, s') \<Longrightarrow> R s s'"
proof (induction cs arbitrary: s)
  case (Cons c cs)
  obtain x t where c: "run c s = (x, t)" by fastforce
  show ?case
  proof (cases x)
    case (Inr u)
    with Cons.prems c have "run_callbacks run cs t = (r, s')" by simp
    from rel_trans [OF rel_run [OF c] Cons.IH [OF this]] show ?thesis .
  qed (use Cons.prems c rel_run [OF c] in simp)
qed (simp add: rel_refl)

lemma rel_pumpOnce:
  assumes "pumpOnce lib run s = (r, s')"
  shows "R s s'"
proof -
  obtain outcome reads where o: "pop Timed_Out (net_reads (s_net s)) = (outcome, reads)" by fastforce
  let ?t = "s\<lparr>s_net := (s_net s)\<lparr>net_reads := reads\<rparr>\<rparr>"
  have t: "R s ?t" by (rule rel_net) simp
  show ?thesis
  proof (cases outcome)
    case Timed_Out
    with assms o t show ?thesis by (simp add: pumpOnce_def)
  next
    case (Read_Failed ec m)
    with assms o rel_closed_after [OF t] show ?thesis
      by (auto simp: pumpOnce_def Let_def split: if_splits)
  next
    case (Got bytes)
    let ?u = "set_conn (\<lambda>c. c\<lparr>ac_bytesReceived := ac_bytesReceived c + length bytes,
      ac_inBuffer := ac_inBuffer c @ bytes\<rparr>) ?t"
    have u: "R s ?u" by (rule rel_conn_after [OF t])
    show ?thesis
    proof (cases "ac_connection (s_conn ?u)")
      case None
      with assms o Got u show ?thesis by (simp add: pumpOnce_def)
    next
      case (Some p)
      obtain cs n p1 where p: "lib_parse lib p (ac_inBuffer (s_conn ?u)) = (cs, n, p1)"
        by (rule prod_cases3) (rule that)
      let ?v = "set_conn (\<lambda>c. c\<lparr>ac_connection := Some p1\<rparr>) ?u"
      obtain x w where w: "run_callbacks run cs ?v = (x, w)" by fastforce
      have "R s w" by (rule rel_trans [OF rel_conn_after [OF u] rel_run_callbacks [OF w]])
      moreover have "s' = w \<or> s' = set_conn (\<lambda>c. c\<lparr>ac_inBuffer := drop n (ac_inBuffer c)\<rparr>) w"
        using assms o Got Some p w by (simp add: pumpOnce_def Let_def split: sum.splits)
      ultimately show ?thesis using rel_conn_after by blast
    qed
  qed
qed

lemma rel_pumpUntil: "pumpUntil lib run P n s = (r, s') \<Longrightarrow> R s s'"
proof (induction n arbitrary: s)
  case (Suc n)
  obtain x t where p: "pumpOnce lib run s = (x, t)" by fastforce
  note t = rel_pumpOnce [OF p]
  show ?case
  proof (cases "P s \<or> x \<noteq> Inr True")
    case True
    with Suc.prems p t rel_refl show ?thesis by (auto split: if_splits sum.splits bool.splits)
  next
    case False
    with Suc.prems p have "pumpUntil lib run P n t = (r, s')" by auto
    from rel_trans [OF t Suc.IH [OF this]] show ?thesis .
  qed
qed (simp add: rel_refl)

lemma rel_wait_for:
  assumes "wait_for lib run P s = (r, s')"
  shows "R s s'"
proof -
  obtain n bs where n: "pop 0 (net_budgets (s_net s)) = (n, bs)" by fastforce
  have "R s (s\<lparr>s_net := (s_net s)\<lparr>net_budgets := bs\<rparr>\<rparr>)" by (rule rel_net) simp
  from rel_trans [OF this rel_pumpUntil] show ?thesis using assms n by (simp add: wait_for_def)
qed

lemma rel_tcp_connect:
  assumes "tcp_connect lib s = (r, s')"
  shows "R s s'"
proof -
  let ?c = "s_conn s"
  obtain x resolves where x: "(if lib_is_literal lib (ac_host ?c) then (None, net_resolves (s_net s))
      else pop None (net_resolves (s_net s))) = (x, resolves)" by fastforce
  obtain y connects where y: "pop None (net_connects (s_net s)) = (y, connects)" by fastforce
  let ?n = "(s_net s)\<lparr>net_resolves := resolves\<rparr>"
  have "s' = s\<lparr>s_net := ?n\<rparr> \<or> s' = s\<lparr>s_net := ?n\<lparr>net_connects := connects\<rparr>\<rparr> \<or>
    s' = set_conn (\<lambda>c. c\<lparr>ac_open := True\<rparr>) (s\<lparr>s_net := ?n\<lparr>net_connects := connects\<rparr>\<rparr>)"
    using assms unfolding tcp_connect_def Let_def x y by (auto split: option.splits)
  moreover have "R s (s\<lparr>s_net := ?n\<rparr>)" "R s (s\<lparr>s_net := ?n\<lparr>net_connects := connects\<rparr>\<rparr>)"
    by (simp_all add: rel_net)
  ultimately show ?thesis using rel_conn_after by blast
qed

lemma rel_connect:
  assumes "connect lib run s = (r, s')"
  shows "R s s'"
proof -
  obtain x s1 where 1: "tcp_connect lib s = (x, s1)" by fastforce
  obtain y s2 where 2: "onData (lib_header lib) s1 = (y, s2)" by fastforce
  let ?s3 = "set_conn (\<lambda>c. c\<lparr>ac_connection :=
    Some (lib_new lib (ac_user c) (ac_password c) (ac_vhost c))\<rparr>) s2"
  obtain z s4 where 4: "wait_for lib run handshake_settled ?s3 = (z, s4)" by fastforce
  have "s' = s1 \<or> s' = s2 \<or> s' = s4"
    using assms 1 2 4 by (auto simp: connect_def Let_def split: sum.splits if_splits)
  moreover have "R s s1" by (rule rel_tcp_connect [OF 1])
  moreover from this have "R s s2" by (rule rel_trans [OF _ rel_onData [OF 2]])
  moreover from this have "R s s4" by (rule rel_trans [OF rel_conn_after rel_wait_for [OF 4]])
  ultimately show ?thesis by blast
qed

lemma rel_close:
  assumes "close lib run s = (r, s')"
  shows "R s s'"
proof -
  obtain x s1 where 1: "onData (lib_close lib) s = (x, s1)" by fastforce
  obtain y s2 where 2: "wait_for lib run (\<lambda>s. ac_closed (s_conn s)) s1 = (y, s2)" by fastforce
  let ?shut = "set_conn (\<lambda>c. c\<lparr>ac_open := False\<rparr>)"
  have "s' = s1 \<or> s' = s2 \<or> s' = ?shut s2 \<or> s' = ?shut s"
    using assms 1 2 by (auto simp: close_def Let_def split: sum.splits if_splits)
  moreover have "R s s1" by (rule rel_onData [OF 1])
  moreover from this have "R s s2" by (rule rel_trans [OF _ rel_wait_for [OF 2]])
  ultimately show ?thesis using rel_conn rel_conn_after by blast
qed

lemma rel_destroy: "R s (destroy lib run s)"
  unfolding destroy_def by (rule rel_close) (rule prod.collapse [symmetric])

end

section \<open>Properties\<close>

text \<open>
  C11: no frame is lost, repeated or torn by fragmentation: however the peer's bytes are cut into
  reads, after servicing the socket the callbacks run and the bytes left over are those of
  parsing the whole stream at once.
\<close>

theorem pump_reassembles_frames:
  assumes "framed (lib_parse lib)" "ac_connection (s_conn s) = Some p"
    and "lib_parse lib p (ac_inBuffer (s_conn s)) = ([], 0, p)"
    and "net_reads (s_net s) = map Got chunks @ reads"
    and "lib_parse lib p (ac_inBuffer (s_conn s) @ concat chunks) = (cs, k, p')"
  shows "\<exists>s'. pumpUntil lib note_callback (\<lambda>_. False) (length chunks) s = (Inr False, s') \<and>
    s_rest s' = s_rest s @ cs \<and> ac_connection (s_conn s') = Some p' \<and>
    ac_inBuffer (s_conn s') = drop k (ac_inBuffer (s_conn s) @ concat chunks)"
  using noting.pumpUntil_accepts [OF assms(1-4) _ assms(5), of 0] by (auto simp: fold_snoc list_all_iff)

text \<open>Frames of two bytes.\<close>

fun pairs :: "unit \<Rightarrow> string \<Rightarrow> string list \<times> nat \<times> unit" where
  "pairs p (a # b # cs) = (case pairs p cs of (ds, k, q) \<Rightarrow> ([a, b] # ds, k + 2, q))"
| "pairs p cs = ([], 0, p)"

lemma framed_pairs: "framed pairs"
proof -
  have "case pairs p xs of (cs, n, p1) \<Rightarrow> n \<le> length xs \<and> pairs p (xs @ ys) =
      (case pairs p1 (drop n xs @ ys) of (ds, k, p2) \<Rightarrow> (cs @ ds, n + k, p2))" for p xs ys
    by (induction p xs rule: pairs.induct) (auto split: prod.splits)
  then show ?thesis by (simp add: framed_def)
qed

definition small_library :: "(unit, string) amqp_library" where
  "small_library =
     \<lparr>lib_is_literal = (\<lambda>_. True), lib_new = (\<lambda>_ _ _. ()), lib_header = ''AMQP'', lib_close = ''bye'',
      lib_parse = pairs\<rparr>"

definition small_session :: "read_outcome list \<Rightarrow> (unit, string list) session" where
  "small_session reads =
     \<lparr>s_conn = (amqp_connection_new ''h'' 5672 ''u'' ''p'' ''/'')
        \<lparr>ac_open := True, ac_connection := Some (), ac_ready := True\<rparr>,
      s_net = quiet_net\<lparr>net_reads := reads\<rparr>, s_rest = []\<rparr>"

lemma pump_reassembles_frames_witness:
  "\<exists>s'. pumpUntil small_library note_callback (\<lambda>_. False) 2
       (small_session (map Got [''abc'', ''de''])) = (Inr False, s') \<and>
     s_rest s' = [''ab'', ''cd''] \<and> ac_inBuffer (s_conn s') = ''e''"
  using pump_reassembles_frames [of small_library "small_session (map Got [''abc'', ''de''])" "()"
      "[''abc'', ''de'']" "[]" "[''ab'', ''cd'']" 4 "()"] framed_pairs
  by (simp add: small_library_def small_session_def amqp_connection_new_def quiet_net_def
      numeral_2_eq_2 del: pumpUntil.simps) blast

text \<open>
  A failed write is recorded as the end of the connection, and is thrown exactly when the
  connection was still believed live, so that what destructors write after the loss was
  noticed never throws.
\<close>

theorem onData_escalates_once:
  "onData bytes s =
    (let s' = s\<lparr>s_conn := (s_conn s)\<lparr>ac_bytesSent := ac_bytesSent (s_conn s) + length bytes,
                  ac_closed := ac_closed (s_conn s) \<or> fst (pop None (net_writes (s_net s))) \<noteq> None\<rparr>,
              s_net := (s_net s)\<lparr>net_writes := snd (pop None (net_writes (s_net s)))\<rparr>\<rparr> in
     case fst (pop None (net_writes (s_net s))) of
       None \<Rightarrow> (Inr (), s')
     | Some m \<Rightarrow> (if ac_closed (s_conn s) then Inr () else Inl (Runtime_Error (''socket write failed: '' @ m)), s'))"
  by (auto simp: onData_def Let_def set_closed_def set_conn_def split: prod.split option.split)

text \<open>
  A connect that returns leaves a connection that is usable right now: handshake complete,
  not closed, without a protocol error.
\<close>

theorem connect_leaves_ready:
  assumes "connect lib run s = (Inr (), s')"
  shows "ac_is_ready (s_conn s') \<and> ac_error (s_conn s') = []"
  using assms
  by (auto simp: connect_def Let_def ac_is_ready_def split: prod.splits sum.splits if_splits)

text \<open>A library whose only callback completes the handshake.\<close>

definition ready_callback :: "string \<Rightarrow> (unit, string list) session \<Rightarrow> unit result \<times> (unit, string list) session" where
  "ready_callback c s = (Inr (), onReady s)"

lemma connect_leaves_ready_witness:
  "\<exists>s'. connect small_library ready_callback
       \<lparr>s_conn = amqp_connection_new ''h'' 5672 ''u'' ''p'' ''/'',
        s_net = quiet_net\<lparr>net_reads := [Got ''ok''], net_budgets := [2]\<rparr>, s_rest = []\<rparr> = (Inr (), s') \<and>
     ac_is_ready (s_conn s')"
proof -
  let ?s = "\<lparr>s_conn = amqp_connection_new ''h'' 5672 ''u'' ''p'' ''/'',
    s_net = quiet_net\<lparr>net_reads := [Got ''ok''], net_budgets := [2]\<rparr>, s_rest = []\<rparr>
    :: (unit, string list) session"
  obtain s' where "connect small_library ready_callback ?s = (Inr (), s')"
    by (simp add: connect_def tcp_connect_def onData_def wait_for_def small_library_def
        quiet_net_def amqp_connection_new_def set_conn_def numeral_2_eq_2 handshake_settled_def
        pumpOnce_def ready_callback_def onReady_def Let_def)
  with connect_leaves_ready [OF this] show ?thesis by blast
qed

text \<open>
  \<open>ready\<close> after an unanswered \<open>close\<close>: when the broker does not confirm the close in time, the
  socket is closed but the connection still calls itself ready.
\<close>

theorem close_unanswered_stays_ready:
  assumes "ac_is_ready (s_conn s)" "ac_connection (s_conn s) = Some p"
    and "net_writes (s_net s) = []" "net_reads (s_net s) = []"
    and "close lib run s = (r, s')"
  shows "r = Inr () \<and> ac_is_ready (s_conn s') \<and> \<not> ac_open (s_conn s')"
proof -
  have "pumpUntil lib run (\<lambda>s. ac_closed (s_conn s)) n t = (Inr False, t)"
    if "net_reads (s_net t) = []" "\<not> ac_closed (s_conn t)" for n and t :: "('a, 'b) session"
    using that by (cases n) (simp_all add: pumpOnce_def Let_def)
  moreover have "net_reads (s_net s\<lparr>net_budgets := b\<rparr>) = []" for b using assms(4) by simp
  ultimately show ?thesis
    using assms
    by (auto simp: close_def Let_def onData_quiet wait_for_def ac_is_ready_def split: prod.splits)
qed

lemma close_unanswered_stays_ready_witness:
  "\<exists>s'. close small_library note_callback (small_session []) = (Inr (), s') \<and>
     ac_is_ready (s_conn s') \<and> \<not> ac_open (s_conn s')"
proof -
  obtain r s' where c: "close small_library note_callback (small_session []) = (r, s')" by fastforce
  from close_unanswered_stays_ready [OF _ _ _ _ c] c show ?thesis
    by (auto simp: small_session_def ac_is_ready_def amqp_connection_new_def quiet_net_def)
qed

end
