(* ===== verification/Amqp_Common.thy ===== *)
theory Amqp_Common
  imports Seam
begin

text \<open>
  What the two AMQP backends have in common: the argument table of a queue declaration and the
  delay before the next reconnection attempt. The lemmas say when the delay is the documented
  exponential backoff.
\<close>

record queue_arguments =
  qa_dead_letter :: "(string \<times> string) option"
  qa_bound :: "(i32 \<times> string) option"

definition no_arguments :: queue_arguments where
  "no_arguments = \<lparr>qa_dead_letter = None, qa_bound = None\<rparr>"

definition queueArguments :: "topic \<Rightarrow> topic_options \<Rightarrow> queue_arguments" where
  "queueArguments tp options =
     \<lparr>qa_dead_letter = (if deadLetter options then Some (kDeadLetterExchange, tp) else None),
      qa_bound = (if maxLength options > 0
                  then Some (maxLength options, overflowPolicyName (overflow options)) else None)\<rparr>"

text \<open>
  The delay after the \<open>attempts\<close>-th failure in a row, a signed shift of the initial delay. A shift
  by the width or more is undefined in C++; it is 0 here, and no property depends on it.
\<close>

definition backoff :: "reconnect_policy \<Rightarrow> u32 \<Rightarrow> i64" where
  "backoff policy attempts =
     (let shifted = push_bit (unat (attempts - 1)) (rp_initialDelay policy) in
      if sint shifted < sint (rp_maxDelay policy) then shifted else rp_maxDelay policy)"

definition reconnect_delay :: "reconnect_policy \<Rightarrow> u32 \<Rightarrow> int" where
  "reconnect_delay policy attempts = sint (backoff policy attempts)"

text \<open>Every reading of the clock is at or after the instant the next attempt is due.\<close>

fun patient :: "reconnect_policy \<Rightarrow> u32 \<Rightarrow> int \<Rightarrow> int list \<Rightarrow> bool" where
  "patient policy failed next (now # again # clock) =
     (next \<le> now \<and> patient policy (failed + 1) (again + reconnect_delay policy (failed + 1)) clock)"
| "patient policy failed next clock = True"

section \<open>Lemmas\<close>

lemma sint_push_bit_exact:
  fixes w :: i64
  assumes "0 \<le> sint w" "sint w * 2 ^ k < 2 ^ 63"
  shows "sint (push_bit k w) = sint w * 2 ^ k"
proof -
  have "push_bit k w = word_of_int (sint w * 2 ^ k)"
    by (simp add: push_bit_eq_mult)
  moreover have "sint (word_of_int i :: i64) = i" if "0 \<le> i" "i < 2 ^ 63" for i
    using that by (simp add: sint_sbintrunc' signed_take_bit_int_eq_self)
  moreover have "0 \<le> sint w * 2 ^ k" using assms(1) by simp
  ultimately show ?thesis using assms(2) by metis
qed

lemma unat_minus_one_32: "0 < unat (n :: u32) \<Longrightarrow> unat (n - 1) = unat n - 1"
  by (metis One_nat_def unat_minus_one unat_eq_zero less_numeral_extra(3))

lemma unat_Suc_less: "a < (b :: u32) \<Longrightarrow> unat (a + 1) = Suc (unat a)"
proof -
  assume "a < b"
  moreover have "unat b < 2 ^ 32" using unsigned_less [of b] by simp
  ultimately have "unat a + 1 < 2 ^ 32" by (simp add: word_less_nat_alt)
  then show ?thesis by (simp add: unat_word_ariths)
qed

section \<open>Properties\<close>

text \<open>
  Below the range of the type, the delay is the documented backoff: the initial delay, doubled
  per failed attempt, capped by the maximal delay.
\<close>

theorem backoff_exact:
  assumes "0 < unat attempts" "0 \<le> sint (rp_initialDelay policy)"
    and "sint (rp_initialDelay policy) * 2 ^ (unat attempts - 1) < 2 ^ 63"
  shows "reconnect_delay policy attempts =
    min (sint (rp_initialDelay policy) * 2 ^ (unat attempts - 1)) (sint (rp_maxDelay policy))"
  using sint_push_bit_exact [OF assms(2,3)] unat_minus_one_32 [OF assms(1)]
  by (simp add: reconnect_delay_def backoff_def Let_def min_def)

lemma backoff_exact_witness: "reconnect_delay default_reconnect_policy 3 = 1000"
  using backoff_exact [of 3 default_reconnect_policy] by (simp add: default_reconnect_policy_def)

text \<open>
  With the default delays and a policy that allows enough attempts, the delay is capped at five
  seconds up to the 56th failure, but the 57th shift reaches the sign bit: the delay is negative, is
  not capped, and the next attempt is due at once.
\<close>

theorem backoff_overflows:
  "map (reconnect_delay (default_reconnect_policy\<lparr>rp_maxAttempts := 100\<rparr>)) [1, 2, 3, 4, 5, 6, 56] =
     [250, 500, 1000, 2000, 4000, 5000, 5000] \<and>
   reconnect_delay (default_reconnect_policy\<lparr>rp_maxAttempts := 100\<rparr>) 57 < 0"
  by code_simp

end
