(* ===== verification/Amqp_Cpp.thy ===== *)
theory Amqp_Cpp
  imports Amqp_Common Amqp_Connection Transport
begin

text \<open>
  The AMQP-CPP backend: class \<open>AmqpCppTransport\<close> of \<open>src/transport/AmqpCppTransport.cpp\<close>. The
  library's channel is a parameter: a channel operation writes one frame, which \<open>lib_frame\<close>
  encodes, unless the channel refuses it, and the parser answers with callbacks that name the
  operation they belong to. The heap-allocated answer cells the callbacks capture are numbered
  and never reused, so that a late answer only reaches the cells of its own operation.
\<close>

section \<open>Commands and callbacks\<close>

datatype exchange_type = direct | topics_exchange | fanout

definition amqpExchangeType :: "routing \<Rightarrow> exchange_type" where
  "amqpExchangeType r = (case r of Exact \<Rightarrow> direct | Pattern \<Rightarrow> topics_exchange | Broadcast \<Rightarrow> fanout)"

record queue_flags =
  qf_passive :: bool
  qf_durable :: bool
  qf_exclusive :: bool
  qf_autodelete :: bool

datatype amqp_command =
    Channel_Open
  | Channel_Close
  | Declare_Exchange string exchange_type bool
  | Declare_Queue topic queue_flags queue_arguments
  | Bind_Queue string topic string
  | Purge_Queue topic
  | Set_Qos nat
  | Consume topic
  | Basic_Ack nat
  | Basic_Reject nat bool
  | Basic_Publish string string string bool

datatype amqp_callback =
    On_Ready
  | On_Error "string option"
  | On_Closed
  | On_Success nat u32
  | On_Failure nat "string option"
  | On_Received string nat bool

text \<open>The bytes of an operation, and what a channel answers whose connection is gone.\<close>

record 'p cpp_library = "('p, amqp_callback) amqp_library" +
  lib_frame :: "amqp_command \<Rightarrow> string"
  lib_detached :: string

section \<open>State\<close>

text \<open>
  The members of the class; then the answer cells (for each operation whether and with which
  count it succeeded and where its failure is noted, for each failure cell its text), the
  scripts for what the channel refuses and for the clock, whether a destructor threw (which ends
  the process), and a log of the commands that were handed to the connection without an exception;
  on a connection already known to be down these include commands whose write failed, which \<open>onData\<close>
  swallows.
\<close>

text \<open>
  \<open>_channel\<close>: null, usable on the current connection, or left over from one that was destroyed
  first (AMQP-CPP then detaches it, and it refuses everything).
\<close>

datatype channel_state = No_Channel | Attached | Detached

record ('p, 'h) amqp_cpp =
  am_connection :: "'p amqp_connection option"
  am_channel :: channel_state
  am_handler :: "'h delivery_handler option"
  am_stats :: stats
  am_outstandingDeferred :: "nat set"
  am_endpoint :: endpoint
  am_policy :: reconnect_policy
  am_topic :: topic
  am_topicOptions :: topic_options
  am_topicDeclared :: bool
  am_subscribed :: bool
  am_failedAttempts :: u32
  am_nextAttempt :: int
  am_handlerFailure :: "exn option"
  am_routes :: "(topic, string \<times> string) omap"
  am_next :: nat
  am_done :: "nat \<Rightarrow> u32 option"
  am_cell :: "nat \<Rightarrow> nat"
  am_failure :: "nat \<Rightarrow> string"
  am_net :: net
  am_refusals :: "string option list"
  am_clock :: "int list"
  am_terminated :: bool
  am_commands :: "amqp_command list"

definition amqp_cpp_new :: "net \<Rightarrow> string option list \<Rightarrow> int list \<Rightarrow> ('p, 'h) amqp_cpp" where
  "amqp_cpp_new net refusals clock =
     \<lparr>am_connection = None, am_channel = No_Channel, am_handler = None, am_stats = no_stats,
      am_outstandingDeferred = {}, am_endpoint = default_endpoint,
      am_policy = default_reconnect_policy, am_topic = [], am_topicOptions = default_topic_options,
      am_topicDeclared = False, am_subscribed = False, am_failedAttempts = 0, am_nextAttempt = 0,
      am_handlerFailure = None, am_routes = [], am_next = 0, am_done = (\<lambda>_. None),
      am_cell = (\<lambda>_. 0), am_failure = (\<lambda>_. []), am_net = net, am_refusals = refusals,
      am_clock = clock, am_terminated = False, am_commands = []\<rparr>"

text \<open>A session is over the transport and the memory \<open>'m\<close> the caller has at hand.\<close>

type_synonym ('p, 'h, 'm) am_over = "('p, ('p, 'h) amqp_cpp \<times> 'm) session"

type_synonym ('p, 'h) am_session = "('p, 'h, 'h) am_over"

definition am_of :: "('p, 'h, 'm) am_over \<Rightarrow> ('p, 'h) amqp_cpp" where
  "am_of s = fst (s_rest s)"

definition am_upd ::
  "(('p, 'h) amqp_cpp \<Rightarrow> ('p, 'h) amqp_cpp) \<Rightarrow> ('p, 'h, 'm) am_over \<Rightarrow> ('p, 'h, 'm) am_over" where
  "am_upd f s = s\<lparr>s_rest := (f (fst (s_rest s)), snd (s_rest s))\<rparr>"

definition am_count :: "(stats \<Rightarrow> stats) \<Rightarrow> ('p, 'h) amqp_cpp \<Rightarrow> ('p, 'h) amqp_cpp" where
  "am_count f t = t\<lparr>am_stats := f (am_stats t)\<rparr>"

text \<open>Work on the connection \<open>c\<close> of the transport, and the transport afterwards.\<close>

definition with_connection ::
  "'p amqp_connection \<Rightarrow> (('p, 'h, 'm) am_over \<Rightarrow> 'r \<times> ('p, 'h, 'm) am_over)
     \<Rightarrow> ('p, 'h) amqp_cpp \<Rightarrow> 'm \<Rightarrow> 'r \<times> ('p, 'h) amqp_cpp \<times> 'm" where
  "with_connection c f t h =
     (case f \<lparr>s_conn = c, s_net = am_net t, s_rest = (t, h)\<rparr> of
        (r, s) \<Rightarrow>
          (r, (fst (s_rest s))\<lparr>am_connection := Some (s_conn s), am_net := s_net s\<rparr>, snd (s_rest s)))"

section \<open>Channel operations\<close>

text \<open>\<open>Some\<close> text: the channel refused.\<close>

definition write_frame ::
  "'p cpp_library \<Rightarrow> amqp_command \<Rightarrow> ('p, 'h, 'm) am_over \<Rightarrow> unit result \<times> ('p, 'h, 'm) am_over" where
  "write_frame lib cmd s =
     (case onData (lib_frame lib cmd) s of
        (Inl e, s1) \<Rightarrow> (Inl e, s1)
      | (Inr _, s1) \<Rightarrow> (Inr (), am_upd (\<lambda>t. t\<lparr>am_commands := am_commands t @ [cmd]\<rparr>) s1))"

definition refused :: "'p cpp_library \<Rightarrow> ('p, 'h, 'm) am_over \<Rightarrow> string option \<times> ('p, 'h, 'm) am_over" where
  "refused lib s =
     (if am_channel (am_of s) = Attached
      then (case pop None (am_refusals (am_of s)) of
              (reason, refusals) \<Rightarrow> (reason, am_upd (\<lambda>t. t\<lparr>am_refusals := refusals\<rparr>) s))
      else (Some (lib_detached lib), s))"

definition channel_command ::
  "'p cpp_library \<Rightarrow> amqp_command \<Rightarrow> ('p, 'h, 'm) am_over
     \<Rightarrow> string option result \<times> ('p, 'h, 'm) am_over" where
  "channel_command lib cmd s =
     (case refused lib s of
        (Some reason, s1) \<Rightarrow> (Inr (Some reason), s1)
      | (None, s1) \<Rightarrow>
          (case write_frame lib cmd s1 of
             (Inl e, s2) \<Rightarrow> (Inl e, s2)
           | (Inr _, s2) \<Rightarrow> (Inr None, s2)))"

text \<open>
  An operation with an answer: its number. Failures are noted in the given cell, at once when
  the channel refuses.
\<close>

definition channel_request ::
  "'p cpp_library \<Rightarrow> amqp_command \<Rightarrow> nat \<Rightarrow> ('p, 'h) am_session \<Rightarrow> nat result \<times> ('p, 'h) am_session" where
  "channel_request lib cmd cell s =
     (let k = am_next (am_of s);
          s1 = am_upd (\<lambda>t. t\<lparr>am_next := k + 1, am_cell := (am_cell t)(k := cell)\<rparr>) s in
      case channel_command lib cmd s1 of
        (Inl e, s2) \<Rightarrow> (Inl e, s2)
      | (Inr None, s2) \<Rightarrow> (Inr k, s2)
      | (Inr (Some reason), s2) \<Rightarrow>
          (Inr k, am_upd (\<lambda>t. t\<lparr>am_failure := (am_failure t)(cell := reason)\<rparr>) s2))"

definition new_cell :: "('p, 'h) am_session \<Rightarrow> nat \<times> ('p, 'h) am_session" where
  "new_cell s =
     (let k = am_next (am_of s) in
      (k, am_upd (\<lambda>t. t\<lparr>am_next := k + 1, am_failure := (am_failure t)(k := [])\<rparr>) s))"

section \<open>Callbacks\<close>

definition stash :: "exn \<Rightarrow> ('p, 'h) amqp_cpp \<Rightarrow> ('p, 'h) amqp_cpp" where
  "stash e t = am_count (\<lambda>s. s\<lparr>abandoned := abandoned s + 1\<rparr>) (t\<lparr>am_handlerFailure := Some e\<rparr>)"

text \<open>
  \<open>ack\<close> or \<open>reject\<close> of the channel and its counter. What they return is ignored, so a disposition that
  the channel refuses is counted although no command is sent.
\<close>

definition acknowledge ::
  "'p cpp_library \<Rightarrow> amqp_command \<Rightarrow> (stats \<Rightarrow> stats) \<Rightarrow> ('p, 'h, 'm) am_over
     \<Rightarrow> unit result \<times> ('p, 'h, 'm) am_over" where
  "acknowledge lib cmd f s =
     (case channel_command lib cmd s of
        (Inl e, s1) \<Rightarrow> (Inl e, s1)
      | (Inr _, s1) \<Rightarrow> (Inr (), am_upd (am_count f) s1))"

definition settle_command ::
  "'p cpp_library \<Rightarrow> nat \<Rightarrow> disposition \<Rightarrow> ('p, 'h, 'm) am_over \<Rightarrow> unit result \<times> ('p, 'h, 'm) am_over" where
  "settle_command lib tag d s =
     (case d of
        Ack \<Rightarrow> acknowledge lib (Basic_Ack tag) (\<lambda>s. s\<lparr>acksPerformed := acksPerformed s + 1\<rparr>) s
      | Requeue \<Rightarrow>
          acknowledge lib (Basic_Reject tag True)
            (\<lambda>s. s\<lparr>requeuesPerformed := requeuesPerformed s + 1\<rparr>) s
      | Reject \<Rightarrow>
          acknowledge lib (Basic_Reject tag False)
            (\<lambda>s. s\<lparr>rejectsPerformed := rejectsPerformed s + 1\<rparr>) s
      | Deferred \<Rightarrow> (Inr (), s))"

text \<open>The \<open>onReceived\<close> lambda. An empty handler makes \<open>std::function\<close> throw.\<close>

definition onReceived ::
  "'p cpp_library \<Rightarrow> string \<Rightarrow> nat \<Rightarrow> bool \<Rightarrow> ('p, 'h) am_session \<Rightarrow> unit result \<times> ('p, 'h) am_session" where
  "onReceived lib body tag redelivered s =
     (let s1 = am_upd (am_count (\<lambda>s. s\<lparr>received := received s + 1\<rparr>)) s in
      case am_handler (am_of s1) of
        None \<Rightarrow> (Inr (), am_upd (stash (Runtime_Error ''bad_function_call'')) s1)
      | Some handler \<Rightarrow>
          (case handler \<lparr>d_body = body, d_redelivered = redelivered, d_tag = tag\<rparr> (snd (s_rest s1)) of
             (outcome, h) \<Rightarrow>
               (let s2 = s1\<lparr>s_rest := (am_of s1, h)\<rparr> in
                case outcome of
                  Inl e \<Rightarrow> (Inr (), am_upd (stash e) s2)
                | Inr d \<Rightarrow>
                    if d = Deferred
                    then (Inr (), am_upd (\<lambda>t. t\<lparr>am_outstandingDeferred :=
                                            insert tag (am_outstandingDeferred t)\<rparr>) s2)
                    else settle_command lib tag d s2)))"

text \<open>AMQP-CPP drops what arrives for a channel that is gone.\<close>

definition run_callback ::
  "'p cpp_library \<Rightarrow> amqp_callback \<Rightarrow> ('p, 'h) am_session \<Rightarrow> unit result \<times> ('p, 'h) am_session" where
  "run_callback lib cb s =
     (case cb of
        On_Ready \<Rightarrow> (Inr (), onReady s)
      | On_Error message \<Rightarrow> (Inr (), onError message s)
      | On_Closed \<Rightarrow> (Inr (), onClosed s)
      | On_Success k n \<Rightarrow> (Inr (), am_upd (\<lambda>t. t\<lparr>am_done := (am_done t)(k := Some n)\<rparr>) s)
      | On_Failure k message \<Rightarrow>
          (Inr (), am_upd (\<lambda>t. t\<lparr>am_failure := (am_failure t)(am_cell t k :=
                     (case message of None \<Rightarrow> ''unknown error'' | Some m \<Rightarrow> m))\<rparr>) s)
      | On_Received body tag redelivered \<Rightarrow>
          if am_channel (am_of s) = Attached then onReceived lib body tag redelivered s else (Inr (), s))"

abbreviation cpp_lib :: "'p cpp_library \<Rightarrow> ('p, amqp_callback) amqp_library" where
  "cpp_lib lib \<equiv> amqp_library.truncate lib"

definition am_wait ::
  "'p cpp_library \<Rightarrow> (('p, 'h) am_session \<Rightarrow> bool) \<Rightarrow> ('p, 'h) am_session
     \<Rightarrow> bool result \<times> ('p, 'h) am_session" where
  "am_wait lib P s = wait_for (cpp_lib lib) (run_callback lib) P s"

definition answered :: "nat \<Rightarrow> nat \<Rightarrow> ('p, 'h) am_session \<Rightarrow> bool" where
  "answered k cell s \<longleftrightarrow> am_done (am_of s) k \<noteq> None \<or> am_failure (am_of s) cell \<noteq> []"

text \<open>
  Send an operation and wait for its answer: the count it succeeded with, or an exception, of
  the given text for a failure and for a time-out.
\<close>

definition channel_ask ::
  "'p cpp_library \<Rightarrow> amqp_command \<Rightarrow> nat \<Rightarrow> (string \<Rightarrow> string) \<Rightarrow> string \<Rightarrow> ('p, 'h) am_session
     \<Rightarrow> u32 result \<times> ('p, 'h) am_session" where
  "channel_ask lib cmd cell failed timed_out s =
     (case channel_request lib cmd cell s of
        (Inl e, s1) \<Rightarrow> (Inl e, s1)
      | (Inr k, s1) \<Rightarrow>
          (case am_wait lib (answered k cell) s1 of
             (Inl e, s2) \<Rightarrow> (Inl e, s2)
           | (Inr _, s2) \<Rightarrow>
               if am_failure (am_of s2) cell \<noteq> []
               then (Inl (Runtime_Error (failed (am_failure (am_of s2) cell))), s2)
               else
                 (case am_done (am_of s2) k of
                    None \<Rightarrow> (Inl (Runtime_Error timed_out), s2)
                  | Some n \<Rightarrow> (Inr n, s2))))"

section \<open>Declaring\<close>

definition msg_group_refused :: "string \<Rightarrow> string \<Rightarrow> string" where
  "msg_group_refused grp reason =
     ''cannot declare group '' @ quoted grp @ '': '' @ reason @
     '' (a PRECONDITION_FAILED here means the exchange already exists with a'' @
     '' different type; every declarer must agree on Exact/Pattern/Broadcast)''"

definition msg_topic_refused :: "topic \<Rightarrow> string \<Rightarrow> string" where
  "msg_topic_refused tp reason =
     ''cannot declare topic '' @ quoted tp @ '': '' @ reason @
     '' (a PRECONDITION_FAILED here means an existing destination was declared with'' @
     '' different properties -- durable/shared/deleteWhenUnused/deadLetter/maxLength/overflow '' @
     ''must match everywhere; changing queue properties requires the documented '' @
     ''delete-and-recreate migration)''"

definition msg_bind_refused :: "topic \<Rightarrow> string \<Rightarrow> string \<Rightarrow> string" where
  "msg_bind_refused tp grp reason =
     ''cannot bind topic '' @ quoted tp @ '' into group '' @ quoted grp @ '': '' @ reason"

definition msg_timed_out :: "string \<Rightarrow> topic \<Rightarrow> string" where
  "msg_timed_out doing tp = ''timed out '' @ doing @ '' '' @ quoted tp"

definition declared_flags :: "topic_options \<Rightarrow> queue_flags" where
  "declared_flags opts =
     \<lparr>qf_passive = False, qf_durable = durable opts, qf_exclusive = \<not> shared opts,
      qf_autodelete = deleteWhenUnused opts\<rparr>"

definition effective_route :: "topic \<Rightarrow> topic_options \<Rightarrow> string" where
  "effective_route tp opts = (if route opts = [] then tp else route opts)"

text \<open>\<open>declare\<close> below the provisioning of the forensic destination.\<close>

definition declare_one ::
  "'p cpp_library \<Rightarrow> topic \<Rightarrow> topic_options \<Rightarrow> ('p, 'h) am_session \<Rightarrow> u32 result \<times> ('p, 'h) am_session" where
  "declare_one lib tp opts s =
     (case new_cell s of
        (cell, s0) \<Rightarrow>
          (case (if group opts = [] then (Inr 0, s0)
                 else channel_ask lib
                        (Declare_Exchange (group opts) (amqpExchangeType (routing opts)) (durable opts)) cell
                        (msg_group_refused (group opts)) (msg_timed_out ''declaring group'' (group opts)) s0) of
             (Inl e, s1) \<Rightarrow> (Inl e, s1)
           | (Inr _, s1) \<Rightarrow>
               (case channel_ask lib (Declare_Queue tp (declared_flags opts) (queueArguments tp opts)) cell
                       (msg_topic_refused tp) (msg_timed_out ''declaring topic'' tp) s1 of
                  (Inl e, s2) \<Rightarrow> (Inl e, s2)
                | (Inr waiting, s2) \<Rightarrow>
                    if group opts = [] then (Inr waiting, s2)
                    else
                      (case channel_ask lib (Bind_Queue (group opts) tp (effective_route tp opts)) cell
                              (msg_bind_refused tp (group opts)) (msg_timed_out ''binding topic'' tp) s2 of
                         (Inl e, s3) \<Rightarrow> (Inl e, s3)
                       | (Inr _, s3) \<Rightarrow>
                           (Inr waiting,
                            am_upd (\<lambda>t. t\<lparr>am_routes :=
                              om_update tp (group opts, effective_route tp opts) (am_routes t)\<rparr>) s3)))))"

definition declare_session ::
  "'p cpp_library \<Rightarrow> topic \<Rightarrow> topic_options \<Rightarrow> ('p, 'h) am_session \<Rightarrow> u32 result \<times> ('p, 'h) am_session" where
  "declare_session lib tp opts s =
     (if deadLetter opts
      then (case declare_one lib (deadLetterTopic tp) (forensicTopicOptions tp) s of
              (Inl e, s1) \<Rightarrow> (Inl e, s1)
            | (Inr _, s1) \<Rightarrow> declare_one lib tp opts s1)
      else declare_one lib tp opts s)"

section \<open>Consuming\<close>

definition start_session ::
  "'p cpp_library \<Rightarrow> ('p, 'h) am_session \<Rightarrow> unit result \<times> ('p, 'h) am_session" where
  "start_session lib s =
     (case channel_command lib (Set_Qos 1) s of
        (Inl e, s1) \<Rightarrow> (Inl e, s1)
      | (Inr _, s1) \<Rightarrow>
          (case new_cell s1 of
             (cell, s2) \<Rightarrow>
               (let tp = am_topic (am_of s2) in
                case channel_ask lib (Consume tp) cell
                       (\<lambda>reason. ''failed to subscribe to '' @ quoted tp @ '': '' @ reason)
                       (msg_timed_out ''subscribing to'' tp) s2 of
                  (Inl e, s3) \<Rightarrow> (Inl e, s3)
                | (Inr _, s3) \<Rightarrow> (Inr (), s3))))"

section \<open>Channel and connection as objects\<close>

text \<open>\<open>_channel.reset()\<close>: a destructor that throws ends the process.\<close>

definition reset_channel :: "'p cpp_library \<Rightarrow> ('p, 'h) amqp_cpp \<Rightarrow> 'h \<Rightarrow> ('p, 'h) amqp_cpp \<times> 'h" where
  "reset_channel lib t h =
     (case (am_channel t, am_connection t) of
        (Attached, Some c) \<Rightarrow>
          (case with_connection c (channel_command lib Channel_Close) t h of
             (r, t1, h1) \<Rightarrow>
               (t1\<lparr>am_channel := No_Channel, am_terminated := am_terminated t1 \<or> isl r\<rparr>, h1))
      | _ \<Rightarrow> (t\<lparr>am_channel := No_Channel\<rparr>, h))"

text \<open>The destructor of a connection that \<open>_connection\<close> no longer points to.\<close>

definition destroy_connection ::
  "'p cpp_library \<Rightarrow> 'p amqp_connection option \<Rightarrow> ('p, 'h) amqp_cpp \<Rightarrow> 'h \<Rightarrow> ('p, 'h) amqp_cpp \<times> 'h" where
  "destroy_connection lib old t h =
     (case old of
        None \<Rightarrow> (t, h)
      | Some c \<Rightarrow>
          (let s = destroy (cpp_lib lib) (run_callback lib) \<lparr>s_conn = c, s_net = am_net t, s_rest = (t, h)\<rparr>;
               t1 = am_of s in
           (t1\<lparr>am_net := s_net s,
               am_channel := (if am_channel t1 = Attached then Detached else am_channel t1)\<rparr>,
            snd (s_rest s))))"

definition amqp_port :: "endpoint \<Rightarrow> u16" where
  "amqp_port ep = (if ep_port ep \<noteq> 0 then ep_port ep else 5672)"

definition openConnection ::
  "'p cpp_library \<Rightarrow> ('p, 'h) amqp_cpp \<Rightarrow> 'h \<Rightarrow> unit result \<times> ('p, 'h) amqp_cpp \<times> 'h" where
  "openConnection lib t h =
     (let ep = am_endpoint t;
          c = amqp_connection_new (ep_host ep) (amqp_port ep) (ep_user ep) (ep_password ep) (ep_realm ep) in
      case destroy_connection lib (am_connection t) (t\<lparr>am_connection := Some c\<rparr>) h of
        (t1, h1) \<Rightarrow>
          with_connection c
            (\<lambda>s. case connect (cpp_lib lib) (run_callback lib) s of
                   (Inl e, s1) \<Rightarrow> (Inl e, s1)
                 | (Inr _, s1) \<Rightarrow>
                     (case write_frame lib Channel_Open s1 of
                        (Inl e, s2) \<Rightarrow> (Inl e, s2)
                      | (Inr _, s2) \<Rightarrow> (Inr (), am_upd (\<lambda>t. t\<lparr>am_channel := Attached\<rparr>) s2)))
            t1 h1)"

text \<open>An operation over the connection, which exists whenever the channel does.\<close>

definition over_connection ::
  "(('p, 'h, 'm) am_over \<Rightarrow> 'r result \<times> ('p, 'h, 'm) am_over)
     \<Rightarrow> ('p, 'h) amqp_cpp \<Rightarrow> 'm \<Rightarrow> 'r result \<times> ('p, 'h) amqp_cpp \<times> 'm" where
  "over_connection f t h =
     (case am_connection t of
        None \<Rightarrow> (Inl (Logic_Error ''connection() called before connect()''), t, h)
      | Some c \<Rightarrow> with_connection c f t h)"

section \<open>The virtual functions\<close>

definition am_capabilities :: capabilities where
  "am_capabilities =
     default_capabilities
       \<lparr>cap_name := ''amqpcpp'', durableDelivery := True, publisherConfirms := False,
        manualAcknowledgement := True, redeliveryFlag := True, deadLetterCap := True,
        routingGroups := True, fifoPerTopic := True, competingConsumers := True,
        topicDepthCap := True, purgeCap := True, requeueCap := True, reconnectCap := True,
        deferredAcknowledgement := True, boundedQueue := True\<rparr>"

definition am_connect ::
  "'p cpp_library \<Rightarrow> endpoint \<Rightarrow> ('p, 'h) amqp_cpp \<Rightarrow> 'h \<Rightarrow> unit result \<times> ('p, 'h) amqp_cpp \<times> 'h" where
  "am_connect lib ep t h = openConnection lib (t\<lparr>am_endpoint := ep\<rparr>) h"

definition am_setReconnectPolicy :: "reconnect_policy \<Rightarrow> ('p, 'h) amqp_cpp \<Rightarrow> ('p, 'h) amqp_cpp" where
  "am_setReconnectPolicy policy t =
     t\<lparr>am_policy := policy, am_failedAttempts := 0, am_nextAttempt := 0\<rparr>"

definition am_close ::
  "'p cpp_library \<Rightarrow> ('p, 'h) amqp_cpp \<Rightarrow> 'h \<Rightarrow> unit result \<times> ('p, 'h) amqp_cpp \<times> 'h" where
  "am_close lib t h =
     (case reset_channel lib (t\<lparr>am_outstandingDeferred := {}\<rparr>) h of
        (t1, h1) \<Rightarrow>
          (case (case am_connection t1 of
                   None \<Rightarrow> (Inr (), t1, h1)
                 | Some c \<Rightarrow> with_connection c (close (cpp_lib lib) (run_callback lib)) t1 h1) of
             (Inl e, t2, h2) \<Rightarrow> (Inl e, t2, h2)
           | (Inr _, t2, h2) \<Rightarrow> (Inr (), t2\<lparr>am_subscribed := False, am_handler := None\<rparr>, h2)))"

definition am_destroy :: "'p cpp_library \<Rightarrow> ('p, 'h) amqp_cpp \<Rightarrow> 'h \<Rightarrow> ('p, 'h) amqp_cpp \<times> 'h" where
  "am_destroy lib t h =
     (case reset_channel lib t h of
        (t1, h1) \<Rightarrow> destroy_connection lib (am_connection t1) (t1\<lparr>am_connection := None\<rparr>) h1)"

definition am_ready :: "('p, 'h) amqp_cpp \<Rightarrow> bool" where
  "am_ready t = (case am_connection t of None \<Rightarrow> False | Some c \<Rightarrow> ac_is_ready c)"

definition am_before_connect :: "string \<Rightarrow> exn" where
  "am_before_connect operation = Logic_Error (operation @ ''() called before connect()'')"

definition am_declare ::
  "'p cpp_library \<Rightarrow> topic \<Rightarrow> topic_options \<Rightarrow> ('p, 'h) amqp_cpp \<Rightarrow> 'h
     \<Rightarrow> u32 result \<times> ('p, 'h) amqp_cpp \<times> 'h" where
  "am_declare lib tp opts t h =
     (if am_channel t = No_Channel then (Inl (am_before_connect ''ensureTopic''), t, h)
      else over_connection (declare_session lib tp opts) t h)"

definition am_ensureTopic ::
  "'p cpp_library \<Rightarrow> topic \<Rightarrow> topic_options \<Rightarrow> ('p, 'h) amqp_cpp \<Rightarrow> 'h
     \<Rightarrow> unit result \<times> ('p, 'h) amqp_cpp \<times> 'h" where
  "am_ensureTopic lib tp opts t h =
     (case am_declare lib tp opts t h of
        (Inl e, t1, h1) \<Rightarrow> (Inl e, t1, h1)
      | (Inr _, t1, h1) \<Rightarrow>
          (Inr (), t1\<lparr>am_topic := tp, am_topicOptions := opts, am_topicDeclared := True\<rparr>, h1))"

definition ask_once ::
  "'p cpp_library \<Rightarrow> amqp_command \<Rightarrow> string \<Rightarrow> string \<Rightarrow> topic \<Rightarrow> ('p, 'h) am_session
     \<Rightarrow> u32 result \<times> ('p, 'h) am_session" where
  "ask_once lib cmd verb doing tp s =
     (case new_cell s of
        (cell, s1) \<Rightarrow>
          channel_ask lib cmd cell
            (\<lambda>reason. ''cannot '' @ verb @ '' topic '' @ quoted tp @ '': '' @ reason)
            (msg_timed_out (doing @ '' topic'') tp) s1)"

definition am_topicDepth ::
  "'p cpp_library \<Rightarrow> topic \<Rightarrow> ('p, 'h) amqp_cpp \<Rightarrow> 'h \<Rightarrow> u32 result \<times> ('p, 'h) amqp_cpp \<times> 'h" where
  "am_topicDepth lib tp t h =
     (if am_channel t = No_Channel then (Inl (am_before_connect ''topicDepth''), t, h)
      else
        over_connection
          (ask_once lib
             (Declare_Queue tp
                \<lparr>qf_passive = True, qf_durable = False, qf_exclusive = False, qf_autodelete = False\<rparr>
                no_arguments)
             ''inspect'' ''inspecting'' tp) t h)"

definition am_purgeTopic ::
  "'p cpp_library \<Rightarrow> topic \<Rightarrow> ('p, 'h) amqp_cpp \<Rightarrow> 'h \<Rightarrow> u32 result \<times> ('p, 'h) amqp_cpp \<times> 'h" where
  "am_purgeTopic lib tp t h =
     (if am_channel t = No_Channel then (Inl (am_before_connect ''purgeTopic''), t, h)
      else over_connection (ask_once lib (Purge_Queue tp) ''purge'' ''purging'' tp) t h)"

definition am_no_confirms :: exn where
  "am_no_confirms = Logic_Error
     (''backend '' @ quoted ''amqpcpp'' @ '' does not support publisher confirms '' @
      ''(Capabilities::publisherConfirms is false); check the capability before requesting it'')"

text \<open>Exchange and routing key of a message.\<close>

definition am_address :: "topic \<Rightarrow> send_options \<Rightarrow> ('p, 'h) amqp_cpp \<Rightarrow> string \<times> string" where
  "am_address tp opts t =
     (case map_of (am_routes t) tp of
        None \<Rightarrow> ([], tp)
      | Some (exchange, key) \<Rightarrow>
          (exchange, if so_route opts \<noteq> [] \<and> exchange \<noteq> [] then so_route opts else key))"

definition am_send ::
  "'p cpp_library \<Rightarrow> topic \<Rightarrow> string \<Rightarrow> send_options \<Rightarrow> ('p, 'h) amqp_cpp
     \<Rightarrow> bool result \<times> ('p, 'h) amqp_cpp" where
  "am_send lib tp body opts t =
     (if am_channel t = No_Channel then (Inl (am_before_connect ''send''), t)
      else if so_confirm opts then (Inl am_no_confirms, t)
      else
        (case am_address tp opts t of
           (exchange, key) \<Rightarrow>
             (case over_connection
                     (channel_command lib (Basic_Publish exchange key body (so_durable opts))) t () of
                (Inl e, t1, _) \<Rightarrow> (Inl e, t1)
              | (Inr None, t1, _) \<Rightarrow> (Inr True, am_count (\<lambda>s. s\<lparr>sent := sent s + 1\<rparr>) t1)
              | (Inr (Some _), t1, _) \<Rightarrow> (Inr False, t1))))"

definition am_subscribed_twice :: "topic \<Rightarrow> exn" where
  "am_subscribed_twice tp = Logic_Error
     (''subscribe() called twice on one transport; use one transport per '' @
      ''topic instead of overwriting the active subscription to '' @ quoted tp)"

definition am_subscribe ::
  "'p cpp_library \<Rightarrow> topic \<Rightarrow> 'h delivery_handler option \<Rightarrow> ('p, 'h) amqp_cpp \<Rightarrow> 'h
     \<Rightarrow> unit result \<times> ('p, 'h) amqp_cpp \<times> 'h" where
  "am_subscribe lib tp handler t h =
     (if am_channel t = No_Channel then (Inl (am_before_connect ''subscribe''), t, h)
      else if handler = None
      then (Inl (Invalid_Argument ''subscribe() requires a callable handler''), t, h)
      else if am_subscribed t then (Inl (am_subscribed_twice (am_topic t)), t, h)
      else
        (case over_connection (start_session lib) (t\<lparr>am_handler := handler, am_topic := tp\<rparr>) h of
           (Inl e, t1, h1) \<Rightarrow> (Inl e, t1, h1)
         | (Inr _, t1, h1) \<Rightarrow> (Inr (), t1\<lparr>am_subscribed := True\<rparr>, h1)))"

definition am_unknown_tag :: "nat \<Rightarrow> exn" where
  "am_unknown_tag tag = Logic_Error
     (''settle() called for tag '' @ to_string tag @ '', which is not an outstanding '' @
      ''deferred delivery on this transport (already settled, never deferred, or from a '' @
      ''connection that has since been replaced)'')"

definition am_settle_deferred :: exn where
  "am_settle_deferred = Invalid_Argument
     (''settle() cannot be called with Disposition::Deferred; a delivery already deferred '' @
      ''must be settled with Ack, Reject or Requeue'')"

definition am_settle ::
  "'p cpp_library \<Rightarrow> nat \<Rightarrow> disposition \<Rightarrow> ('p, 'h) amqp_cpp \<Rightarrow> unit result \<times> ('p, 'h) amqp_cpp" where
  "am_settle lib tag d t =
     (if am_channel t = No_Channel then (Inl (am_before_connect ''settle''), t)
      else if d = Deferred then (Inl am_settle_deferred, t)
      else if tag \<notin> am_outstandingDeferred t then (Inl (am_unknown_tag tag), t)
      else
        (case over_connection (settle_command lib tag d)
                (t\<lparr>am_outstandingDeferred := am_outstandingDeferred t - {tag}\<rparr>) () of
           (r, t1, _) \<Rightarrow> (r, t1)))"

section \<open>Reconnecting and pumping\<close>

definition read_clock :: "('p, 'h) amqp_cpp \<Rightarrow> int \<times> ('p, 'h) amqp_cpp" where
  "read_clock t = (case pop 0 (am_clock t) of (now, clock) \<Rightarrow> (now, t\<lparr>am_clock := clock\<rparr>))"

text \<open>The body of the \<open>try\<close>: a new connection, then what was established before.\<close>

definition reopen ::
  "'p cpp_library \<Rightarrow> ('p, 'h) amqp_cpp \<Rightarrow> 'h \<Rightarrow> unit result \<times> ('p, 'h) amqp_cpp \<times> 'h" where
  "reopen lib t h =
     (case reset_channel lib t h of
        (t1, h1) \<Rightarrow>
          (case destroy_connection lib (am_connection t1) (t1\<lparr>am_connection := None\<rparr>) h1 of
             (t2, h2) \<Rightarrow> openConnection lib (t2\<lparr>am_outstandingDeferred := {}\<rparr>) h2))"

definition resume ::
  "'p cpp_library \<Rightarrow> ('p, 'h) amqp_cpp \<Rightarrow> 'h \<Rightarrow> unit result \<times> ('p, 'h) amqp_cpp \<times> 'h" where
  "resume lib t h =
     (case (if am_topicDeclared t then am_declare lib (am_topic t) (am_topicOptions t) t h
            else (Inr 0, t, h)) of
        (Inl e, t1, h1) \<Rightarrow> (Inl e, t1, h1)
      | (Inr _, t1, h1) \<Rightarrow>
          if am_subscribed t1 then over_connection (start_session lib) t1 h1 else (Inr (), t1, h1))"

definition restore ::
  "'p cpp_library \<Rightarrow> ('p, 'h) amqp_cpp \<Rightarrow> 'h \<Rightarrow> unit result \<times> ('p, 'h) amqp_cpp \<times> 'h" where
  "restore lib t h =
     (case reopen lib t h of
        (Inl e, t1, h1) \<Rightarrow> (Inl e, t1, h1)
      | (Inr _, t1, h1) \<Rightarrow> resume lib t1 h1)"

definition serviceReconnect ::
  "'p cpp_library \<Rightarrow> ('p, 'h) amqp_cpp \<Rightarrow> 'h \<Rightarrow> bool result \<times> ('p, 'h) amqp_cpp \<times> 'h" where
  "serviceReconnect lib t h =
     (if \<not> rp_enabled (am_policy t) then (Inr False, t, h)
      else if am_failedAttempts t \<ge> rp_maxAttempts (am_policy t) then (Inr False, t, h)
      else
        (case read_clock t of
           (now, t0) \<Rightarrow>
             if now < am_nextAttempt t0 then (Inr True, t0, h)
             else
               (case restore lib (t0\<lparr>am_failedAttempts := am_failedAttempts t0 + 1\<rparr>) h of
                  (Inr _, t1, h1) \<Rightarrow>
                    (Inr True,
                     am_count (\<lambda>s. s\<lparr>reconnects := reconnects s + 1\<rparr>) (t1\<lparr>am_failedAttempts := 0\<rparr>), h1)
                | (Inl e, t1, h1) \<Rightarrow>
                    if is_std_exception e
                    then
                      (case read_clock t1 of
                         (later, t2) \<Rightarrow>
                           (Inr True,
                            t2\<lparr>am_nextAttempt := later + reconnect_delay (am_policy t2) (am_failedAttempts t2)\<rparr>,
                            h1))
                    else (Inl e, t1, h1))))"

definition am_pump ::
  "'p cpp_library \<Rightarrow> ('p, 'h) amqp_cpp \<Rightarrow> 'h \<Rightarrow> bool result \<times> ('p, 'h) amqp_cpp \<times> 'h" where
  "am_pump lib t h =
     (let lost = (\<lambda>t h. if rp_enabled (am_policy t) then serviceReconnect lib t h else (Inr False, t, h)) in
      case am_connection t of
        None \<Rightarrow> lost t h
      | Some c \<Rightarrow>
          if ac_closed c then lost t h
          else
            (case with_connection c (am_wait lib (\<lambda>_. False)) t h of
               (Inl e, t1, h1) \<Rightarrow> (Inl e, t1, h1)
             | (Inr _, t1, h1) \<Rightarrow>
                 (case am_handlerFailure t1 of
                    Some e \<Rightarrow> (Inl e, t1\<lparr>am_handlerFailure := None\<rparr>, h1)
                  | None \<Rightarrow>
                      (case am_connection t1 of
                         None \<Rightarrow> lost t1 h1
                       | Some c1 \<Rightarrow> if ac_closed c1 then lost t1 h1 else (Inr True, t1, h1)))))"

definition am_statistics :: "('p, 'h) amqp_cpp \<Rightarrow> stats" where
  "am_statistics t =
     (case am_connection t of
        None \<Rightarrow> am_stats t
      | Some c \<Rightarrow> (am_stats t)\<lparr>bytesSent := ac_bytesSent c, bytesReceived := ac_bytesReceived c\<rparr>)"

text \<open>The waits of a call are in the scripts of the transport, so that nothing stands for its bound.\<close>

definition amqp_transport :: "'p cpp_library \<Rightarrow> (unit, ('p, 'h) amqp_cpp, 'h) itransport" where
  "amqp_transport lib =
     \<lparr>it_capabilities = am_capabilities,
      it_connect = (\<lambda>ep _ t h. am_connect lib ep t h),
      it_close = (\<lambda>_ t h. am_close lib t h),
      it_ready = am_ready,
      it_ensureTopic = (\<lambda>tp opts _ t h. am_ensureTopic lib tp opts t h),
      it_topicDepth = (\<lambda>tp _ t h. am_topicDepth lib tp t h),
      it_purgeTopic = (\<lambda>tp _ t h. am_purgeTopic lib tp t h),
      it_send = am_send lib,
      it_subscribe = (\<lambda>tp f _ t h. am_subscribe lib tp f t h),
      it_settle = am_settle lib,
      it_setReconnectPolicy = am_setReconnectPolicy,
      it_pump = (\<lambda>_ t h. am_pump lib t h),
      it_stats = am_statistics\<rparr>"

end
