(* ===== verification/Amqp_Cpp_Relations.thy ===== *)
theory Amqp_Cpp_Relations
  imports Amqp_Connection_Props Amqp_Cpp
begin

text \<open>
  What holds across every operation of the AMQP-CPP backend that sends commands and waits: a
  relation between sessions that every callback keeps and that does not look at the members the
  operations use for themselves; and, where it does not look at the schedule of reconnections
  either, across a pump. Three relations are of interest: that the handler was served, that the
  counters match the dispositions that were sent (theory Amqp_Cpp_Contract), and that the
  configuration is kept (theory Amqp_Cpp_Props).
\<close>

section \<open>Sessions\<close>

lemma am_upd_sel [simp]:
  "s_conn (am_upd g s) = s_conn s" "s_net (am_upd g s) = s_net s" "am_of (am_upd g s) = g (am_of s)"
  "snd (s_rest (am_upd g s)) = snd (s_rest s)"
  by (simp_all add: am_upd_def am_of_def)

lemma am_of_set_conn [simp]: "am_of (set_conn f s) = am_of s" "am_of (set_closed s) = am_of s"
  by (simp_all add: am_of_def)

lemma am_of_net [simp]: "am_of (s\<lparr>s_net := n\<rparr>) = am_of s"
  by (simp add: am_of_def)

lemma am_of_rest [simp]: "am_of (s\<lparr>s_rest := (t, h)\<rparr>) = t"
  by (simp add: am_of_def)

lemma onData_am_of: "onData bytes s = (r, s') \<Longrightarrow> am_of s' = am_of s \<and> s_rest s' = s_rest s"
  using onData_rest [of bytes s] by (simp add: am_of_def)

lemma refused_frame:
  "refused lib s = (reason, s') \<Longrightarrow>
     s_net s' = s_net s \<and> s_conn s' = s_conn s \<and> snd (s_rest s') = snd (s_rest s) \<and>
     (\<exists>rs. am_of s' = (am_of s)\<lparr>am_refusals := rs\<rparr>)"
proof -
  have "\<exists>rs. am_of s = (am_of s)\<lparr>am_refusals := rs\<rparr>"
    by (rule exI [of _ "am_refusals (am_of s)"]) simp
  then show "refused lib s = (reason, s') \<Longrightarrow> ?thesis"
    by (auto simp: refused_def split: if_splits prod.splits)
qed

section \<open>Settling\<close>

fun disposition_command :: "nat \<Rightarrow> disposition \<Rightarrow> amqp_command list" where
  "disposition_command tag Ack = [Basic_Ack tag]"
| "disposition_command tag Requeue = [Basic_Reject tag True]"
| "disposition_command tag Reject = [Basic_Reject tag False]"
| "disposition_command tag Deferred = []"

definition counted :: "disposition \<Rightarrow> stats \<Rightarrow> stats" where
  "counted d =
     (case d of
        Ack \<Rightarrow> (\<lambda>s. s\<lparr>acksPerformed := acksPerformed s + 1\<rparr>)
      | Requeue \<Rightarrow> (\<lambda>s. s\<lparr>requeuesPerformed := requeuesPerformed s + 1\<rparr>)
      | Reject \<Rightarrow> (\<lambda>s. s\<lparr>rejectsPerformed := rejectsPerformed s + 1\<rparr>)
      | Deferred \<Rightarrow> (\<lambda>s. s))"

lemma performed_counted: "performed (counted d x) = tally (Inr d) (performed x)"
  by (cases d) (simp_all add: counted_def performed_def)

lemma settle_command_acknowledge:
  "d \<noteq> Deferred \<Longrightarrow>
     settle_command lib tag d = acknowledge lib (hd (disposition_command tag d)) (counted d)"
  by (rule ext, cases d) (simp_all add: settle_command_def counted_def)

text \<open>The commands other than dispositions.\<close>

fun order :: "amqp_command \<Rightarrow> bool" where
  "order (Basic_Ack tag) = False"
| "order (Basic_Reject tag again) = False"
| "order _ = True"

section \<open>No callback replaces the channel\<close>

definition same_channel :: "('p, 'h, 'm) am_over \<Rightarrow> ('p, 'h, 'm) am_over \<Rightarrow> bool" where
  "same_channel s s' \<longleftrightarrow> am_channel (am_of s') = am_channel (am_of s)"

lemma channel_command_same_channel:
  assumes "channel_command lib cmd s = (r, s')"
  shows "same_channel s s'"
proof -
  obtain reason s1 where 1: "refused lib s = (reason, s1)" by fastforce
  obtain x s2 where 2: "onData (lib_frame lib cmd) s1 = (x, s2)" by fastforce
  from assms 1 2 refused_frame [OF 1] onData_am_of [OF 2] show ?thesis
    by (cases reason; cases x; auto simp: same_channel_def channel_command_def write_frame_def)
qed

lemma settle_command_same_channel:
  assumes "settle_command lib tag d s = (r, s')"
  shows "same_channel s s'"
proof (cases "d = Deferred")
  case False
  obtain x s1 where 1: "channel_command lib (hd (disposition_command tag d)) s = (x, s1)" by fastforce
  from assms False 1 channel_command_same_channel [OF 1] show ?thesis
    by (cases x) (auto simp: settle_command_acknowledge acknowledge_def same_channel_def am_count_def)
qed (use assms in \<open>simp add: settle_command_def same_channel_def\<close>)

lemma onReceived_same_channel:
  assumes "onReceived lib body tag redelivered s = (r, s')"
  shows "same_channel s s'"
proof (cases "am_handler (am_of s)")
  case None
  with assms show ?thesis by (auto simp: onReceived_def Let_def stash_def am_count_def same_channel_def)
next
  case (Some f)
  let ?s1 = "am_upd (am_count (\<lambda>s. s\<lparr>received := received s + 1\<rparr>)) s"
  obtain outcome h where f: "f \<lparr>d_body = body, d_redelivered = redelivered, d_tag = tag\<rparr>
      (snd (s_rest s)) = (outcome, h)" by fastforce
  let ?s2 = "?s1\<lparr>s_rest := (am_of ?s1, h)\<rparr>"
  show ?thesis
  proof (cases "\<exists>d. outcome = Inr d \<and> d \<noteq> Deferred")
    case False
    with assms Some f show ?thesis
      by (cases outcome) (auto simp: onReceived_def Let_def am_count_def stash_def same_channel_def)
  next
    case True
    then obtain d where "settle_command lib tag d ?s2 = (r, s')"
      using assms Some f by (auto simp: onReceived_def Let_def am_count_def)
    from settle_command_same_channel [OF this] show ?thesis by (simp add: same_channel_def am_count_def)
  qed
qed

lemma run_callback_same_channel:
  assumes "run_callback lib cb s = (r, s')"
  shows "same_channel s s'"
proof (cases cb)
  case (On_Received body tag redelivered)
  with assms onReceived_same_channel [of lib body tag redelivered s r s'] show ?thesis
    by (simp add: run_callback_def same_channel_def split: if_splits)
qed (use assms in \<open>auto simp: run_callback_def onReady_def onError_def onClosed_def same_channel_def\<close>)

interpretation channel_stays: session_relation same_channel "run_callback lib"
  for lib :: "'p cpp_library"
  by unfold_locales (auto dest: run_callback_same_channel simp: same_channel_def)

section \<open>Relations between sessions\<close>

text \<open>
  \<open>view\<close> is what the relation looks at; the rest of the members are private to the operations. It may
  look at what the channel refuses, at the commands and at the channel as long as it is kept by a
  test for refusal, by logging a command that is no disposition, and by a channel that is opened or
  closed (but not by one that is left behind detached).
\<close>

locale channel_relation = session_relation R "run_callback lib"
  for R :: "('p, 'h) am_session \<Rightarrow> ('p, 'h) am_session \<Rightarrow> bool" and lib :: "'p cpp_library" +
  fixes view :: "('p, 'h) amqp_cpp \<Rightarrow> 'v"
  assumes rel_upd: "view (g (am_of s)) = view (am_of s) \<Longrightarrow> R s (am_upd g s)"
    and view_private:
      "view (t\<lparr>am_connection := c\<rparr>) = view t" "view (t\<lparr>am_terminated := b\<rparr>) = view t"
      "view (t\<lparr>am_outstandingDeferred := tags\<rparr>) = view t" "view (t\<lparr>am_routes := rs\<rparr>) = view t"
      "view (t\<lparr>am_next := k\<rparr>) = view t" "view (t\<lparr>am_cell := ce\<rparr>) = view t"
      "view (t\<lparr>am_failure := m\<rparr>) = view t" "view (t\<lparr>am_net := n\<rparr>) = view t"
    and rel_refused: "refused lib s = (reason, s') \<Longrightarrow> R s s'"
    and rel_logged: "order cmd \<Longrightarrow> R s (am_upd (\<lambda>t. t\<lparr>am_commands := am_commands t @ [cmd]\<rparr>) s)"
    and rel_channel: "ch \<noteq> Detached \<Longrightarrow> R s (am_upd (\<lambda>t. t\<lparr>am_channel := ch\<rparr>) s)"
begin

lemma rel_upd_after: "R s t \<Longrightarrow> view (g (am_of t)) = view (am_of t) \<Longrightarrow> R s (am_upd g t)"
  by (rule rel_trans [OF _ rel_upd])

lemma rel_write_frame:
  assumes "write_frame lib cmd s = (r, s')" "order cmd"
  shows "R s s'"
proof -
  obtain x s1 where 1: "onData (lib_frame lib cmd) s = (x, s1)" by fastforce
  have "s' = s1 \<or> s' = am_upd (\<lambda>t. t\<lparr>am_commands := am_commands t @ [cmd]\<rparr>) s1"
    using assms(1) 1 by (auto simp: write_frame_def split: sum.splits)
  with rel_onData [OF 1] rel_trans [OF rel_onData [OF 1] rel_logged [OF assms(2)]] show ?thesis by auto
qed

lemma rel_channel_command:
  assumes "channel_command lib cmd s = (r, s')" "order cmd"
  shows "R s s'"
proof -
  obtain reason s1 where 1: "refused lib s = (reason, s1)" by fastforce
  obtain x s2 where 2: "write_frame lib cmd s1 = (x, s2)" by fastforce
  have "s' = s1 \<or> s' = s2"
    using assms(1) 1 2 by (auto simp: channel_command_def split: option.splits sum.splits)
  with rel_refused [OF 1] rel_trans [OF rel_refused [OF 1] rel_write_frame [OF 2 assms(2)]] show ?thesis by auto
qed

lemma rel_new_cell: "new_cell s = (cell, s') \<Longrightarrow> R s s'"
  by (auto simp: new_cell_def Let_def view_private intro: rel_upd)

lemma rel_channel_request:
  assumes "channel_request lib cmd cell s = (r, s')" "order cmd"
  shows "R s s'"
proof -
  let ?s1 = "am_upd (\<lambda>t. t\<lparr>am_next := am_next (am_of s) + 1,
    am_cell := (am_cell t)(am_next (am_of s) := cell)\<rparr>) s"
  obtain x s2 where 2: "channel_command lib cmd ?s1 = (x, s2)" by fastforce
  have "R s ?s1" by (rule rel_upd) (simp add: view_private)
  then have s2: "R s s2" by (rule rel_trans [OF _ rel_channel_command [OF 2 assms(2)]])
  have "s' = s2 \<or> (\<exists>reason. s' = am_upd (\<lambda>t. t\<lparr>am_failure := (am_failure t)(cell := reason)\<rparr>) s2)"
    using assms(1) 2 by (auto simp: channel_request_def Let_def split: sum.splits option.splits)
  with s2 rel_upd_after [OF s2] show ?thesis by (auto simp: view_private)
qed

lemma rel_channel_ask:
  assumes "channel_ask lib cmd cell failed timed_out s = (r, s')" "order cmd"
  shows "R s s'"
proof -
  obtain x s1 where 1: "channel_request lib cmd cell s = (x, s1)" by fastforce
  note s1 = rel_channel_request [OF 1 assms(2)]
  show ?thesis
  proof (cases x)
    case (Inl e)
    with assms(1) 1 s1 show ?thesis by (simp add: channel_ask_def)
  next
    case (Inr k)
    obtain y s2 where 2: "am_wait lib (answered k cell) s1 = (y, s2)" by fastforce
    have "s' = s2"
      using assms(1) 1 2 Inr by (auto simp: channel_ask_def split: sum.splits if_splits option.splits)
    with rel_trans [OF s1 rel_wait_for [OF 2 [unfolded am_wait_def]]] show ?thesis by simp
  qed
qed

lemma rel_ask_once: "ask_once lib cmd verb doing tp s = (r, s') \<Longrightarrow> order cmd \<Longrightarrow> R s s'"
  by (auto simp: ask_once_def intro: rel_trans [OF rel_new_cell rel_channel_ask] split: prod.splits)

lemma rel_declare_one:
  assumes "declare_one lib tp opts s = (r, s')"
  shows "R s s'"
proof -
  obtain cell s0 where 0: "new_cell s = (cell, s0)" by fastforce
  obtain x s1 where 1: "(if group opts = [] then (Inr 0, s0)
      else channel_ask lib
             (Declare_Exchange (group opts) (amqpExchangeType (routing opts)) (durable opts)) cell
             (msg_group_refused (group opts)) (msg_timed_out ''declaring group'' (group opts)) s0) = (x, s1)"
    by fastforce
  obtain y s2 where 2: "channel_ask lib (Declare_Queue tp (declared_flags opts) (queueArguments tp opts)) cell
      (msg_topic_refused tp) (msg_timed_out ''declaring topic'' tp) s1 = (y, s2)" by fastforce
  obtain z s3 where 3: "channel_ask lib (Bind_Queue (group opts) tp (effective_route tp opts)) cell
      (msg_bind_refused tp (group opts)) (msg_timed_out ''binding topic'' tp) s2 = (z, s3)" by fastforce
  have s0: "R s s0" by (rule rel_new_cell [OF 0])
  have s1: "R s s1" using 1 s0 rel_trans [OF s0 rel_channel_ask] by (auto split: if_splits)
  have s2: "R s s2" by (rule rel_trans [OF s1 rel_channel_ask [OF 2]]) simp
  have s3: "R s s3" by (rule rel_trans [OF s2 rel_channel_ask [OF 3]]) simp
  have "s' = s1 \<or> s' = s2 \<or> s' = s3 \<or> s' = am_upd (\<lambda>t. t\<lparr>am_routes :=
      om_update tp (group opts, effective_route tp opts) (am_routes t)\<rparr>) s3"
    using assms unfolding declare_one_def 0 prod.case 1
    by (cases x; cases y; cases z; auto simp: 2 3 split: if_splits)
  with s1 s2 s3 rel_upd_after [OF s3] show ?thesis by (auto simp: view_private)
qed

lemma rel_declare_session:
  assumes "declare_session lib tp opts s = (r, s')"
  shows "R s s'"
proof -
  obtain x s1 where 1: "declare_one lib (deadLetterTopic tp) (forensicTopicOptions tp) s = (x, s1)"
    by fastforce
  show ?thesis
    using assms 1 rel_trans [OF rel_declare_one [OF 1] rel_declare_one]
      rel_declare_one [OF 1] rel_declare_one
    by (auto simp: declare_session_def split: if_splits sum.splits)
qed

lemma rel_start_session:
  assumes "start_session lib s = (r, s')"
  shows "R s s'"
proof -
  obtain x s1 where 1: "channel_command lib (Set_Qos 1) s = (x, s1)" by fastforce
  obtain cell s2 where 2: "new_cell s1 = (cell, s2)" by fastforce
  have s1: "R s s1" by (rule rel_channel_command [OF 1]) simp
  note s2 = rel_trans [OF s1 rel_new_cell [OF 2]]
  let ?tp = "am_topic (am_of s2)"
  obtain y s3 where 3: "channel_ask lib (Consume ?tp) cell
      (\<lambda>reason. ''failed to subscribe to '' @ quoted ?tp @ '': '' @ reason)
      (msg_timed_out ''subscribing to'' ?tp) s2 = (y, s3)" by fastforce
  have "s' = s1 \<or> s' = s3"
    using assms 1 2 3 by (auto simp: start_session_def Let_def split: sum.splits)
  with s1 rel_trans [OF s2 rel_channel_ask [OF 3]] show ?thesis by auto
qed

end

section \<open>Relations between transports\<close>

text \<open>The transport at rest as a session, whose connection is of no interest.\<close>

definition at_rest :: "('p, 'h) amqp_cpp \<Rightarrow> 'm \<Rightarrow> ('p, 'h, 'm) am_over" where
  "at_rest t h = \<lparr>s_conn = amqp_connection_new [] 0 [] [] [], s_net = am_net t, s_rest = (t, h)\<rparr>"

lemma at_rest_sel [simp]:
  "am_of (at_rest t h) = t" "s_net (at_rest t h) = am_net t" "s_rest (at_rest t h) = (t, h)"
  by (simp_all add: at_rest_def am_of_def)

context channel_relation
begin

lemma rel_at_rest:
  assumes "am_net (g t) = am_net t" "view (g t) = view t"
  shows "R (at_rest t h) (at_rest (g t) h)"
proof -
  have "at_rest (g t) h = am_upd g (at_rest t h)"
    using assms(1) by (simp add: at_rest_def am_upd_def)
  with assms(2) show ?thesis by (simp add: rel_upd)
qed

lemma rel_enter: "R (at_rest t h) \<lparr>s_conn = c, s_net = am_net t, s_rest = (t, h)\<rparr>"
  using rel_conn [of "at_rest t h" "\<lambda>_. c"] by (simp add: set_conn_def at_rest_def)

lemma rel_leave:
  assumes "view t = view (am_of s)" "am_net t = s_net s" "h = snd (s_rest s)"
  shows "R s (at_rest t h)"
proof -
  have "at_rest t h = set_conn (\<lambda>_. amqp_connection_new [] 0 [] [] []) (am_upd (\<lambda>_. t) s)"
    using assms by (simp add: set_conn_def at_rest_def am_upd_def)
  moreover have "R s (am_upd (\<lambda>_. t) s)" using assms(1) by (intro rel_upd) simp
  ultimately show ?thesis by (simp add: rel_conn_after)
qed

lemma rel_with_connection:
  assumes "with_connection c m t h = (r, t', h')" "\<And>s r s'. m s = (r, s') \<Longrightarrow> R s s'"
  shows "R (at_rest t h) (at_rest t' h')"
proof -
  let ?s = "\<lparr>s_conn = c, s_net = am_net t, s_rest = (t, h)\<rparr>"
  obtain x s where s: "m ?s = (x, s)" by fastforce
  have "R s (at_rest t' h')"
    using assms(1) s by (intro rel_leave) (auto simp: with_connection_def view_private am_of_def)
  with rel_trans [OF rel_enter assms(2) [OF s]] show ?thesis by (rule rel_trans)
qed

lemma rel_over_connection:
  assumes "over_connection m t h = (r, t', h')" "\<And>s r s'. m s = (r, s') \<Longrightarrow> R s s'"
  shows "R (at_rest t h) (at_rest t' h')"
  using assms rel_with_connection [OF _ assms(2)]
  by (auto simp: over_connection_def rel_refl split: option.splits)

lemma rel_no_channel: "R (at_rest t h) (at_rest (t\<lparr>am_channel := No_Channel\<rparr>) h)"
  using rel_channel [of No_Channel "at_rest t h"] by (simp add: am_upd_def at_rest_def)

lemma rel_reset_channel:
  assumes "reset_channel lib t h = (t', h')"
  shows "R (at_rest t h) (at_rest t' h') \<and> am_channel t' = No_Channel"
proof (cases "am_channel t = Attached \<and> am_connection t \<noteq> None")
  case True
  then obtain c where c: "am_channel t = Attached" "am_connection t = Some c" by blast
  obtain r t1 h1 where 1: "with_connection c (channel_command lib Channel_Close) t h = (r, t1, h1)"
    by (metis prod_cases3)
  let ?t = "t1\<lparr>am_channel := No_Channel\<rparr>"
  have t': "t' = ?t\<lparr>am_terminated := am_terminated ?t \<or> isl r\<rparr>" "h' = h1"
    using assms c 1 by (simp_all add: reset_channel_def)
  have "R (at_rest t h) (at_rest t1 h1)"
    by (rule rel_with_connection [OF 1]) (rule rel_channel_command, assumption, simp)
  note closed = rel_trans [OF this rel_no_channel]
  have "R (at_rest ?t h1) (at_rest (?t\<lparr>am_terminated := am_terminated ?t \<or> isl r\<rparr>) h1)"
    using rel_at_rest [of "\<lambda>t. t\<lparr>am_terminated := am_terminated t \<or> isl r\<rparr>" ?t] by (simp add: view_private)
  from rel_trans [OF closed this] show ?thesis unfolding t' by simp
next
  case False
  then have "t' = t\<lparr>am_channel := No_Channel\<rparr>" "h' = h"
    using assms by (auto simp: reset_channel_def split: channel_state.splits option.splits)
  then show ?thesis by (simp add: rel_no_channel)
qed

lemma rel_destroy_connection:
  assumes "destroy_connection lib old t h = (t', h')" "am_channel t \<noteq> Attached"
  shows "R (at_rest t h) (at_rest t' h') \<and> am_channel t' = am_channel t"
proof (cases old)
  case (Some c)
  let ?s = "\<lparr>s_conn = c, s_net = am_net t, s_rest = (t, h)\<rparr>"
  let ?d = "destroy (cpp_lib lib) (run_callback lib) ?s"
  have "same_channel ?s ?d" by (rule channel_stays.rel_destroy)
  then have c: "am_channel (am_of ?d) = am_channel t" by (simp add: same_channel_def am_of_def)
  then have t': "t' = (am_of ?d)\<lparr>am_net := s_net ?d\<rparr>" "h' = snd (s_rest ?d)"
    using assms Some by (auto simp: destroy_connection_def Let_def)
  have "R ?d (at_rest t' h')" unfolding t' by (intro rel_leave) (simp_all add: view_private)
  with rel_trans [OF rel_enter rel_destroy] have "R (at_rest t h) (at_rest t' h')" by (rule rel_trans)
  with c t' show ?thesis by simp
qed (use assms in \<open>simp add: destroy_connection_def rel_refl\<close>)

lemma rel_openConnection:
  assumes "openConnection lib t h = (r, t', h')" "am_channel t \<noteq> Attached"
  shows "R (at_rest t h) (at_rest t' h')"
proof -
  let ?c = "amqp_connection_new (ep_host (am_endpoint t)) (amqp_port (am_endpoint t))
    (ep_user (am_endpoint t)) (ep_password (am_endpoint t)) (ep_realm (am_endpoint t))"
  obtain t1 h1 where 1: "destroy_connection lib (am_connection t) (t\<lparr>am_connection := Some ?c\<rparr>) h = (t1, h1)"
    by fastforce
  have "R (at_rest t h) (at_rest (t\<lparr>am_connection := Some ?c\<rparr>) h)"
    using rel_at_rest [of "\<lambda>t. t\<lparr>am_connection := Some ?c\<rparr>"] by (simp add: view_private)
  with rel_destroy_connection [OF 1] assms(2) have t1: "R (at_rest t h) (at_rest t1 h1)"
    by (auto intro: rel_trans)
  let ?m = "\<lambda>s. case connect (cpp_lib lib) (run_callback lib) s of
      (Inl e, s1) \<Rightarrow> (Inl e, s1)
    | (Inr _, s1) \<Rightarrow>
        (case write_frame lib Channel_Open s1 of
           (Inl e, s2) \<Rightarrow> (Inl e, s2)
         | (Inr _, s2) \<Rightarrow> (Inr (), am_upd (\<lambda>t. t\<lparr>am_channel := Attached\<rparr>) s2))"
  have m: "R s s'" if "?m s = (x, s')" for s x s'
  proof -
    obtain y s1 where c: "connect (cpp_lib lib) (run_callback lib) s = (y, s1)" by fastforce
    obtain z s2 where w: "write_frame lib Channel_Open s1 = (z, s2)" by fastforce
    have s2: "R s s2" by (rule rel_trans [OF rel_connect [OF c] rel_write_frame [OF w]]) simp
    have "s' = s1 \<or> s' = s2 \<or> s' = am_upd (\<lambda>t. t\<lparr>am_channel := Attached\<rparr>) s2"
      using that c w by (auto split: sum.splits)
    with rel_connect [OF c] s2 rel_trans [OF s2 rel_channel [of Attached]] show ?thesis by auto
  qed
  have "with_connection ?c ?m t1 h1 = (r, t', h')"
    using assms(1) 1 by (simp add: openConnection_def Let_def)
  from rel_trans [OF t1 rel_with_connection [OF this m]] show ?thesis .
qed

lemma rel_am_declare:
  assumes "am_declare lib tp opts t h = (r, t', h')"
  shows "R (at_rest t h) (at_rest t' h')"
  using assms rel_over_connection [OF _ rel_declare_session] rel_refl
  by (auto simp: am_declare_def split: if_splits)

lemma rel_reopen:
  assumes "reopen lib t h = (r, t', h')"
  shows "R (at_rest t h) (at_rest t' h')"
proof -
  obtain t1 h1 where 1: "reset_channel lib t h = (t1, h1)" by fastforce
  obtain t2 h2 where 2: "destroy_connection lib (am_connection t1) (t1\<lparr>am_connection := None\<rparr>) h1 = (t2, h2)"
    by fastforce
  have 3: "openConnection lib (t2\<lparr>am_outstandingDeferred := {}\<rparr>) h2 = (r, t', h')"
    using assms 1 2 by (simp add: reopen_def)
  have "R (at_rest t1 h1) (at_rest (t1\<lparr>am_connection := None\<rparr>) h1)"
    using rel_at_rest [of "\<lambda>t. t\<lparr>am_connection := None\<rparr>"] by (simp add: view_private)
  with rel_reset_channel [OF 1] rel_destroy_connection [OF 2]
  have t2: "R (at_rest t h) (at_rest t2 h2)" "am_channel t2 = No_Channel"
    by (auto intro: rel_trans)
  have "R (at_rest t2 h2) (at_rest (t2\<lparr>am_outstandingDeferred := {}\<rparr>) h2)"
    using rel_at_rest [of "\<lambda>t. t\<lparr>am_outstandingDeferred := {}\<rparr>"] by (simp add: view_private)
  note rel_trans [OF t2(1) this]
  moreover have "am_channel (t2\<lparr>am_outstandingDeferred := {}\<rparr>) \<noteq> Attached" using t2(2) by simp
  ultimately show ?thesis using rel_openConnection [OF 3] by (blast intro: rel_trans)
qed

lemma rel_resume:
  assumes "resume lib t h = (r, t', h')"
  shows "R (at_rest t h) (at_rest t' h')"
proof -
  obtain x t1 h1 where 1: "(if am_topicDeclared t then am_declare lib (am_topic t) (am_topicOptions t) t h
      else (Inr 0, t, h)) = (x, t1, h1)" by (metis prod_cases3)
  obtain y t2 h2 where 2: "over_connection (start_session lib) t1 h1 = (y, t2, h2)" by (metis prod_cases3)
  have t1: "R (at_rest t h) (at_rest t1 h1)"
    using 1 rel_refl rel_am_declare by (auto split: if_splits)
  have "(t', h') = (t1, h1) \<or> (t', h') = (t2, h2)"
    using assms unfolding resume_def 1 by (cases x) (auto simp: 2 split: if_splits)
  with t1 rel_trans [OF t1 rel_over_connection [OF 2 rel_start_session]] show ?thesis by auto
qed

lemma rel_restore:
  assumes "restore lib t h = (r, t', h')"
  shows "R (at_rest t h) (at_rest t' h')"
proof -
  obtain x t1 h1 where 1: "reopen lib t h = (x, t1, h1)" by (metis prod_cases3)
  from assms 1 rel_reopen [OF 1] rel_trans [OF rel_reopen [OF 1] rel_resume] show ?thesis
    by (cases x) (auto simp: restore_def)
qed

end

section \<open>Pumping\<close>

text \<open>A relation that does not look at the schedule of reconnections either is kept by every pump.\<close>

locale pumping_relation = channel_relation R lib view
  for R :: "('p, 'h) am_session \<Rightarrow> ('p, 'h) am_session \<Rightarrow> bool" and lib :: "'p cpp_library"
    and view :: "('p, 'h) amqp_cpp \<Rightarrow> 'v" +
  assumes view_schedule:
    "view (t\<lparr>am_clock := clock\<rparr>) = view t" "view (t\<lparr>am_failedAttempts := n\<rparr>) = view t"
    "view (t\<lparr>am_nextAttempt := i\<rparr>) = view t" "view (t\<lparr>am_handlerFailure := x\<rparr>) = view t"
    "view (am_count (\<lambda>s. s\<lparr>reconnects := reconnects s + 1\<rparr>) t) = view t"
begin

lemma rel_read_clock: "read_clock t = (now, t') \<Longrightarrow> R (at_rest t h) (at_rest t' h)"
  using rel_at_rest [of "\<lambda>t. t\<lparr>am_clock := snd (pop 0 (am_clock t))\<rparr>" t h]
  by (auto simp: read_clock_def view_schedule split: prod.splits)

lemma rel_serviceReconnect:
  assumes "serviceReconnect lib t h = (r, t', h')"
  shows "R (at_rest t h) (at_rest t' h')"
proof -
  obtain now t0 where 0: "read_clock t = (now, t0)" by fastforce
  obtain x t1 h1 where 1: "restore lib (t0\<lparr>am_failedAttempts := am_failedAttempts t0 + 1\<rparr>) h = (x, t1, h1)"
    by (metis prod_cases3)
  obtain later t2 where 2: "read_clock t1 = (later, t2)" by fastforce
  note t0 = rel_read_clock [OF 0, of h]
  have "R (at_rest t0 h) (at_rest (t0\<lparr>am_failedAttempts := am_failedAttempts t0 + 1\<rparr>) h)"
    using rel_at_rest [of "\<lambda>t. t\<lparr>am_failedAttempts := am_failedAttempts t + 1\<rparr>"] by (simp add: view_schedule)
  note t1 = rel_trans [OF rel_trans [OF t0 this] rel_restore [OF 1]]
  have "R (at_rest t h) (at_rest (t2\<lparr>am_nextAttempt := i\<rparr>) h1)" for i
    by (rule rel_trans [OF rel_trans [OF t1 rel_read_clock [OF 2]] rel_at_rest [of "\<lambda>t. t\<lparr>am_nextAttempt := i\<rparr>"]])
      (simp_all add: view_schedule)
  moreover have "R (at_rest t h)
      (at_rest (am_count (\<lambda>s. s\<lparr>reconnects := reconnects s + 1\<rparr>) (t1\<lparr>am_failedAttempts := 0\<rparr>)) h1)"
    by (rule rel_trans [OF t1 rel_at_rest [of "\<lambda>t. am_count (\<lambda>s. s\<lparr>reconnects := reconnects s + 1\<rparr>)
        (t\<lparr>am_failedAttempts := 0\<rparr>)"]])
      (simp add: am_count_def, simp add: view_schedule [simplified])
  moreover have "(t', h') = (t, h) \<or> (t', h') = (t0, h) \<or> (t', h') = (t1, h1) \<or>
      (\<exists>i. (t', h') = (t2\<lparr>am_nextAttempt := i\<rparr>, h1)) \<or>
      (t', h') = (am_count (\<lambda>s. s\<lparr>reconnects := reconnects s + 1\<rparr>) (t1\<lparr>am_failedAttempts := 0\<rparr>), h1)"
    using assms unfolding serviceReconnect_def 0 prod.case 1
    by (cases x) (auto simp: 2 split: if_splits)
  ultimately show ?thesis using t0 t1 rel_refl by fastforce
qed

lemma rel_am_pump:
  assumes "am_pump lib t h = (r, t', h')"
  shows "R (at_rest t h) (at_rest t' h')"
proof -
  let ?lost = "\<lambda>t h. if rp_enabled (am_policy t) then serviceReconnect lib t h else (Inr False, t, h)"
  have lost: "R (at_rest t h) (at_rest t' h')" if "?lost t h = (r, t', h')" for t h
    using that rel_serviceReconnect rel_refl by (auto split: if_splits)
  show ?thesis
  proof (cases "\<exists>c. am_connection t = Some c \<and> \<not> ac_closed c")
    case False
    with assms have "?lost t h = (r, t', h')"
      unfolding am_pump_def Let_def by (auto split: option.splits)
    then show ?thesis by (rule lost)
  next
    case True
    then obtain c where c: "am_connection t = Some c" "\<not> ac_closed c" by blast
    obtain x t1 h1 where 1: "with_connection c (am_wait lib (\<lambda>_. False)) t h = (x, t1, h1)"
      by (metis prod_cases3)
    have t1: "R (at_rest t h) (at_rest t1 h1)"
      by (rule rel_with_connection [OF 1]) (unfold am_wait_def, rule rel_wait_for)
    have "(t', h') = (t1, h1) \<or> (t', h') = (t1\<lparr>am_handlerFailure := None\<rparr>, h1) \<or> ?lost t1 h1 = (r, t', h')"
      using assms c unfolding am_pump_def Let_def c(1) option.case
      by (cases x) (auto simp: 1 split: if_splits option.splits)
    moreover have "R (at_rest t h) (at_rest (t1\<lparr>am_handlerFailure := None\<rparr>) h1)"
      by (rule rel_trans [OF t1 rel_at_rest [of "\<lambda>t. t\<lparr>am_handlerFailure := None\<rparr>"]])
        (simp_all add: view_schedule)
    ultimately show ?thesis using t1 rel_trans [OF t1 lost [of t1 h1]] by blast
  qed
qed

end

end
