(* ===== verification/Amqp_Cpp_Contract.thy ===== *)
theory Amqp_Cpp_Contract
  imports Amqp_Cpp_Relations Consumer_Props
begin

text \<open>
  The AMQP-CPP backend honours the contract of acknowledgement while no write fails: whatever the
  broker sends, however it is cut into reads, and across lost connections, the dispositions the
  transport performed are those its handler decided. Where the channel refuses nothing, they are
  also the dispositions among the commands it sent.
\<close>

section \<open>What a session serves\<close>

text \<open>The memory of the handler together with what was performed.\<close>

definition memory :: "('p, 'h, 'm) am_over \<Rightarrow> 'm \<times> nat \<times> nat \<times> nat" where
  "memory s = (snd (s_rest s), performed (am_stats (am_of s)))"

definition no_failing_write :: "net \<Rightarrow> bool" where
  "no_failing_write n \<longleftrightarrow> list_all (\<lambda>w. w = None) (net_writes n)"

lemma no_failing_write_later: "later n n' \<Longrightarrow> no_failing_write n \<Longrightarrow> no_failing_write n'"
  unfolding later_def no_failing_write_def list_all_iff by (metis in_set_dropD)

definition serving :: "'h delivery_handler \<Rightarrow> ('p, 'h, 'm) am_over \<Rightarrow> bool" where
  "serving f s \<longleftrightarrow> no_failing_write (s_net s) \<and> am_handler (am_of s) = Some f"

definition served :: "'h delivery_handler \<Rightarrow> ('p, 'h) am_session \<Rightarrow> ('p, 'h) am_session \<Rightarrow> bool" where
  "served f s s' \<longleftrightarrow> (serving f s \<longrightarrow> serving f s' \<and> (serve f)\<^sup>*\<^sup>* (memory s) (memory s'))"

lemma served_same:
  assumes "later (s_net s) (s_net s')" "am_handler (am_of s') = am_handler (am_of s)" "memory s' = memory s"
  shows "served f s s'"
  using assms no_failing_write_later by (auto simp: served_def serving_def)

lemma served_refl: "served f s s"
  by (rule served_same) simp_all

lemma served_trans: "served f s t \<Longrightarrow> served f t u \<Longrightarrow> served f s u"
  unfolding served_def using rtranclp_trans by metis

lemma served_conn: "served f s (set_conn g s)"
  by (rule served_same) (simp_all add: memory_def)

lemma served_net: "later (s_net s) n \<Longrightarrow> served f s (s\<lparr>s_net := n\<rparr>)"
  by (rule served_same) (simp_all add: memory_def)

lemma served_upd:
  "am_handler (g (am_of s)) = am_handler (am_of s) \<Longrightarrow>
     performed (am_stats (g (am_of s))) = performed (am_stats (am_of s)) \<Longrightarrow> served f s (am_upd g s)"
  by (rule served_same) (simp_all add: memory_def)

section \<open>One command\<close>

lemma onData_serving:
  assumes "no_failing_write (s_net s)" "onData bytes s = (r, s')"
  shows "r = Inr () \<and> no_failing_write (s_net s') \<and> s_rest s' = s_rest s"
proof -
  obtain w ws where w: "pop None (net_writes (s_net s)) = (w, ws)" by fastforce
  with assms(1) have "w = None" "list_all (\<lambda>w. w = None) ws"
    by (cases "net_writes (s_net s)"; simp add: no_failing_write_def)+
  with assms(2) w show ?thesis
    by (auto simp: onData_def Let_def no_failing_write_def)
qed

lemma channel_command_serving:
  assumes "no_failing_write (s_net s)" "channel_command lib cmd s = (r, s')"
  shows "(\<exists>x. r = Inr x) \<and> no_failing_write (s_net s') \<and> memory s' = memory s \<and>
    am_handler (am_of s') = am_handler (am_of s)"
proof -
  obtain reason s1 where 1: "refused lib s = (reason, s1)" by fastforce
  obtain x s2 where 2: "onData (lib_frame lib cmd) s1 = (x, s2)" by fastforce
  note f = refused_frame [OF 1]
  have "no_failing_write (s_net s1)" using f assms(1) by simp
  note d = onData_serving [OF this 2] onData_am_of [OF 2]
  show ?thesis
    using assms 1 2 f d
    by (auto simp: channel_command_def write_frame_def memory_def split: option.splits sum.splits)
qed

lemma acknowledge_serving:
  assumes "no_failing_write (s_net s)" "acknowledge lib cmd g s = (r, s')"
    and "\<And>x. performed (g x) = tally (Inr d) (performed x)"
  shows "r = Inr () \<and> no_failing_write (s_net s') \<and>
    memory s' = (fst (memory s), tally (Inr d) (snd (memory s))) \<and>
    am_handler (am_of s') = am_handler (am_of s)"
proof -
  obtain x s1 where 1: "channel_command lib cmd s = (x, s1)" by fastforce
  from channel_command_serving [OF assms(1) 1] assms 1 show ?thesis
    by (auto simp: acknowledge_def am_count_def memory_def)
qed

lemma settle_command_serving:
  assumes "no_failing_write (s_net s)" "settle_command lib tag d s = (r, s')"
  shows "r = Inr () \<and> no_failing_write (s_net s') \<and>
    memory s' = (fst (memory s), tally (Inr d) (snd (memory s))) \<and>
    am_handler (am_of s') = am_handler (am_of s)"
proof (cases "d = Deferred")
  case True
  with assms show ?thesis by (cases "memory s") (auto simp: settle_command_def)
next
  case False
  then have "acknowledge lib (hd (disposition_command tag d)) (counted d) s = (r, s')"
    using assms(2) by (simp add: settle_command_acknowledge)
  from acknowledge_serving [OF assms(1) this performed_counted] show ?thesis .
qed

section \<open>One callback\<close>

lemma served_call:
  assumes "am_handler (am_of s) = Some f" "f d (snd (s_rest s)) = (outcome, h)"
    and "memory s' = (h, tally outcome (snd (memory s)))"
    and "no_failing_write (s_net s) \<Longrightarrow> serving f s'"
  shows "served f s s'"
  using assms serve_once [of f d "snd (s_rest s)" outcome h "snd (memory s)"]
  by (auto simp: served_def serving_def memory_def)

lemma tally_Inl [simp]: "tally (Inl e) x = x"
  by (cases x) simp

lemma onReceived_served:
  assumes "onReceived lib body tag redelivered s = (r, s')"
  shows "served f s s'"
proof (cases "serving f s")
  case True
  let ?s1 = "am_upd (am_count (\<lambda>s. s\<lparr>received := received s + 1\<rparr>)) s"
  let ?d = "\<lparr>d_body = body, d_redelivered = redelivered, d_tag = tag\<rparr>"
  obtain outcome h where f: "f ?d (snd (s_rest s)) = (outcome, h)" by fastforce
  let ?s2 = "?s1\<lparr>s_rest := (am_of ?s1, h)\<rparr>"
  have s2: "am_of ?s2 = am_of ?s1" "snd (s_rest ?s2) = h" by simp_all
  have handler: "am_handler (am_of s) = Some f" "am_handler (am_of ?s1) = Some f"
    and w: "no_failing_write (s_net ?s2)"
    using True by (simp_all add: serving_def am_count_def)
  have mem: "memory ?s2 = (h, snd (memory s))"
    by (simp add: memory_def am_count_def performed_def)
  show ?thesis
  proof (cases outcome)
    case (Inl e)
    then have "s' = am_upd (stash e) ?s2"
      using assms handler f by (simp add: onReceived_def Let_def)
    then show ?thesis
      using f handler w mem s2 Inl
      by (intro served_call [OF handler(1) f])
        (simp_all add: memory_def serving_def stash_def am_count_def performed_def)
  next
    case (Inr d)
    show ?thesis
    proof (cases "d = Deferred")
      case True
      then have "s' = am_upd (\<lambda>t. t\<lparr>am_outstandingDeferred := insert tag (am_outstandingDeferred t)\<rparr>) ?s2"
        using assms handler f Inr by (simp add: onReceived_def Let_def)
      then show ?thesis
        using f handler w mem s2 Inr True
        by (intro served_call [OF handler(1) f])
          (cases "snd (memory s)", simp_all add: memory_def serving_def)
    next
      case False
      then have "settle_command lib tag d ?s2 = (r, s')"
        using assms handler f Inr by (simp add: onReceived_def Let_def)
      from settle_command_serving [OF w this] show ?thesis
        using f handler mem s2 Inr by (intro served_call [OF handler(1) f]) (simp_all add: serving_def)
    qed
  qed
qed (simp add: served_def)

lemma run_callback_served:
  assumes "run_callback lib cb s = (r, s')"
  shows "served f s s'"
  using assms onReceived_served [of lib] served_refl
  by (cases cb)
    (auto simp: run_callback_def onReady_def onError_def onClosed_def set_closed_def
      intro: served_conn served_upd split: if_splits)

interpretation served: pumping_relation "served f" lib "\<lambda>t. (am_handler t, performed (am_stats t))"
  for f :: "'h delivery_handler" and lib :: "'p cpp_library"
proof
  show "served f s s" for s :: "('p, 'h) am_session" by (rule served_refl)
  show "served f s u" if "served f s t" "served f t u" for s t u :: "('p, 'h) am_session"
    by (rule served_trans [OF that])
  show "served f s (set_conn g s)" for g and s :: "('p, 'h) am_session" by (rule served_conn)
  show "served f s (s\<lparr>s_net := n\<rparr>)" if "later (s_net s) n" for n and s :: "('p, 'h) am_session"
    by (rule served_net [OF that])
  show "served f s s'" if "run_callback lib c s = (r, s')" for c r and s s' :: "('p, 'h) am_session"
    by (rule run_callback_served [OF that])
  show "served f s (am_upd g s)"
    if "(am_handler (g (am_of s)), performed (am_stats (g (am_of s)))) =
      (am_handler (am_of s), performed (am_stats (am_of s)))" for g and s :: "('p, 'h) am_session"
    by (rule served_upd) (use that in simp_all)
next
  show "served f s s'" if "refused lib s = (reason, s')" for reason and s s' :: "('p, 'h) am_session"
    using refused_frame [OF that] by (intro served_same) (auto simp: memory_def)
qed (simp_all add: served_upd am_count_def performed_def)

section \<open>The contract of acknowledgement\<close>

definition am_sound :: "('p, 'h) amqp_cpp \<Rightarrow> bool" where
  "am_sound t \<longleftrightarrow> no_failing_write (am_net t)"

lemma am_statistics_performed [simp]: "performed (am_statistics t) = performed (am_stats t)"
  by (simp add: am_statistics_def performed_def split: option.split)

lemma amqp_transport_sel [simp]:
  "it_pump (amqp_transport lib) e t h = am_pump lib t h"
  "it_settle (amqp_transport lib) tag d t = am_settle lib tag d t"
  "it_stats (amqp_transport lib) t = am_statistics t"
  by (simp_all add: amqp_transport_def)

lemma over_connection_settle:
  assumes "over_connection (settle_command lib tag d) t () = (r, t', u)" "no_failing_write (am_net t)"
  shows "no_failing_write (am_net t') \<and> am_handler t' = am_handler t \<and>
    performed (am_stats t') =
      (case r of Inl x \<Rightarrow> performed (am_stats t) | Inr _ \<Rightarrow> tally (Inr d) (performed (am_stats t)))"
proof (cases "am_connection t")
  case (Some c)
  let ?s = "\<lparr>s_conn = c, s_net = am_net t, s_rest = (t, ())\<rparr>"
  obtain x s where s: "settle_command lib tag d ?s = (x, s)" by fastforce
  have "x = Inr () \<and> no_failing_write (s_net s) \<and>
    memory s = (fst (memory ?s), tally (Inr d) (snd (memory ?s))) \<and>
    am_handler (am_of s) = am_handler (am_of ?s)"
    by (rule settle_command_serving [OF _ s]) (simp add: assms(2))
  with assms(1) Some s show ?thesis
    by (auto simp: over_connection_def with_connection_def memory_def am_of_def)
qed (use assms in \<open>auto simp: over_connection_def\<close>)

interpretation am: acknowledging "it_pump (amqp_transport lib)" "it_settle (amqp_transport lib)"
    am_handler "it_stats (amqp_transport lib)" "\<lambda>_. True" am_sound
  for lib :: "'p cpp_library"
proof
  fix t :: "('p, 'h) amqp_cpp" and e f h ok t' h'
  assume "am_sound t" "am_handler t = Some f" "it_pump (amqp_transport lib) e t h = (ok, t', h')"
  with served.rel_am_pump [of lib t h ok t' h' f]
  show "am_sound t' \<and> am_handler t' = Some f \<and>
    (serve f)\<^sup>*\<^sup>* (h, performed (it_stats (amqp_transport lib) t)) (h', performed (it_stats (amqp_transport lib) t'))"
    by (simp add: served_def serving_def memory_def am_sound_def)
next
  fix t :: "('p, 'h) amqp_cpp" and tag d r t'
  assume s: "am_sound t" "it_settle (amqp_transport lib) tag d t = (r, t')"
  show "am_sound t' \<and> am_handler t' = am_handler t \<and>
    performed (it_stats (amqp_transport lib) t') =
      (case r of Inl x \<Rightarrow> performed (it_stats (amqp_transport lib) t)
       | Inr _ \<Rightarrow> tally (Inr d) (performed (it_stats (amqp_transport lib) t)))"
  proof (cases "am_channel t \<noteq> No_Channel \<and> d \<noteq> Deferred \<and> tag \<in> am_outstandingDeferred t")
    case False
    with s show ?thesis by (auto simp: am_settle_def split: if_splits)
  next
    case True
    then have "over_connection (settle_command lib tag d)
        (t\<lparr>am_outstandingDeferred := am_outstandingDeferred t - {tag}\<rparr>) () = (r, t', ())"
      using s(2) by (auto simp: am_settle_def split: prod.splits)
    from over_connection_settle [OF this] s(1) show ?thesis by (cases r) (simp_all add: am_sound_def)
  qed
qed

interpretation am_consumed: consumed "amqp_transport lib" am_handler "\<lambda>_. True" am_sound
  for lib :: "'p cpp_library"
  by (unfold_locales; rule am.pump_contract am.settle_contract; assumption)

section \<open>Counters and commands\<close>

text \<open>
  The code counts a disposition whatever \<open>ack\<close> and \<open>reject\<close> return. On a channel that is not detached
  and refuses nothing, each disposition that is counted is also a command on the wire.
\<close>

fun answer_of :: "amqp_command \<Rightarrow> disposition option" where
  "answer_of (Basic_Ack tag) = Some Ack"
| "answer_of (Basic_Reject tag again) = Some (if again then Requeue else Reject)"
| "answer_of _ = None"

definition answers_sent :: "disposition \<Rightarrow> amqp_command list \<Rightarrow> nat" where
  "answers_sent d cmds = length (filter (\<lambda>cmd. answer_of cmd = Some d) cmds)"

definition told :: "amqp_command list \<Rightarrow> nat \<times> nat \<times> nat" where
  "told cmds = (answers_sent Ack cmds, answers_sent Reject cmds, answers_sent Requeue cmds)"

lemma told_order: "order cmd \<Longrightarrow> told (cmds @ [cmd]) = told cmds"
  by (cases cmd) (simp_all add: told_def answers_sent_def)

lemma told_disposition:
  "d \<noteq> Deferred \<Longrightarrow> told (cmds @ [hd (disposition_command tag d)]) = tally (Inr d) (told cmds)"
  by (cases d) (simp_all add: told_def answers_sent_def)

definition matched :: "('p, 'h) amqp_cpp \<Rightarrow> bool" where
  "matched t \<longleftrightarrow>
     am_refusals t = [] \<and> am_channel t \<noteq> Detached \<and> told (am_commands t) = performed (am_stats t)"

lemma matched_same:
  "am_refusals t' = am_refusals t \<Longrightarrow> am_channel t' = am_channel t \<Longrightarrow>
     told (am_commands t') = told (am_commands t) \<Longrightarrow>
     performed (am_stats t') = performed (am_stats t) \<Longrightarrow> matched t \<Longrightarrow> matched t'"
  by (simp add: matched_def)

lemma refused_matched:
  assumes "refused lib s = (reason, s')" "am_refusals (am_of s) = []"
  shows "(reason = None \<longleftrightarrow> am_channel (am_of s) = Attached) \<and> am_of s' = am_of s"
  using assms by (auto simp: refused_def split: if_splits)

lemma settle_command_matched:
  assumes "settle_command lib tag d s = (r, s')" "am_channel (am_of s) = Attached" "matched (am_of s)"
  shows "matched (am_of s')"
proof (cases "d = Deferred")
  case True
  with assms show ?thesis by (simp add: settle_command_def)
next
  case False
  let ?cmd = "hd (disposition_command tag d)"
  obtain reason s1 where 1: "refused lib s = (reason, s1)" by fastforce
  then have s1: "reason = None" "am_of s1 = am_of s"
    using refused_matched [OF 1] assms(2,3) by (simp_all add: matched_def)
  obtain x s2 where 2: "onData (lib_frame lib ?cmd) s1 = (x, s2)" by fastforce
  note s2 = onData_am_of [OF 2]
  have "acknowledge lib ?cmd (counted d) s = (r, s')"
    using assms(1) False by (simp add: settle_command_acknowledge)
  then show ?thesis
    using 1 2 s1 s2 assms(3) told_disposition [OF False] performed_counted
    by (cases x) (auto simp: acknowledge_def channel_command_def write_frame_def matched_def am_count_def)
qed

lemma onReceived_matched:
  assumes "onReceived lib body tag redelivered s = (r, s')" "am_channel (am_of s) = Attached"
    and "matched (am_of s)"
  shows "matched (am_of s')"
proof (cases "am_handler (am_of s)")
  case None
  with assms show ?thesis
    by (auto simp: onReceived_def Let_def stash_def am_count_def matched_def performed_def)
next
  case (Some f)
  let ?s1 = "am_upd (am_count (\<lambda>s. s\<lparr>received := received s + 1\<rparr>)) s"
  obtain outcome h where f: "f \<lparr>d_body = body, d_redelivered = redelivered, d_tag = tag\<rparr>
      (snd (s_rest s)) = (outcome, h)" by fastforce
  let ?s2 = "?s1\<lparr>s_rest := (am_of ?s1, h)\<rparr>"
  have s2: "matched (am_of ?s2)" "am_channel (am_of ?s2) = Attached"
    using assms(2,3) by (simp_all add: matched_def am_count_def performed_def)
  show ?thesis
  proof (cases "\<exists>d. outcome = Inr d \<and> d \<noteq> Deferred")
    case False
    with assms Some f show ?thesis
      by (cases outcome) (auto simp: onReceived_def Let_def am_count_def stash_def matched_def performed_def)
  next
    case True
    then obtain d where "settle_command lib tag d ?s2 = (r, s')"
      using assms Some f by (auto simp: onReceived_def Let_def am_count_def)
    from settle_command_matched [OF this s2(2,1)] show ?thesis .
  qed
qed

lemma run_callback_matched:
  assumes "run_callback lib cb s = (r, s')" "matched (am_of s)"
  shows "matched (am_of s')"
  using assms onReceived_matched [of lib _ _ _ s r s']
  by (cases cb)
    (auto simp: run_callback_def onReady_def onError_def onClosed_def matched_def split: if_splits)

interpretation matched: pumping_relation "\<lambda>s s'. matched (am_of s) \<longrightarrow> matched (am_of s')" lib
    "\<lambda>t. (am_refusals t, am_channel t, told (am_commands t), performed (am_stats t))"
  for lib :: "'p cpp_library"
proof
  show "matched (am_of s) \<longrightarrow> matched (am_of (am_upd g s))"
    if "(am_refusals (g (am_of s)), am_channel (g (am_of s)), told (am_commands (g (am_of s))),
        performed (am_stats (g (am_of s)))) =
      (am_refusals (am_of s), am_channel (am_of s), told (am_commands (am_of s)), performed (am_stats (am_of s)))"
    for g and s :: "('p, 'h) am_session"
    using that by (simp add: matched_def)
  show "matched (am_of s) \<longrightarrow> matched (am_of s')" if "refused lib s = (reason, s')"
    for reason and s s' :: "('p, 'h) am_session"
    using refused_matched [OF that] by (simp add: matched_def)
qed (auto dest: run_callback_matched simp: matched_def told_order am_count_def performed_def)

lemma am_settle_matched:
  assumes "am_settle lib tag d t = (r, t')" "matched t"
  shows "matched t'"
proof (cases "am_channel t = Attached \<and> d \<noteq> Deferred \<and> tag \<in> am_outstandingDeferred t")
  case False
  then have "t' = t"
    using assms by (cases "am_channel t") (auto simp: am_settle_def matched_def split: if_splits)
  with assms(2) show ?thesis by simp
next
  case True
  let ?t = "t\<lparr>am_outstandingDeferred := am_outstandingDeferred t - {tag}\<rparr>"
  from True assms(1) have o: "over_connection (settle_command lib tag d) ?t () = (r, t', ())"
    by (auto simp: am_settle_def split: prod.splits)
  show ?thesis
  proof (cases "am_connection t")
    case (Some c)
    let ?s = "\<lparr>s_conn = c, s_net = am_net t, s_rest = (?t, ())\<rparr>"
    obtain x s where s: "settle_command lib tag d ?s = (x, s)" by fastforce
    have "matched (am_of s)"
      by (rule settle_command_matched [OF s]) (use True assms(2) in \<open>simp_all add: am_of_def matched_def\<close>)
    with o Some s show ?thesis
      by (auto simp: over_connection_def with_connection_def matched_def am_of_def)
  qed (use o assms(2) in \<open>auto simp: over_connection_def matched_def\<close>)
qed

lemma polls_matched:
  assumes "matched t" "poll_all (amqp_transport lib) polls c t = (c', t')"
  shows "matched t'"
proof (rule poll_all_keeps [where P = matched, OF _ _ assms])
  show "matched t'" if "it_pump (amqp_transport lib) e t h = (r, t', h')" "matched t" for e t h r t' h'
    using matched.rel_am_pump [of lib t h r t' h'] that by simp
  show "matched t'" if "it_settle (amqp_transport lib) tag d t = (r, t')" "matched t" for tag d t r t'
    using am_settle_matched that by simp
qed

section \<open>A small backend\<close>

text \<open>
  A library whose parser makes scripted callbacks, a live connection over it, and a transport
  that is connected, optionally with a handler.
\<close>

definition scripted :: "amqp_callback list list \<Rightarrow> amqp_callback list list cpp_library" where
  "scripted script =
     \<lparr>lib_is_literal = (\<lambda>_. True), lib_new = (\<lambda>_ _ _. script), lib_header = ''AMQP'', lib_close = ''bye'',
      lib_parse = (\<lambda>p bytes. case p of [] \<Rightarrow> ([], length bytes, []) | cs # p1 \<Rightarrow> (cs, length bytes, p1)),
      lib_frame = (\<lambda>_. ''frame''), lib_detached = ''channel is gone''\<rparr>"

definition live_connection :: "'p \<Rightarrow> 'p amqp_connection" where
  "live_connection p =
     (amqp_connection_new ''h'' 5672 ''u'' ''p'' ''/'')
       \<lparr>ac_open := True, ac_connection := Some p, ac_ready := True\<rparr>"

definition small_amqp ::
  "amqp_callback list list \<Rightarrow> net \<Rightarrow> 'h delivery_handler option
     \<Rightarrow> (amqp_callback list list, 'h) amqp_cpp" where
  "small_amqp script n handler =
     (amqp_cpp_new n [] [])
       \<lparr>am_connection := Some (live_connection script), am_channel := Attached, am_handler := handler,
        am_subscribed := handler \<noteq> None\<rparr>"

definition one_read :: net where
  "one_read = quiet_net\<lparr>net_reads := [Got ''x''], net_budgets := [2]\<rparr>"

lemma small_amqp_sel [simp]:
  "am_connection (small_amqp script n handler) = Some (live_connection script)"
  "am_channel (small_amqp script n handler) = Attached"
  "am_handler (small_amqp script n handler) = handler"
  "am_net (small_amqp script n handler) = n"
  "am_stats (small_amqp script n handler) = no_stats"
  "am_refusals (small_amqp script n handler) = []"
  "am_outstandingDeferred (small_amqp script n handler) = {}"
  by (simp_all add: small_amqp_def amqp_cpp_new_def)

section \<open>Properties\<close>

text \<open>
  C9: what a consumer decided is what its AMQP-CPP transport counts and what the broker is told:
  over any sequence of polls, whatever the broker sends, however reads are cut, and across lost
  connections and reconnections, the consumer's counters of acknowledged, rejected and requeued
  messages equal the transport's, and these equal the numbers of acknowledgements, rejections and
  returns among the commands sent. It is assumed that no write fails, that the channel refuses no
  command and is not one left detached, and that the numbers are equal at the start. (Where the
  channel refuses, the counters rise and nothing is sent: the code ignores what \<open>ack\<close> and \<open>reject\<close>
  return.)
\<close>

theorem am_consumer_counts_performed:
  assumes "no_failing_write (am_net t)" "am_refusals t = []" "am_channel t \<noteq> Detached"
    and "am_handler t = Some (consumer_deliver caps)"
    and "decisions c = performed (it_stats (amqp_transport lib) t)"
    and "told (am_commands t) = performed (it_stats (amqp_transport lib) t)"
    and "poll_all (amqp_transport lib) polls c t = (c', t')"
  shows "con_acked c' = acksPerformed (it_stats (amqp_transport lib) t') \<and>
    con_rejected c' = rejectsPerformed (it_stats (amqp_transport lib) t') \<and>
    con_requeued c' = requeuesPerformed (it_stats (amqp_transport lib) t') \<and>
    con_acked c' = answers_sent Ack (am_commands t') \<and>
    con_rejected c' = answers_sent Reject (am_commands t') \<and>
    con_requeued c' = answers_sent Requeue (am_commands t')"
proof -
  have "am_sound t" using assms(1) by (simp add: am_sound_def)
  from am_consumed.polls_in_step [OF this _ assms(4,5,7)]
  have "decisions c' = performed (am_stats t')" by simp
  moreover have "matched t" using assms(2,3,6) by (simp add: matched_def)
  from polls_matched [OF this assms(7)] have "told (am_commands t') = performed (am_stats t')"
    by (simp add: matched_def)
  ultimately show ?thesis
    using am_statistics_performed [of t'] by (simp add: decisions_def told_def performed_def)
qed

text \<open>One delivery that is acknowledged.\<close>

lemma am_consumer_counts_performed_witness:
  "\<exists>c' t'. poll_all (amqp_transport (scripted [])) [([], ())]
       \<lparr>con_handlers = \<lparr>onMessage = Some (\<lambda>m u. (Inr (), u + 1)), onDeferred = None\<rparr>, con_acked = 0,
        con_rejected = 0, con_requeued = 0, con_deferred = 0, con_settlements = None, con_user = 0 :: nat\<rparr>
       (small_amqp [[On_Received ''motus:1:hi'' 1 False]] one_read (Some (consumer_deliver am_capabilities)))
       = (c', t') \<and>
     con_acked c' = acksPerformed (it_stats (amqp_transport (scripted [])) t') \<and>
     con_acked c' = answers_sent Ack (am_commands t')"
proof -
  let ?c = "\<lparr>con_handlers = \<lparr>onMessage = Some (\<lambda>m u. (Inr (), u + 1)), onDeferred = None\<rparr>, con_acked = 0,
    con_rejected = 0, con_requeued = 0, con_deferred = 0, con_settlements = None, con_user = 0 :: nat\<rparr>"
  let ?t = "small_amqp [[On_Received ''motus:1:hi'' 1 False]] one_read (Some (consumer_deliver am_capabilities))"
  obtain c' t' where r: "poll_all (amqp_transport (scripted [])) [([], ())] ?c ?t = (c', t')" by fastforce
  have "no_failing_write (am_net ?t)" by (simp add: no_failing_write_def one_read_def quiet_net_def)
  moreover have "decisions ?c = performed (it_stats (amqp_transport (scripted [])) ?t)"
    and "told (am_commands ?t) = performed (it_stats (amqp_transport (scripted [])) ?t)"
    by (simp_all add: decisions_def performed_def no_stats_def am_statistics_def told_def answers_sent_def
        small_amqp_def amqp_cpp_new_def)
  ultimately show ?thesis
    using am_consumer_counts_performed [OF _ _ _ _ _ _ r, of am_capabilities] r by auto
qed

end
