(* ===== verification/Amqp_Cpp_Props.thy ===== *)
theory Amqp_Cpp_Props
  imports Amqp_Cpp_Contract "HOL-Library.Sublist"
begin

text \<open>
  Properties of the AMQP-CPP backend on one connection: what a declaration sends and in which
  order, where a message is published, that a deferred delivery is settled once, and what
  closing does. Operations that send commands are described by the list of commands they are
  to send, of which they send a prefix, and all if they return.
\<close>

section \<open>What operations leave alone\<close>

text \<open>The configuration of the transport, and the commands other than dispositions it has sent.\<close>

definition config where
  "config t = (am_endpoint t, am_policy t, am_topic t, am_topicOptions t, am_topicDeclared t,
     am_subscribed t, am_failedAttempts t, am_nextAttempt t, am_handler t, am_clock t,
     reconnects (am_stats t))"

definition orders :: "('p, 'h) amqp_cpp \<Rightarrow> amqp_command list" where
  "orders t = filter order (am_commands t)"

lemma config_private [simp]:
  "config (t\<lparr>am_connection := c\<rparr>) = config t" "config (t\<lparr>am_channel := ch\<rparr>) = config t"
  "config (t\<lparr>am_outstandingDeferred := tags\<rparr>) = config t" "config (t\<lparr>am_routes := rs\<rparr>) = config t"
  "config (t\<lparr>am_next := k\<rparr>) = config t" "config (t\<lparr>am_cell := ce\<rparr>) = config t"
  "config (t\<lparr>am_failure := m\<rparr>) = config t" "config (t\<lparr>am_net := n\<rparr>) = config t"
  "config (t\<lparr>am_refusals := refusals\<rparr>) = config t" "config (t\<lparr>am_terminated := b\<rparr>) = config t"
  "config (t\<lparr>am_commands := cs\<rparr>) = config t" "config (t\<lparr>am_done := d\<rparr>) = config t"
  "config (t\<lparr>am_handlerFailure := e\<rparr>) = config t"
  "reconnects x = reconnects (am_stats t) \<Longrightarrow> config (t\<lparr>am_stats := x\<rparr>) = config t"
  by (simp_all add: config_def)

text \<open>
  Two transports agree up to the memory of a session: same configuration, channel, routes and
  orders, and no refusal that was not there before.
\<close>

definition agree :: "('p, 'h) amqp_cpp \<Rightarrow> ('p, 'h) amqp_cpp \<Rightarrow> bool" where
  "agree t t' \<longleftrightarrow> config t' = config t \<and> am_channel t' = am_channel t \<and> am_routes t' = am_routes t \<and>
     orders t' = orders t \<and> (am_refusals t = [] \<longrightarrow> am_refusals t' = [])"

lemma agree_refl [simp]: "agree t t"
  by (simp add: agree_def)

lemma agree_trans: "agree t u \<Longrightarrow> agree u v \<Longrightarrow> agree t v"
  by (simp add: agree_def)

lemma agree_upd [simp]:
  "agree t (u\<lparr>am_outstandingDeferred := tags\<rparr>) = agree t u"
  "agree t (u\<lparr>am_next := k\<rparr>) = agree t u" "agree t (u\<lparr>am_cell := ce\<rparr>) = agree t u"
  "agree t (u\<lparr>am_failure := m\<rparr>) = agree t u" "agree t (u\<lparr>am_net := n\<rparr>) = agree t u"
  "agree t (u\<lparr>am_done := d\<rparr>) = agree t u" "agree t (u\<lparr>am_handlerFailure := e\<rparr>) = agree t u"
  "agree t (u\<lparr>am_connection := c\<rparr>) = agree t u" "agree t (u\<lparr>am_terminated := b\<rparr>) = agree t u"
  "reconnects x = reconnects (am_stats u) \<Longrightarrow> agree t (u\<lparr>am_stats := x\<rparr>) = agree t u"
  by (simp_all add: agree_def orders_def)

lemma agree_count [simp]:
  "(\<And>x. reconnects (f x) = reconnects x) \<Longrightarrow> agree t (am_count f u) = agree t u"
  by (simp add: am_count_def)

section \<open>Commands\<close>

lemma refused_refusals:
  assumes "refused lib s = (reason, s')"
  shows "am_of s' = (am_of s)\<lparr>am_refusals := am_refusals (am_of s')\<rparr> \<and>
    (am_refusals (am_of s) = [] \<longrightarrow>
       am_refusals (am_of s') = [] \<and> (am_channel (am_of s) = Attached \<longrightarrow> reason = None))"
  using assms by (cases "am_refusals (am_of s)") (auto simp: refused_def split: if_splits)

lemma channel_command_frame:
  assumes "channel_command lib cmd s = (r, s')"
  shows "\<exists>rs. am_of s' = (am_of s)\<lparr>am_refusals := rs,
      am_commands := am_commands (am_of s) @ (if r = Inr None then [cmd] else [])\<rparr> \<and>
    (am_refusals (am_of s) = [] \<longrightarrow> rs = [] \<and> (am_channel (am_of s) = Attached \<longrightarrow> (\<forall>x. r \<noteq> Inr (Some x))))"
proof -
  obtain reason s1 where 1: "refused lib s = (reason, s1)" by fastforce
  then obtain rs where rs: "am_of s1 = (am_of s)\<lparr>am_refusals := rs\<rparr>"
    "am_refusals (am_of s) = [] \<longrightarrow> rs = [] \<and> (am_channel (am_of s) = Attached \<longrightarrow> reason = None)"
    using refused_refusals [OF 1] by blast
  obtain x s2 where 2: "onData (lib_frame lib cmd) s1 = (x, s2)" by fastforce
  have "am_of s2 = am_of s1" using onData_am_of [OF 2] by simp
  moreover have "am_of s1 = (am_of s)\<lparr>am_refusals := rs, am_commands := am_commands (am_of s)\<rparr>"
    using rs(1) by simp
  ultimately have "am_of s' = (am_of s)\<lparr>am_refusals := rs,
      am_commands := am_commands (am_of s) @ (if r = Inr None then [cmd] else [])\<rparr> \<and>
      (reason = None \<longrightarrow> (\<forall>x. r \<noteq> Inr (Some x)))"
    using assms 1 2
    by (auto simp: channel_command_def write_frame_def split: option.splits sum.splits)
  with rs(2) show ?thesis by blast
qed

lemma channel_command_rest:
  assumes "channel_command lib cmd s = (r, s')"
  shows "snd (s_rest s') = snd (s_rest s)"
proof -
  obtain reason s1 where 1: "refused lib s = (reason, s1)" by fastforce
  obtain x s2 where 2: "onData (lib_frame lib cmd) s1 = (x, s2)" by fastforce
  have "snd (s_rest s') = snd (s_rest s1)"
    using assms 1 2 onData_am_of [OF 2]
    by (auto simp: channel_command_def write_frame_def split: option.splits sum.splits)
  then show ?thesis using refused_frame [OF 1] by simp
qed

lemma channel_command_agree:
  assumes "channel_command lib cmd s = (r, s')" "\<not> order cmd"
  shows "agree (am_of s) (am_of s') \<and> am_stats (am_of s') = am_stats (am_of s)"
  using channel_command_frame [OF assms(1)] assms(2) by (auto simp: agree_def orders_def)

lemma acknowledge_agree:
  assumes "acknowledge lib cmd g s = (r, s')" "\<not> order cmd" "\<And>x. reconnects (g x) = reconnects x"
  shows "agree (am_of s) (am_of s')"
proof -
  obtain y s1 where 1: "channel_command lib cmd s = (y, s1)" by fastforce
  have "s' = s1 \<or> s' = am_upd (am_count g) s1"
    using assms 1 by (auto simp: acknowledge_def split: sum.splits)
  with channel_command_agree [OF 1 assms(2)] assms(3) show ?thesis by auto
qed

lemma settle_command_agree:
  assumes "settle_command lib tag d s = (r, s')"
  shows "agree (am_of s) (am_of s')"
  using assms acknowledge_agree [of lib _ _ s r s']
  by (cases d) (fastforce simp: settle_command_def)+

section \<open>Callbacks\<close>

lemma onReceived_agree:
  assumes "onReceived lib body tag redelivered s = (r, s')"
  shows "agree (am_of s) (am_of s')"
proof (cases "am_handler (am_of s)")
  case None
  with assms show ?thesis by (auto simp: onReceived_def Let_def stash_def am_count_def)
next
  case (Some f)
  let ?s1 = "am_upd (am_count (\<lambda>s. s\<lparr>received := received s + 1\<rparr>)) s"
  obtain outcome h where f: "f \<lparr>d_body = body, d_redelivered = redelivered, d_tag = tag\<rparr>
      (snd (s_rest s)) = (outcome, h)" by fastforce
  let ?s2 = "?s1\<lparr>s_rest := (am_of ?s1, h)\<rparr>"
  have s2: "agree (am_of s) (am_of ?s2)" by simp
  show ?thesis
  proof (cases "\<exists>d. outcome = Inr d \<and> d \<noteq> Deferred")
    case False
    with assms Some f show ?thesis
      by (cases outcome) (auto simp: onReceived_def Let_def am_count_def stash_def)
  next
    case True
    then obtain d where "settle_command lib tag d ?s2 = (r, s')"
      using assms Some f by (auto simp: onReceived_def Let_def am_count_def)
    from agree_trans [OF s2 settle_command_agree [OF this]] show ?thesis .
  qed
qed

lemma run_callback_agree:
  assumes "run_callback lib cb s = (r, s')"
  shows "agree (am_of s) (am_of s')"
proof (cases cb)
  case (On_Received body tag redelivered)
  with assms onReceived_agree [of lib body tag redelivered s r s'] show ?thesis
    by (simp add: run_callback_def split: if_splits)
qed (use assms in \<open>auto simp: run_callback_def onReady_def onError_def onClosed_def\<close>)

interpretation waits: session_relation "\<lambda>s s'. agree (am_of s) (am_of s')" "run_callback lib"
  for lib :: "'p cpp_library"
  by unfold_locales (auto intro: agree_trans run_callback_agree)

interpretation kept: channel_relation "\<lambda>s s'. config (am_of s') = config (am_of s)" lib config
  for lib :: "'p cpp_library"
  by unfold_locales (auto dest: run_callback_agree refused_frame simp: agree_def)

section \<open>What an operation sends\<close>

text \<open>
  From a usable channel that refuses nothing, an operation sends a prefix of the commands it is
  to send, and all of them if it returns; the configuration and the channel stay.
\<close>

definition willing :: "('p, 'h) am_session \<Rightarrow> bool" where
  "willing s \<longleftrightarrow> am_channel (am_of s) = Attached \<and> am_refusals (am_of s) = []"

definition issues ::
  "amqp_command list \<Rightarrow> ('p, 'h) am_session \<Rightarrow> 'r result \<Rightarrow> ('p, 'h) am_session \<Rightarrow> bool" where
  "issues cs s r s' \<longleftrightarrow> willing s' \<and> config (am_of s') = config (am_of s) \<and>
     (\<exists>ds. prefix ds cs \<and> orders (am_of s') = orders (am_of s) @ ds \<and> (\<forall>x. r = Inr x \<longrightarrow> ds = cs))"

lemma issues_agree: "willing s \<Longrightarrow> agree (am_of s) (am_of s') \<Longrightarrow> issues [] s r s'"
  by (simp add: issues_def willing_def agree_def)

lemma issues_then:
  assumes "issues cs s (Inr x) s1" "issues ds s1 r s'"
  shows "issues (cs @ ds) s r s'"
proof -
  obtain d1 where d1: "prefix d1 cs" "orders (am_of s1) = orders (am_of s) @ d1" "d1 = cs"
    using assms(1) unfolding issues_def by blast
  obtain d2 where d2: "prefix d2 ds" "orders (am_of s') = orders (am_of s1) @ d2"
    "\<forall>x. r = Inr x \<longrightarrow> d2 = ds"
    using assms(2) unfolding issues_def by blast
  have "prefix (cs @ d2) (cs @ ds)" "orders (am_of s') = orders (am_of s) @ cs @ d2"
    "\<forall>x. r = Inr x \<longrightarrow> cs @ d2 = cs @ ds"
    using d1 d2 by simp_all
  with assms show ?thesis unfolding issues_def by metis
qed

lemma issues_stop: "issues cs s (Inl e) s' \<Longrightarrow> issues (cs @ ds) s (Inl e) s'"
  unfolding issues_def by (metis old.sum.distinct(1) prefix_prefix)

lemma issues_unit: "issues cs s (Inr x) s' \<Longrightarrow> agree (am_of s') (am_of s'') \<Longrightarrow> issues cs s (Inr y) s''"
  using issues_then [OF _ issues_agree, of cs s x s' s'' "Inr y"] by (auto simp: issues_def)

lemma issues_upd:
  "issues cs s r s' \<Longrightarrow> config (g (am_of s')) = config (am_of s') \<Longrightarrow>
     orders (g (am_of s')) = orders (am_of s') \<Longrightarrow> am_channel (g (am_of s')) = am_channel (am_of s') \<Longrightarrow>
     am_refusals (g (am_of s')) = am_refusals (am_of s') \<Longrightarrow> issues cs s r (am_upd g s')"
  by (simp add: issues_def willing_def)

lemma issues_willing: "issues cs s r s' \<Longrightarrow> willing s'"
  by (simp add: issues_def)

lemma channel_command_issues:
  assumes "willing s" "order cmd" "channel_command lib cmd s = (r, s')"
  shows "(\<forall>x. r \<noteq> Inr (Some x)) \<and> issues [cmd] s r s'"
proof -
  obtain rs where f: "am_of s' = (am_of s)\<lparr>am_refusals := rs,
      am_commands := am_commands (am_of s) @ (if r = Inr None then [cmd] else [])\<rparr>"
    "rs = []" "\<forall>x. r \<noteq> Inr (Some x)"
    using channel_command_frame [OF assms(3)] assms(1) unfolding willing_def by blast
  have "issues [cmd] s r s'"
  proof (cases "r = Inr None")
    case True
    then show ?thesis using f assms by (simp add: issues_def willing_def orders_def)
  next
    case False
    then have "\<forall>x. r \<noteq> Inr x" using f(3) by (metis option.exhaust)
    then show ?thesis using f assms by (simp add: issues_def willing_def orders_def)
  qed
  with f(3) show ?thesis by blast
qed

lemma new_cell_agree: "new_cell s = (cell, s') \<Longrightarrow> agree (am_of s) (am_of s')"
  by (auto simp: new_cell_def Let_def)

lemma channel_request_issues:
  assumes "willing s" "order cmd" "channel_request lib cmd cell s = (r, s')"
  shows "issues [cmd] s r s'"
proof -
  let ?s1 = "am_upd (\<lambda>t. t\<lparr>am_next := am_next (am_of s) + 1,
    am_cell := (am_cell t)(am_next (am_of s) := cell)\<rparr>) s"
  have 0: "issues [] s (Inr ()) ?s1" by (rule issues_agree [OF assms(1)]) simp
  obtain x s2 where 2: "channel_command lib cmd ?s1 = (x, s2)" by fastforce
  note c = channel_command_issues [OF issues_willing [OF 0] assms(2) 2]
  then have "issues [cmd] s x s2" using issues_then [OF 0] by fastforce
  moreover have "s' = s2 \<and> (\<forall>y. r = Inr y \<longrightarrow> x = Inr None)"
    using assms(3) 2 c by (auto simp: channel_request_def Let_def split: sum.splits option.splits)
  ultimately show ?thesis unfolding issues_def by metis
qed

lemma channel_ask_issues:
  assumes "willing s" "order cmd" "channel_ask lib cmd cell failed timed_out s = (r, s')"
  shows "issues [cmd] s r s'"
proof -
  obtain x s1 where 1: "channel_request lib cmd cell s = (x, s1)" by fastforce
  note c = channel_request_issues [OF assms(1,2) 1]
  show ?thesis
  proof (cases x)
    case (Inl e)
    with assms(3) 1 have "r = Inl e" "s' = s1" by (simp_all add: channel_ask_def)
    with c Inl show ?thesis by (simp add: issues_def)
  next
    case (Inr k)
    obtain y s2 where 2: "am_wait lib (answered k cell) s1 = (y, s2)" by fastforce
    have "s' = s2"
      using assms(3) 1 2 Inr by (auto simp: channel_ask_def split: sum.splits if_splits option.splits)
    moreover have "agree (am_of s1) (am_of s2)" by (rule waits.rel_wait_for [OF 2 [unfolded am_wait_def]])
    ultimately have "issues [] s1 r s'" by (intro issues_agree issues_willing [OF c]) simp
    with c Inr show ?thesis using issues_then by fastforce
  qed
qed

section \<open>Declaring\<close>

text \<open>The commands of a declaration: of one destination, and with its forensic destination first.\<close>

definition declaring :: "topic \<Rightarrow> topic_options \<Rightarrow> amqp_command list" where
  "declaring tp opts =
     (if group opts = [] then []
      else [Declare_Exchange (group opts) (amqpExchangeType (routing opts)) (durable opts)]) @
     [Declare_Queue tp (declared_flags opts) (queueArguments tp opts)] @
     (if group opts = [] then [] else [Bind_Queue (group opts) tp (effective_route tp opts)])"

definition provisioning :: "topic \<Rightarrow> topic_options \<Rightarrow> amqp_command list" where
  "provisioning tp opts =
     (if deadLetter opts then declaring (deadLetterTopic tp) (forensicTopicOptions tp) else []) @
     declaring tp opts"

lemma channel_ask_routes:
  assumes "channel_ask lib cmd cell failed timed_out s = (r, s')"
  shows "am_routes (am_of s') = am_routes (am_of s)"
proof -
  let ?s1 = "am_upd (\<lambda>t. t\<lparr>am_next := am_next (am_of s) + 1,
    am_cell := (am_cell t)(am_next (am_of s) := cell)\<rparr>) s"
  obtain x s2 where 2: "channel_command lib cmd ?s1 = (x, s2)" by fastforce
  have "am_routes (am_of s2) = am_routes (am_of s)" using channel_command_frame [OF 2] by auto
  moreover obtain y s3 where 3: "channel_request lib cmd cell s = (y, s3)" by fastforce
  ultimately have s3: "am_routes (am_of s3) = am_routes (am_of s)"
    using 2 by (auto simp: channel_request_def Let_def split: sum.splits option.splits)
  show ?thesis
  proof (cases y)
    case (Inl e)
    with assms 3 s3 show ?thesis by (simp add: channel_ask_def)
  next
    case (Inr k)
    obtain z s4 where 4: "am_wait lib (answered k cell) s3 = (z, s4)" by fastforce
    have "s' = s4"
      using assms 3 4 Inr by (auto simp: channel_ask_def split: sum.splits if_splits option.splits)
    with waits.rel_wait_for [OF 4 [unfolded am_wait_def]] s3 show ?thesis by (simp add: agree_def)
  qed
qed

text \<open>
  The same for operations: \<open>sends cs g m\<close> says that \<open>m\<close> issues \<open>cs\<close> and, if it returns, changes the
  routes by \<open>g\<close>. Operations compose by \<open>chain\<close>, which stops at an exception.
\<close>

definition chain ::
  "(('p, 'h) am_session \<Rightarrow> 'a result \<times> ('p, 'h) am_session)
     \<Rightarrow> ('a \<Rightarrow> ('p, 'h) am_session \<Rightarrow> 'b result \<times> ('p, 'h) am_session)
     \<Rightarrow> ('p, 'h) am_session \<Rightarrow> 'b result \<times> ('p, 'h) am_session" where
  "chain m k s = (case m s of (Inl e, s1) \<Rightarrow> (Inl e, s1) | (Inr x, s1) \<Rightarrow> k x s1)"

definition sends ::
  "amqp_command list \<Rightarrow> ((topic, string \<times> string) omap \<Rightarrow> (topic, string \<times> string) omap)
     \<Rightarrow> (('p, 'h) am_session \<Rightarrow> 'a result \<times> ('p, 'h) am_session) \<Rightarrow> bool" where
  "sends cs g m \<longleftrightarrow>
     (\<forall>s r s'. willing s \<longrightarrow> m s = (r, s') \<longrightarrow>
        issues cs s r s' \<and> (\<forall>x. r = Inr x \<longrightarrow> am_routes (am_of s') = g (am_routes (am_of s))))"

lemma sendsD:
  "sends cs g m \<Longrightarrow> willing s \<Longrightarrow> m s = (r, s') \<Longrightarrow>
     issues cs s r s' \<and> (\<forall>x. r = Inr x \<longrightarrow> am_routes (am_of s') = g (am_routes (am_of s)))"
  by (simp add: sends_def)

lemma sends_chain:
  assumes "sends cs g m" "\<And>x. sends ds h (k x)"
  shows "sends (cs @ ds) (\<lambda>rs. h (g rs)) (chain m k)"
  unfolding sends_def
proof (intro allI impI)
  fix s r s'
  assume s: "willing s" "chain m k s = (r, s')"
  obtain x s1 where 1: "m s = (x, s1)" by fastforce
  note c = sendsD [OF assms(1) s(1) 1]
  show "issues (cs @ ds) s r s' \<and> (\<forall>x. r = Inr x \<longrightarrow> am_routes (am_of s') = h (g (am_routes (am_of s))))"
  proof (cases x)
    case (Inl e)
    with s 1 have "r = Inl e" "s' = s1" by (simp_all add: chain_def)
    with c Inl show ?thesis by (simp add: issues_stop)
  next
    case (Inr y)
    with s 1 have "k y s1 = (r, s')" by (simp add: chain_def)
    from sendsD [OF assms(2) _ this] c Inr issues_then show ?thesis
      using issues_willing by (metis (no_types, lifting))
  qed
qed

lemma sends_chain_id:
  "sends cs (\<lambda>rs. rs) m \<Longrightarrow> (\<And>x. sends ds h (k x)) \<Longrightarrow> sends (cs @ ds) h (chain m k)"
  using sends_chain [of cs "\<lambda>rs. rs" m ds h k] by simp

lemma sends_return: "sends [] (\<lambda>rs. rs) (\<lambda>s. (Inr x, s))"
  by (simp add: sends_def issues_agree)

lemma sends_ask: "order cmd \<Longrightarrow> sends [cmd] (\<lambda>rs. rs) (channel_ask lib cmd cell failed timed_out)"
  by (simp add: sends_def channel_ask_issues channel_ask_routes)

lemma sends_new_cell: "sends [] (\<lambda>rs. rs) (\<lambda>s. apfst Inr (new_cell s))"
  by (auto simp: sends_def new_cell_def Let_def issues_def willing_def orders_def)

lemma sends_routes: "sends [] g (\<lambda>s. (Inr x, am_upd (\<lambda>t. t\<lparr>am_routes := g (am_routes t)\<rparr>) s))"
  by (auto simp: sends_def issues_def willing_def orders_def)

lemma declare_one_chain:
  "declare_one lib tp opts =
     chain (\<lambda>s. apfst Inr (new_cell s)) (\<lambda>cell.
       chain (if group opts = [] then (\<lambda>s. (Inr 0, s))
              else channel_ask lib
                     (Declare_Exchange (group opts) (amqpExchangeType (routing opts)) (durable opts)) cell
                     (msg_group_refused (group opts)) (msg_timed_out ''declaring group'' (group opts))) (\<lambda>_.
         chain (channel_ask lib (Declare_Queue tp (declared_flags opts) (queueArguments tp opts)) cell
                  (msg_topic_refused tp) (msg_timed_out ''declaring topic'' tp)) (\<lambda>waiting.
           if group opts = [] then (\<lambda>s. (Inr waiting, s))
           else chain (channel_ask lib (Bind_Queue (group opts) tp (effective_route tp opts)) cell
                         (msg_bind_refused tp (group opts)) (msg_timed_out ''binding topic'' tp)) (\<lambda>_.
                  \<lambda>s. (Inr waiting, am_upd (\<lambda>t. t\<lparr>am_routes :=
                         om_update tp (group opts, effective_route tp opts) (am_routes t)\<rparr>) s)))))"
  by (rule ext)
    (auto simp: declare_one_def chain_def apfst_def map_prod_def split: prod.split sum.split)

definition new_routes ::
  "topic \<Rightarrow> topic_options \<Rightarrow> (topic, string \<times> string) omap \<Rightarrow> (topic, string \<times> string) omap" where
  "new_routes tp opts rs =
     (if group opts = [] then rs else om_update tp (group opts, effective_route tp opts) rs)"

lemma sends_declare_one: "sends (declaring tp opts) (new_routes tp opts) (declare_one lib tp opts)"
proof (cases "group opts = []")
  case True
  then have "sends ([] @ [] @ [Declare_Queue tp (declared_flags opts) (queueArguments tp opts)] @ [])
      (\<lambda>rs. rs) (declare_one lib tp opts)"
    unfolding declare_one_chain
    by (simp only: True simp_thms if_True)
      (rule sends_chain_id sends_new_cell sends_ask sends_return | simp)+
  with True show ?thesis by (simp add: declaring_def new_routes_def [abs_def])
next
  case False
  then have "sends ([] @ [Declare_Exchange (group opts) (amqpExchangeType (routing opts)) (durable opts)] @
        [Declare_Queue tp (declared_flags opts) (queueArguments tp opts)] @
        [Bind_Queue (group opts) tp (effective_route tp opts)] @ [])
      (om_update tp (group opts, effective_route tp opts)) (declare_one lib tp opts)"
    unfolding declare_one_chain
    by (simp only: if_False False)
      (rule sends_chain_id sends_new_cell sends_ask sends_routes | simp)+
  with False show ?thesis by (simp add: declaring_def new_routes_def [abs_def])
qed

lemma declare_session_chain:
  "declare_session lib tp opts =
     chain (if deadLetter opts then declare_one lib (deadLetterTopic tp) (forensicTopicOptions tp)
            else (\<lambda>s. (Inr 0, s))) (\<lambda>_. declare_one lib tp opts)"
  by (rule ext) (auto simp: declare_session_def chain_def split: prod.split sum.split)

definition provisioned_routes ::
  "topic \<Rightarrow> topic_options \<Rightarrow> (topic, string \<times> string) omap \<Rightarrow> (topic, string \<times> string) omap" where
  "provisioned_routes tp opts rs =
     new_routes tp opts
       (if deadLetter opts then new_routes (deadLetterTopic tp) (forensicTopicOptions tp) rs else rs)"

lemma sends_declare_session:
  "sends (provisioning tp opts) (provisioned_routes tp opts) (declare_session lib tp opts)"
proof -
  have "sends (if deadLetter opts then declaring (deadLetterTopic tp) (forensicTopicOptions tp) else [])
      (\<lambda>rs. if deadLetter opts then new_routes (deadLetterTopic tp) (forensicTopicOptions tp) rs else rs)
      (if deadLetter opts then declare_one lib (deadLetterTopic tp) (forensicTopicOptions tp)
       else (\<lambda>s. (Inr 0, s)))"
    by (simp add: sends_declare_one sends_return)
  from sends_chain [OF this sends_declare_one] show ?thesis
    unfolding declare_session_chain provisioning_def provisioned_routes_def [abs_def] .
qed

section \<open>On the transport\<close>

text \<open>A transport whose channel is usable and refuses nothing.\<close>

definition usable :: "('p, 'h) amqp_cpp \<Rightarrow> bool" where
  "usable t \<longleftrightarrow> am_channel t = Attached \<and> am_refusals t = [] \<and> am_connection t \<noteq> None"

lemma sends_over:
  assumes "sends cs g m" "usable t" "over_connection m t h = (r, t', h')"
  shows "usable t' \<and> config t' = config t \<and>
    (\<exists>ds. prefix ds cs \<and> orders t' = orders t @ ds \<and>
      (\<forall>x. r = Inr x \<longrightarrow> ds = cs \<and> am_routes t' = g (am_routes t)))"
proof -
  obtain c where c: "am_connection t = Some c" using assms(2) unfolding usable_def by blast
  let ?s = "\<lparr>s_conn = c, s_net = am_net t, s_rest = (t, h)\<rparr>"
  obtain x s where s: "m ?s = (x, s)" by fastforce
  have "willing ?s" using assms(2) by (simp add: willing_def usable_def am_of_def)
  from sendsD [OF assms(1) this s] have *: "issues cs ?s x s"
    "\<forall>y. x = Inr y \<longrightarrow> am_routes (am_of s) = g (am_routes t)" by (simp_all add: am_of_def)
  have t': "r = x" "t' = (am_of s)\<lparr>am_connection := Some (s_conn s), am_net := s_net s\<rparr>"
    using assms(3) c s by (simp_all add: over_connection_def with_connection_def am_of_def)
  show ?thesis
    using * unfolding t' issues_def willing_def usable_def by (auto simp: orders_def am_of_def)
qed

lemma usable_not_None [simp]: "usable t \<Longrightarrow> am_channel t \<noteq> No_Channel"
  by (simp add: usable_def)

section \<open>Settling and closing\<close>

lemma acknowledge_exact:
  assumes "acknowledge lib cmd g s = (r, s')"
  shows "\<exists>rs cs. am_of s' = (am_of s)\<lparr>am_refusals := rs, am_commands := cs, am_stats := (if r = Inr () then g (am_stats (am_of s)) else am_stats (am_of s))\<rparr> \<and>
    cs \<in> {am_commands (am_of s), am_commands (am_of s) @ [cmd]}"
proof -
  obtain x s1 where 1: "channel_command lib cmd s = (x, s1)" by fastforce
  obtain rs where rs: "am_of s1 = (am_of s)\<lparr>am_refusals := rs,
      am_commands := am_commands (am_of s) @ (if x = Inr None then [cmd] else [])\<rparr>"
    using channel_command_frame [OF 1] by blast
  have "am_of s' = (am_of s1)\<lparr>am_stats := (if r = Inr () then g (am_stats (am_of s1)) else am_stats (am_of s1))\<rparr>"
    using assms 1 by (auto simp: acknowledge_def am_count_def split: sum.splits)
  then show ?thesis
    unfolding rs
    by (intro exI [of _ rs] exI [of _ "am_commands (am_of s) @ (if x = Inr None then [cmd] else [])"]) auto
qed

lemma settle_command_exact:
  assumes "settle_command lib tag d s = (r, s')" "d \<noteq> Deferred"
  shows "\<exists>rs cs x. am_of s' = (am_of s)\<lparr>am_refusals := rs, am_commands := cs, am_stats := x\<rparr> \<and>
    performed x = (if r = Inr () then tally (Inr d) (performed (am_stats (am_of s)))
      else performed (am_stats (am_of s))) \<and>
    cs \<in> {am_commands (am_of s), am_commands (am_of s) @ disposition_command tag d}"
proof -
  have "acknowledge lib (hd (disposition_command tag d)) (counted d) s = (r, s')"
    using assms by (simp add: settle_command_acknowledge)
  from acknowledge_exact [OF this] obtain rs cs where
    "am_of s' = (am_of s)\<lparr>am_refusals := rs, am_commands := cs,
      am_stats := (if r = Inr () then counted d (am_stats (am_of s)) else am_stats (am_of s))\<rparr>"
    "cs \<in> {am_commands (am_of s), am_commands (am_of s) @ [hd (disposition_command tag d)]}" by blast
  moreover have "[hd (disposition_command tag d)] = disposition_command tag d"
    using assms(2) by (cases d) simp_all
  ultimately show ?thesis
    by (intro exI [of _ rs] exI [of _ cs] exI [of _ "if r = Inr () then counted d (am_stats (am_of s))
      else am_stats (am_of s)"]) (simp add: performed_counted)
qed

text \<open>Nothing reaches the handler while there is no usable channel.\<close>

definition silent :: "('p, 'h) am_session \<Rightarrow> ('p, 'h) am_session \<Rightarrow> bool" where
  "silent s s' \<longleftrightarrow>
     (am_channel (am_of s) \<noteq> Attached \<longrightarrow>
        am_channel (am_of s') = am_channel (am_of s) \<and> snd (s_rest s') = snd (s_rest s) \<and>
        am_stats (am_of s') = am_stats (am_of s) \<and>
        am_outstandingDeferred (am_of s') = am_outstandingDeferred (am_of s) \<and>
        am_terminated (am_of s') = am_terminated (am_of s) \<and> am_commands (am_of s') = am_commands (am_of s))"

lemma run_callback_silent: "run_callback lib cb s = (r, s') \<Longrightarrow> silent s s'"
  by (cases cb)
    (auto simp: run_callback_def silent_def onReady_def onError_def onClosed_def split: if_splits)

interpretation silent: session_relation silent "run_callback lib"
  for lib :: "'p cpp_library"
  by unfold_locales (auto simp: silent_def dest: run_callback_silent [unfolded silent_def])

lemma onData_closed_iff:
  "onData bytes s = (r, s') \<Longrightarrow>
     (\<exists>e. r = Inl e) \<longleftrightarrow> \<not> ac_closed (s_conn s) \<and> fst (pop None (net_writes (s_net s))) \<noteq> None"
  by (auto simp: onData_def Let_def split: prod.splits option.splits if_splits)

lemma onData_Inl_closed: "onData bytes s = (Inl e, s') \<Longrightarrow> ac_closed (s_conn s')"
  by (auto simp: onData_def Let_def split: prod.splits option.splits if_splits)

lemma channel_command_Inl_closed:
  assumes "channel_command lib cmd s = (Inl e, s')"
  shows "ac_closed (s_conn s')"
proof -
  obtain reason s1 where 1: "refused lib s = (reason, s1)" by fastforce
  obtain x s2 where 2: "onData (lib_frame lib cmd) s1 = (x, s2)" by fastforce
  have "x = Inl e" "s' = s2"
    using assms 1 2
    by (cases reason; cases x; simp add: channel_command_def write_frame_def)+
  with onData_Inl_closed 2 show ?thesis by blast
qed

lemma channel_command_cases:
  assumes "channel_command lib cmd s = (x, s')" "am_channel (am_of s) = Attached"
  shows "case (fst (pop None (am_refusals (am_of s))), fst (pop None (net_writes (s_net s)))) of
      (Some reason, _) \<Rightarrow> x = Inr (Some reason) \<and>
        am_commands (am_of s') = am_commands (am_of s) \<and> am_stats (am_of s') = am_stats (am_of s)
    | (None, None) \<Rightarrow> x = Inr None \<and>
        am_commands (am_of s') = am_commands (am_of s) @ [cmd] \<and> am_stats (am_of s') = am_stats (am_of s)
    | (None, Some failure) \<Rightarrow> ac_closed (s_conn s') \<and> am_stats (am_of s') = am_stats (am_of s) \<and>
        (if ac_closed (s_conn s) then x = Inr None
         else x = Inl (Runtime_Error (''socket write failed: '' @ failure)) \<and>
           am_commands (am_of s') = am_commands (am_of s))"
  using assms
  by (auto simp: channel_command_def refused_def write_frame_def onData_def set_conn_def set_closed_def
      am_upd_def am_of_def Let_def split: prod.splits option.splits if_splits)

lemma reset_channel_effect:
  assumes "reset_channel lib t h = (t', h')"
  shows "h' = h \<and> am_channel t' = No_Channel \<and> am_stats t' = am_stats t \<and>
    am_outstandingDeferred t' = am_outstandingDeferred t \<and> (am_connection t' = None \<longleftrightarrow> am_connection t = None)"
proof (cases "am_channel t = Attached \<and> am_connection t \<noteq> None")
  case True
  then obtain c where c: "am_channel t = Attached" "am_connection t = Some c" by blast
  let ?s = "\<lparr>s_conn = c, s_net = am_net t, s_rest = (t, h)\<rparr>"
  obtain r s where s: "channel_command lib Channel_Close ?s = (r, s)" by fastforce
  obtain rs cs where f: "am_of s = (am_of ?s)\<lparr>am_refusals := rs, am_commands := cs\<rparr>"
    using channel_command_frame [OF s] by blast
  have "snd (s_rest s) = h" using channel_command_rest [OF s] by simp
  with f assms c s show ?thesis
    by (auto simp: reset_channel_def with_connection_def am_of_def)
qed (use assms in \<open>auto simp: reset_channel_def split: channel_state.splits option.splits\<close>)

section \<open>Properties\<close>

text \<open>
  C17: declaring on a usable channel that refuses nothing sends, besides the dispositions of deliveries that
  arrive meanwhile, a prefix of the provisioning commands, in which the forensic destination comes before its source, and all
  of them if it returns. Only then the declaration is remembered for reconnecting.
\<close>

theorem am_ensureTopic_provisions:
  assumes "usable t" "am_ensureTopic lib tp opts t h = (r, t', h')"
  shows "\<exists>ds. prefix ds (provisioning tp opts) \<and> orders t' = orders t @ ds \<and>
    (r = Inr () \<longrightarrow> ds = provisioning tp opts) \<and>
    (am_topic t', am_topicOptions t', am_topicDeclared t') =
      (if r = Inr () then (tp, opts, True) else (am_topic t, am_topicOptions t, am_topicDeclared t))"
proof -
  obtain x t1 h1 where 1: "over_connection (declare_session lib tp opts) t h = (x, t1, h1)"
    by (metis prod_cases3)
  obtain ds where *: "usable t1" "config t1 = config t" "prefix ds (provisioning tp opts)"
    "orders t1 = orders t @ ds" "\<forall>y. x = Inr y \<longrightarrow> ds = provisioning tp opts"
    using sends_over [OF sends_declare_session assms(1) 1] by blast
  show ?thesis
  proof (cases x)
    case (Inl e)
    with assms 1 have "r = Inl e" "t' = t1" by (simp_all add: am_ensureTopic_def am_declare_def)
    with * show ?thesis by (auto simp: config_def)
  next
    case (Inr y)
    with assms 1 have "r = Inr ()"
      "t' = t1\<lparr>am_topic := tp, am_topicOptions := opts, am_topicDeclared := True\<rparr>"
      by (simp_all add: am_ensureTopic_def am_declare_def)
    with * Inr show ?thesis by (auto simp: orders_def)
  qed
qed

definition four_reads :: net where
  "four_reads = quiet_net\<lparr>net_reads := replicate 4 (Got ''x''), net_budgets := replicate 4 1\<rparr>"

lemma am_ensureTopic_provisions_witness:
  "case am_ensureTopic (scripted []) ''t'' default_topic_options
      (small_amqp [[On_Success 1 0], [On_Success 2 0], [On_Success 3 0], [On_Success 5 7]]
         four_reads None) (0 :: nat) of
     (r, t', h') \<Rightarrow> r = Inr () \<and> orders t' = provisioning ''t'' default_topic_options"
proof -
  let ?t = "small_amqp [[On_Success 1 0], [On_Success 2 0], [On_Success 3 0], [On_Success 5 7]]
    four_reads None :: (amqp_callback list list, nat) amqp_cpp"
  obtain r t' h' where e: "am_ensureTopic (scripted []) ''t'' default_topic_options ?t (0 :: nat) = (r, t', h')"
    by (metis prod_cases3)
  have "usable ?t" by (simp add: usable_def)
  from am_ensureTopic_provisions [OF this e]
  have "r = Inr () \<Longrightarrow> orders t' = provisioning ''t'' default_topic_options"
    by (auto simp: orders_def small_amqp_def amqp_cpp_new_def)
  moreover have "fst (am_ensureTopic (scripted []) ''t'' default_topic_options ?t (0 :: nat)) = Inr ()"
    by code_simp
  ultimately show ?thesis using e by simp
qed

text \<open>
  C16: a message goes where its topic was declared: after a declaration into a group that returned,
  the topic is published to that group, with the declared route unless the message overrides it.
\<close>

theorem am_publishes_where_declared:
  assumes "usable t" "am_ensureTopic lib tp opts t h = (Inr (), t', h')" "group opts \<noteq> []"
  shows "am_address tp so t' =
    (group opts, if so_route so \<noteq> [] then so_route so else effective_route tp opts)"
proof -
  obtain x t1 h1 where 1: "over_connection (declare_session lib tp opts) t h = (x, t1, h1)"
    by (metis prod_cases3)
  have def: "am_ensureTopic lib tp opts t h =
      (case x of Inl e \<Rightarrow> (Inl e, t1, h1)
       | Inr _ \<Rightarrow> (Inr (), t1\<lparr>am_topic := tp, am_topicOptions := opts, am_topicDeclared := True\<rparr>, h1))"
    using assms(1) 1 by (simp add: am_ensureTopic_def am_declare_def split: sum.split)
  then obtain y where "x = Inr y" using assms(2) by (cases x) simp_all
  with def assms(2) have "am_routes t' = am_routes t1" "x = Inr y" by auto
  then have "am_routes t' = provisioned_routes tp opts (am_routes t)"
    using sends_over [OF sends_declare_session assms(1) 1] by metis
  then have "map_of (am_routes t') tp = Some (group opts, effective_route tp opts)"
    using assms(3) by (simp add: provisioned_routes_def new_routes_def)
  with assms(3) show ?thesis by (simp add: am_address_def)
qed

definition forensic_reads :: net where
  "forensic_reads = quiet_net\<lparr>net_reads := replicate 3 (Got ''x''), net_budgets := replicate 3 1\<rparr>"

lemma am_publishes_where_declared_witness:
  "case am_ensureTopic (scripted []) ''motus.dead-letter.t'' (forensicTopicOptions ''t'')
      (small_amqp [[On_Success 1 0], [On_Success 2 0], [On_Success 3 0]] forensic_reads None) (0 :: nat) of
     (r, t', h') \<Rightarrow>
       r = Inr () \<and>
       am_address ''motus.dead-letter.t'' default_send_options t' = (kDeadLetterExchange, ''t'')"
proof -
  let ?t = "small_amqp [[On_Success 1 0], [On_Success 2 0], [On_Success 3 0]] forensic_reads None
    :: (amqp_callback list list, nat) amqp_cpp"
  let ?e = "am_ensureTopic (scripted []) ''motus.dead-letter.t'' (forensicTopicOptions ''t'') ?t (0 :: nat)"
  obtain r t' h' where e: "?e = (r, t', h')" by (metis prod_cases3)
  have "fst ?e = Inr ()" by code_simp
  with e have r: "r = Inr ()" by simp
  have "usable ?t" by (simp add: usable_def)
  from am_publishes_where_declared [OF this e [unfolded r], of default_send_options]
  have "am_address ''motus.dead-letter.t'' default_send_options t' = (kDeadLetterExchange, ''t'')"
    by (simp add: default_send_options_def effective_route_def)
  with e r show ?thesis by simp
qed

text \<open>
  C26: what sending does, exactly. If the channel refuses, it returns false and changes neither the
  counters nor the commands. If the socket takes the frame, it returns true, one publication went
  to the address of the topic, persistent as asked, and one more message is counted. If the write
  fails on a connection not yet known to be down, it throws that failure and counts nothing. If
  the write fails on a connection already known to be down, \<open>onData\<close> swallows the failure: it returns
  true and counts a message that no one received. After a failed write the transport is not ready.
\<close>

theorem am_send_outcome:
  assumes "am_channel t = Attached" "am_connection t = Some c" "\<not> so_confirm so"
    and "am_address tp so t = (exchange, key)" "am_send lib tp body so t = (r, t')"
  shows "case (fst (pop None (am_refusals t)), fst (pop None (net_writes (am_net t)))) of
      (Some reason, _) \<Rightarrow> r = Inr False \<and> am_commands t' = am_commands t \<and> am_stats t' = am_stats t
    | (None, None) \<Rightarrow> r = Inr True \<and>
        am_commands t' = am_commands t @ [Basic_Publish exchange key body (so_durable so)] \<and>
        am_stats t' = (am_stats t)\<lparr>sent := sent (am_stats t) + 1\<rparr>
    | (None, Some failure) \<Rightarrow> \<not> am_ready t' \<and>
        (if ac_closed c
         then r = Inr True \<and> am_stats t' = (am_stats t)\<lparr>sent := sent (am_stats t) + 1\<rparr>
         else r = Inl (Runtime_Error (''socket write failed: '' @ failure)) \<and>
           am_commands t' = am_commands t \<and> am_stats t' = am_stats t)"
proof -
  let ?cmd = "Basic_Publish exchange key body (so_durable so)"
  let ?s = "\<lparr>s_conn = c, s_net = am_net t, s_rest = (t, ())\<rparr>"
  obtain x s where s: "channel_command lib ?cmd ?s = (x, s)" by fastforce
  let ?t = "(am_of s)\<lparr>am_connection := Some (s_conn s), am_net := s_net s\<rparr>"
  have o: "over_connection (channel_command lib ?cmd) t () = (x, ?t, ())"
    using assms(2) s by (simp add: over_connection_def with_connection_def am_of_def)
  have "am_send lib tp body so t =
      (case x of Inl e \<Rightarrow> (Inl e, ?t) | Inr None \<Rightarrow> (Inr True, am_count (\<lambda>s. s\<lparr>sent := sent s + 1\<rparr>) ?t)
       | Inr (Some y) \<Rightarrow> (Inr False, ?t))"
    using assms(1,3) unfolding am_send_def assms(4) prod.case o by simp
  then show ?thesis
    using assms(1,5) channel_command_cases [OF s]
    by (auto simp: am_of_def am_count_def am_ready_def ac_is_ready_def split: option.splits if_splits)
qed

definition dead_socket :: "(amqp_callback list list, nat) amqp_cpp" where
  "dead_socket = (small_amqp [] (quiet_net\<lparr>net_writes := [Some ''gone'']\<rparr>) None)
     \<lparr>am_connection := Some ((live_connection [])\<lparr>ac_closed := True\<rparr>)\<rparr>"

lemma am_send_outcome_witness:
  "case am_send (scripted []) ''t'' ''hi'' default_send_options dead_socket of
     (r, t') \<Rightarrow> r = Inr True \<and> \<not> am_ready t' \<and> sent (am_stats t') = 1"
proof -
  let ?e = "am_send (scripted []) ''t'' ''hi'' default_send_options dead_socket"
  obtain r t' where e: "?e = (r, t')" by fastforce
  have connection: "am_connection dead_socket = Some ((live_connection [])\<lparr>ac_closed := True\<rparr>)"
    and channel: "am_channel dead_socket = Attached" and refusals: "am_refusals dead_socket = []"
    and stats: "am_stats dead_socket = no_stats" and writes: "net_writes (am_net dead_socket) = [Some ''gone'']"
    by (simp_all add: dead_socket_def small_amqp_def amqp_cpp_new_def)
  have address: "am_address ''t'' default_send_options dead_socket = ([], ''t'')" by code_simp
  have "\<not> so_confirm default_send_options" by (simp add: default_send_options_def)
  from am_send_outcome [OF channel connection this address e] show ?thesis
    by (simp add: e refusals stats writes no_stats_def)
qed

text \<open>
  C23: a deferred delivery is settled at most once: the tag is forgotten whether or not the command
  could be written, so that settling it again is refused and changes nothing, and it is performed
  and counted exactly if the first call returned.
\<close>

theorem am_settle_once:
  assumes "am_channel t \<noteq> No_Channel" "tag \<in> am_outstandingDeferred t" "d \<noteq> Deferred" "d' \<noteq> Deferred"
    and "am_settle lib tag d t = (r, t')"
  shows "am_settle lib tag d' t' = (Inl (am_unknown_tag tag), t') \<and>
    am_outstandingDeferred t' = am_outstandingDeferred t - {tag} \<and>
    performed (am_stats t') =
      (if r = Inr () then tally (Inr d) (performed (am_stats t)) else performed (am_stats t))"
proof -
  let ?t = "t\<lparr>am_outstandingDeferred := am_outstandingDeferred t - {tag}\<rparr>"
  have "am_channel t' = am_channel t \<and> am_outstandingDeferred t' = am_outstandingDeferred t - {tag} \<and>
    performed (am_stats t') =
      (if r = Inr () then tally (Inr d) (performed (am_stats t)) else performed (am_stats t))"
  proof (cases "am_connection t")
    case None
    with assms show ?thesis by (auto simp: am_settle_def over_connection_def)
  next
    case (Some c)
    let ?s = "\<lparr>s_conn = c, s_net = am_net t, s_rest = (?t, ())\<rparr>"
    obtain x s where s: "settle_command lib tag d ?s = (x, s)" by fastforce
    have "am_of ?s = ?t" by (simp add: am_of_def)
    note exact = settle_command_exact [OF s assms(3), unfolded this]
    then obtain rs cs y where
      f: "am_of s = ?t\<lparr>am_refusals := rs, am_commands := cs, am_stats := y\<rparr>"
      "performed y = (if x = Inr () then tally (Inr d) (performed (am_stats ?t)) else performed (am_stats ?t))"
      by blast
    have "r = x" "t' = (am_of s)\<lparr>am_connection := Some (s_conn s), am_net := s_net s\<rparr>"
      using assms s Some by (auto simp: am_settle_def over_connection_def with_connection_def am_of_def)
    with f show ?thesis by simp
  qed
  with assms(1,4) show ?thesis by (simp add: am_settle_def)
qed

lemma am_settle_once_witness:
  "case am_settle (scripted []) 7 Ack
      ((small_amqp [] quiet_net None :: (amqp_callback list list, nat) amqp_cpp)\<lparr>am_outstandingDeferred := {7}\<rparr>) of
     (r, t') \<Rightarrow> r = Inr () \<and> acksPerformed (am_stats t') = 1 \<and>
       am_settle (scripted []) 7 Reject t' = (Inl (am_unknown_tag 7), t')"
proof -
  let ?t = "(small_amqp [] quiet_net None :: (amqp_callback list list, nat) amqp_cpp)
    \<lparr>am_outstandingDeferred := {7}\<rparr>"
  obtain r t' where e: "am_settle (scripted []) 7 Ack ?t = (r, t')" by fastforce
  have "fst (am_settle (scripted []) 7 Ack ?t) = Inr ()" by code_simp
  with am_settle_once [OF _ _ _ _ e, of Reject] e show ?thesis
    by (simp add: performed_def no_stats_def)
qed

text \<open>
  Closing abandons: it calls no handler and performs nothing, whatever arrives meanwhile, it
  forgets every deferred delivery, and when it returns the handler and the subscription are gone.
\<close>

theorem am_close_abandons:
  assumes "am_close lib t h = (r, t', h')"
  shows "h' = h \<and> performed (am_stats t') = performed (am_stats t) \<and> am_outstandingDeferred t' = {} \<and>
    am_channel t' = No_Channel \<and> (r = Inr () \<longrightarrow> am_handler t' = None \<and> \<not> am_subscribed t')"
proof -
  obtain t1 h1 where 1: "reset_channel lib (t\<lparr>am_outstandingDeferred := {}\<rparr>) h = (t1, h1)" by fastforce
  note t1 = reset_channel_effect [OF 1]
  show ?thesis
  proof (cases "am_connection t1")
    case None
    with assms 1 t1 show ?thesis by (auto simp: am_close_def)
  next
    case (Some c)
    let ?s = "\<lparr>s_conn = c, s_net = am_net t1, s_rest = (t1, h1)\<rparr>"
    obtain x s where s: "close (cpp_lib lib) (run_callback lib) ?s = (x, s)" by fastforce
    have "silent ?s s" by (rule silent.rel_close [OF s])
    then have "snd (s_rest s) = h1 \<and> am_channel (am_of s) = No_Channel \<and> am_stats (am_of s) = am_stats t1 \<and>
      am_outstandingDeferred (am_of s) = {}"
      using t1 by (simp add: silent_def am_of_def)
    moreover have "am_close lib t h =
        (case x of Inl e \<Rightarrow> (Inl e, (am_of s)\<lparr>am_connection := Some (s_conn s), am_net := s_net s\<rparr>, snd (s_rest s))
         | Inr _ \<Rightarrow> (Inr (), (am_of s)\<lparr>am_connection := Some (s_conn s), am_net := s_net s,
             am_subscribed := False, am_handler := None\<rparr>, snd (s_rest s)))"
      using 1 s Some by (simp add: am_close_def with_connection_def am_of_def split: sum.split)
    ultimately show ?thesis using assms t1 by (cases x) auto
  qed
qed

text \<open>Closing while a delivery is deferred and another arrives.\<close>

lemma am_close_abandons_witness:
  "case am_close (scripted [])
      ((small_amqp [[On_Received ''x'' 2 False]] one_read (Some (\<lambda>d n. (Inr Ack, n + 1))))
        \<lparr>am_outstandingDeferred := {1}\<rparr>) (0 :: nat) of
     (r, t', h') \<Rightarrow> h' = 0 \<and> am_outstandingDeferred t' = {} \<and> acksPerformed (am_stats t') = 0"
proof -
  let ?t = "(small_amqp [[On_Received ''x'' 2 False]] one_read (Some (\<lambda>d n. (Inr Ack, n + 1))))
    \<lparr>am_outstandingDeferred := {1}\<rparr> :: (amqp_callback list list, nat) amqp_cpp"
  obtain r t' h' where e: "am_close (scripted []) ?t 0 = (r, t', h')" by (metis prod_cases3)
  with am_close_abandons [OF e] show ?thesis by (simp add: performed_def no_stats_def)
qed

text \<open>
  C28: \<open>close\<close> ends the process exactly when the loss of the peer has not been noticed: the channel's
  destructor writes, and a failing write throws unless the connection is already recorded as
  closed.
\<close>

theorem am_close_terminates_iff:
  assumes "am_channel t = Attached" "am_connection t = Some c" "am_refusals t = []" "\<not> am_terminated t"
    and "am_close lib t h = (r, t', h')"
  shows "am_terminated t' \<longleftrightarrow> \<not> ac_closed c \<and> fst (pop None (net_writes (am_net t))) \<noteq> None"
proof -
  let ?u = "t\<lparr>am_outstandingDeferred := {}\<rparr>"
  let ?s = "\<lparr>s_conn = c, s_net = am_net t, s_rest = (?u, h)\<rparr>"
  obtain x s where s: "channel_command lib Channel_Close ?s = (x, s)" by fastforce
  let ?s1 = "am_upd (\<lambda>t. t\<lparr>am_refusals := []\<rparr>) ?s"
  obtain y s2 where 2: "onData (lib_frame lib Channel_Close) ?s1 = (y, s2)" by fastforce
  have "refused lib ?s = (None, ?s1)" using assms(1,3) by (simp add: refused_def am_of_def)
  then have "(\<exists>e. x = Inl e) = (\<exists>e. y = Inl e)"
    using s 2 by (auto simp: channel_command_def write_frame_def split: sum.splits)
  also have "\<dots> = (\<not> ac_closed c \<and> fst (pop None (net_writes (am_net t))) \<noteq> None)"
    using onData_closed_iff [OF 2] by simp
  finally have x: "(\<exists>e. x = Inl e) = (\<not> ac_closed c \<and> fst (pop None (net_writes (am_net t))) \<noteq> None)" .
  obtain t1 h1 where 1: "reset_channel lib ?u h = (t1, h1)" by fastforce
  have "\<not> am_terminated (am_of s)"
    using channel_command_frame [OF s] assms(4) by (auto simp: am_of_def)
  then have t1: "am_terminated t1 = (\<exists>e. x = Inl e)"
    using 1 s assms(1,2) by (auto simp: reset_channel_def with_connection_def am_of_def isl_def)
  have "am_terminated t' = am_terminated t1"
  proof (cases "am_connection t1")
    case None
    with assms(5) 1 show ?thesis by (auto simp: am_close_def)
  next
    case (Some c1)
    let ?s3 = "\<lparr>s_conn = c1, s_net = am_net t1, s_rest = (t1, h1)\<rparr>"
    obtain z s4 where 4: "close (cpp_lib lib) (run_callback lib) ?s3 = (z, s4)" by fastforce
    have "am_terminated (am_of s4) = am_terminated t1"
      using silent.rel_close [OF 4] reset_channel_effect [OF 1] by (simp add: silent_def am_of_def)
    moreover have "am_terminated t' = am_terminated (am_of s4)"
      using assms(5) 1 4 Some by (cases z) (auto simp: am_close_def with_connection_def am_of_def)
    ultimately show ?thesis by simp
  qed
  with t1 x show ?thesis by simp
qed

lemma am_close_terminates_iff_witness:
  "case am_close (scripted [])
      (small_amqp [] (quiet_net\<lparr>net_writes := [Some ''broken pipe'']\<rparr>) None) (0 :: nat) of
     (r, t', h') \<Rightarrow> am_terminated t'"
proof -
  let ?t = "small_amqp [] (quiet_net\<lparr>net_writes := [Some ''broken pipe'']\<rparr>) None
    :: (amqp_callback list list, nat) amqp_cpp"
  obtain r t' h' where e: "am_close (scripted []) ?t 0 = (r, t', h')" by (metis prod_cases3)
  have "\<not> am_terminated ?t" "\<not> ac_closed (live_connection ([] :: amqp_callback list list))" by code_simp+
  with am_close_terminates_iff [OF _ _ _ _ e] e show ?thesis by simp
qed

end
