(* ===== verification/Amqp_Cpp_Reconnect.thy ===== *)
theory Amqp_Cpp_Reconnect
  imports Amqp_Cpp_Props
begin

text \<open>
  Reconnecting over AMQP-CPP: what an attempt sends and restores, that attempts end when the
  broker stays away, and the half-open connection a timed-out handshake leaves behind.
\<close>

section \<open>What a reconnection sends\<close>

definition emits :: "amqp_command list \<Rightarrow> ('p, 'h) amqp_cpp \<Rightarrow> 'r result \<Rightarrow> ('p, 'h) amqp_cpp \<Rightarrow> bool" where
  "emits cs t r t' \<longleftrightarrow> config t' = config t \<and> am_refusals t' = [] \<and>
     (\<exists>ds. prefix ds cs \<and> orders t' = orders t @ ds \<and> (\<forall>x. r = Inr x \<longrightarrow> ds = cs))"

lemma emits_none: "config t' = config t \<Longrightarrow> am_refusals t' = [] \<Longrightarrow> orders t' = orders t \<Longrightarrow> emits [] t r t'"
  by (simp add: emits_def)

lemma emits_then:
  assumes "emits cs t (Inr x) t1" "emits ds t1 r t'"
  shows "emits (cs @ ds) t r t'"
proof -
  have d1: "orders t1 = orders t @ cs" using assms(1) by (auto simp: emits_def)
  obtain d2 where d2: "prefix d2 ds" "orders t' = orders t1 @ d2" "\<forall>x. r = Inr x \<longrightarrow> d2 = ds"
    using assms(2) unfolding emits_def by blast
  have "prefix (cs @ d2) (cs @ ds)" "orders t' = orders t @ cs @ d2"
    "\<forall>x. r = Inr x \<longrightarrow> cs @ d2 = cs @ ds"
    using d1 d2 by simp_all
  with assms show ?thesis unfolding emits_def by metis
qed

lemma emits_stop: "emits cs t (Inl e) t' \<Longrightarrow> emits (cs @ ds) t (Inl f) t'"
  unfolding emits_def by (metis old.sum.distinct(1) prefix_prefix)

lemma emits_over:
  assumes "sends cs g m" "usable t" "over_connection m t h = (r, t', h')"
  shows "emits cs t r t' \<and> usable t'"
  using sends_over [OF assms] by (auto simp: emits_def usable_def)

text \<open>The commands of the stages.\<close>

definition closing :: "('p, 'h) amqp_cpp \<Rightarrow> amqp_command list" where
  "closing t = (if am_channel t = Attached then [Channel_Close] else [])"

definition resuming :: "('p, 'h) amqp_cpp \<Rightarrow> amqp_command list" where
  "resuming t =
     (if am_topicDeclared t then provisioning (am_topic t) (am_topicOptions t) else []) @
     (if am_subscribed t then [Set_Qos 1, Consume (am_topic t)] else [])"

lemma resuming_config: "config t' = config t \<Longrightarrow> resuming t' = resuming t"
  by (simp add: resuming_def config_def)

lemma start_session_issues:
  assumes "willing s" "start_session lib s = (r, s')"
  shows "issues [Set_Qos 1, Consume (am_topic (am_of s))] s r s'"
proof -
  obtain x s1 where 1: "channel_command lib (Set_Qos 1) s = (x, s1)" by fastforce
  note i1 = channel_command_issues [OF assms(1) _ 1]
  show ?thesis
  proof (cases x)
    case (Inl e)
    then have "r = Inl e" "s' = s1" using assms(2) 1 by (simp_all add: start_session_def)
    with i1 Inl issues_stop [of "[Set_Qos 1]" s e s1 "[Consume (am_topic (am_of s))]"] show ?thesis
      by (simp add: issues_def)
  next
    case (Inr y)
    obtain cell s2 where 2: "new_cell s1 = (cell, s2)" by fastforce
    have i2: "issues ([Set_Qos 1] @ []) s (Inr ()) s2"
      using i1 Inr issues_then [OF _ issues_agree [OF _ new_cell_agree [OF 2]]] issues_willing by fastforce
    then have tp: "am_topic (am_of s2) = am_topic (am_of s)" by (simp add: issues_def config_def)
    let ?tp = "am_topic (am_of s2)"
    obtain z s3 where 3: "channel_ask lib (Consume ?tp) cell
        (\<lambda>reason. ''failed to subscribe to '' @ quoted ?tp @ '': '' @ reason)
        (msg_timed_out ''subscribing to'' ?tp) s2 = (z, s3)" by fastforce
    have "issues [Consume ?tp] s2 z s3" by (rule channel_ask_issues [OF issues_willing [OF i2] _ 3]) simp
    with issues_then [OF i2] have "issues [Set_Qos 1, Consume ?tp] s z s3" by fastforce
    moreover have "s' = s3 \<and> (\<forall>x. r = Inr x \<longrightarrow> (\<exists>y. z = Inr y))"
      using assms(2) 1 2 3 Inr by (auto simp: start_session_def Let_def split: sum.splits)
    ultimately show ?thesis unfolding tp issues_def by metis
  qed
qed

lemma start_over:
  assumes "usable t" "over_connection (start_session lib) t h = (r, t', h')"
  shows "emits [Set_Qos 1, Consume (am_topic t)] t r t' \<and> usable t'"
proof -
  obtain c where c: "am_connection t = Some c" using assms(1) unfolding usable_def by blast
  let ?s = "\<lparr>s_conn = c, s_net = am_net t, s_rest = (t, h)\<rparr>"
  obtain x s where s: "start_session lib ?s = (x, s)" by fastforce
  have "willing ?s" using assms(1) by (simp add: willing_def usable_def am_of_def)
  from start_session_issues [OF this s] have *: "issues [Set_Qos 1, Consume (am_topic t)] ?s x s"
    by (simp add: am_of_def)
  have "r = x" "t' = (am_of s)\<lparr>am_connection := Some (s_conn s), am_net := s_net s\<rparr>"
    using assms(2) c s by (simp_all add: over_connection_def with_connection_def am_of_def)
  with * show ?thesis
    unfolding issues_def willing_def usable_def emits_def by (auto simp: orders_def am_of_def)
qed

section \<open>The stages of an attempt\<close>

text \<open>The transport between connections: there is none, or its end was noticed.\<close>

definition lost :: "('p, 'h) amqp_cpp \<Rightarrow> bool" where
  "lost t \<longleftrightarrow> (case am_connection t of None \<Rightarrow> am_channel t = No_Channel | Some c \<Rightarrow> ac_closed c)"

lemma reset_channel_emits:
  assumes "lost t" "am_refusals t = []" "reset_channel lib t h = (t', h')"
  shows "emits (closing t) t (Inr ()) t'"
proof (cases "am_channel t = Attached")
  case True
  with assms(1) obtain c where c: "am_connection t = Some c" "ac_closed c"
    by (auto simp: lost_def split: option.splits)
  let ?s = "\<lparr>s_conn = c, s_net = am_net t, s_rest = (t, h)\<rparr>"
  let ?s1 = "am_upd (\<lambda>t. t\<lparr>am_refusals := []\<rparr>) ?s"
  obtain y s2 where 2: "onData (lib_frame lib Channel_Close) ?s1 = (y, s2)" by fastforce
  have "y = Inr ()" using onData_closed [OF 2] c(2) by simp
  moreover have "refused lib ?s = (None, ?s1)" using True assms(2) by (simp add: refused_def am_of_def)
  ultimately have "\<exists>s. channel_command lib Channel_Close ?s = (Inr None, s)"
    using 2 by (simp add: channel_command_def write_frame_def)
  then obtain s where s: "channel_command lib Channel_Close ?s = (Inr None, s)" by blast
  obtain rs where rs: "am_of s = t\<lparr>am_refusals := rs, am_commands := am_commands t @ [Channel_Close]\<rparr>" "rs = []"
    using channel_command_frame [OF s] assms(2) by (auto simp: am_of_def)
  have "t' = (am_of s)\<lparr>am_connection := Some (s_conn s), am_net := s_net s, am_channel := No_Channel,
      am_terminated := am_terminated (am_of s)\<rparr>"
    using assms(3) True c(1) s by (auto simp: reset_channel_def with_connection_def am_of_def)
  with rs True show ?thesis by (simp add: emits_def closing_def orders_def)
next
  case False
  then have "t' = t\<lparr>am_channel := No_Channel\<rparr>"
    using assms(3) by (auto simp: reset_channel_def split: channel_state.splits option.splits)
  with assms(2) False show ?thesis by (simp add: emits_def closing_def orders_def)
qed

lemma destroy_connection_emits:
  assumes "am_refusals t = []" "am_channel t = No_Channel" "destroy_connection lib old t h = (t', h')"
  shows "emits [] t (Inr ()) t' \<and> am_channel t' = No_Channel"
proof (cases old)
  case (Some c)
  let ?from = "\<lparr>s_conn = c, s_net = am_net t, s_rest = (t, h)\<rparr>"
  let ?s = "destroy (cpp_lib lib) (run_callback lib) ?from"
  have "agree (am_of ?from) (am_of ?s)" by (rule waits.rel_destroy)
  then have a: "agree t (am_of ?s)" by (simp add: am_of_def)
  then have "am_channel (am_of ?s) = No_Channel" using assms(2) by (simp add: agree_def)
  then have "t' = (am_of ?s)\<lparr>am_net := s_net ?s, am_channel := No_Channel\<rparr>"
    using assms(3) Some by (auto simp: destroy_connection_def Let_def)
  with a assms show ?thesis by (auto simp: agree_def emits_def orders_def)
qed (use assms in \<open>simp add: destroy_connection_def emits_none\<close>)

lemma openConnection_emits:
  assumes "am_refusals t = []" "am_channel t = No_Channel" "openConnection lib t h = (r, t', h')"
  shows "emits [Channel_Open] t r t' \<and> (r = Inr () \<longrightarrow> usable t')"
proof -
  let ?c = "amqp_connection_new (ep_host (am_endpoint t)) (amqp_port (am_endpoint t))
    (ep_user (am_endpoint t)) (ep_password (am_endpoint t)) (ep_realm (am_endpoint t))"
  obtain u g where d: "destroy_connection lib (am_connection t) (t\<lparr>am_connection := Some ?c\<rparr>) h = (u, g)"
    by fastforce
  have "emits [] (t\<lparr>am_connection := Some ?c\<rparr>) (Inr ()) u \<and> am_channel u = No_Channel"
    by (rule destroy_connection_emits [OF _ _ d]) (use assms in simp_all)
  then have u: "emits [] t (Inr ()) u" "am_channel u = No_Channel" "am_refusals u = []"
    by (simp_all add: emits_def orders_def)
  let ?from = "\<lparr>s_conn = ?c, s_net = am_net u, s_rest = (u, g)\<rparr>"
  obtain x s1 where 1: "connect (cpp_lib lib) (run_callback lib) ?from = (x, s1)" by fastforce
  have "agree (am_of ?from) (am_of s1)" by (rule waits.rel_connect [OF 1])
  then have a: "agree u (am_of s1)" by (simp add: am_of_def)
  obtain y s2 where 2: "onData (lib_frame lib Channel_Open) s1 = (y, s2)" by fastforce
  have a2: "am_of s2 = am_of s1" using onData_am_of [OF 2] by simp
  let ?fin = "\<lambda>s. (am_of s)\<lparr>am_connection := Some (s_conn s), am_net := s_net s\<rparr>"
  have "(t' = ?fin s1 \<and> r \<noteq> Inr ()) \<or> (t' = ?fin s2 \<and> r \<noteq> Inr ()) \<or>
    (r = Inr () \<and> t' = (?fin s2)\<lparr>am_commands := am_commands (am_of s2) @ [Channel_Open], am_channel := Attached\<rparr>)"
    using assms(3) d 1 2
    by (cases x; cases y)
      (auto simp: openConnection_def Let_def with_connection_def write_frame_def am_of_def am_upd_def)
  then have "emits [Channel_Open] u r t' \<and> (r = Inr () \<longrightarrow> usable t')"
    using a u(2,3) by (auto simp: a2 agree_def emits_def orders_def usable_def)
  with emits_then [OF u(1)] show ?thesis by fastforce
qed

lemma reopen_emits:
  assumes "lost t" "am_refusals t = []" "reopen lib t h = (r, t', h')"
  shows "emits (closing t @ [Channel_Open]) t r t' \<and> (r = Inr () \<longrightarrow> usable t')"
proof -
  obtain t1 h1 where 1: "reset_channel lib t h = (t1, h1)" by fastforce
  obtain t2 h2 where 2: "destroy_connection lib (am_connection t1) (t1\<lparr>am_connection := None\<rparr>) h1 = (t2, h2)"
    by fastforce
  let ?t2 = "t2\<lparr>am_outstandingDeferred := {}\<rparr>"
  have 3: "openConnection lib ?t2 h2 = (r, t', h')" using assms(3) 1 2 by (simp add: reopen_def)
  have e1: "emits (closing t) t (Inr ()) t1" by (rule reset_channel_emits [OF assms(1,2) 1])
  have n1: "am_channel t1 = No_Channel" using reset_channel_effect [OF 1] by simp
  have "emits [] (t1\<lparr>am_connection := None\<rparr>) (Inr ()) t2 \<and> am_channel t2 = No_Channel"
    by (rule destroy_connection_emits [OF _ _ 2]) (use e1 n1 in \<open>simp_all add: emits_def\<close>)
  then have "emits [] t1 (Inr ()) ?t2" "am_channel ?t2 = No_Channel" by (simp_all add: emits_def orders_def)
  from emits_then [OF e1 this(1)] this(2) have e2: "emits (closing t) t (Inr ()) ?t2" "am_channel ?t2 = No_Channel"
    by simp_all
  have "emits [Channel_Open] ?t2 r t' \<and> (r = Inr () \<longrightarrow> usable t')"
    by (rule openConnection_emits [OF _ e2(2) 3]) (use e2(1) in \<open>simp add: emits_def\<close>)
  with emits_then [OF e2(1)] show ?thesis by blast
qed

lemma declared_again:
  assumes "usable t" "(if am_topicDeclared t then am_declare lib (am_topic t) (am_topicOptions t) t h
      else (Inr 0, t, h)) = (x, t', h')"
  shows "emits (if am_topicDeclared t then provisioning (am_topic t) (am_topicOptions t) else []) t x t' \<and>
    usable t'"
proof (cases "am_topicDeclared t")
  case True
  then have "over_connection (declare_session lib (am_topic t) (am_topicOptions t)) t h = (x, t', h')"
    using assms by (simp add: am_declare_def)
  from emits_over [OF sends_declare_session assms(1) this] True show ?thesis by simp
next
  case False
  with assms show ?thesis by (auto simp: usable_def intro: emits_none)
qed

lemma resume_emits:
  assumes "usable t" "resume lib t h = (r, t', h')"
  shows "emits (resuming t) t r t' \<and> usable t'"
proof -
  let ?decl = "if am_topicDeclared t then provisioning (am_topic t) (am_topicOptions t) else []"
  let ?cons = "if am_subscribed t then [Set_Qos 1, Consume (am_topic t)] else []"
  obtain x t1 h1 where 1: "(if am_topicDeclared t then am_declare lib (am_topic t) (am_topicOptions t) t h
      else (Inr 0, t, h)) = (x, t1, h1)" by (metis prod_cases3)
  obtain y t2 h2 where 2: "over_connection (start_session lib) t1 h1 = (y, t2, h2)" by (metis prod_cases3)
  have e: "emits ?decl t x t1" and u: "usable t1" using declared_again [OF assms(1) 1] by blast+
  then have c: "am_subscribed t1 = am_subscribed t" "am_topic t1 = am_topic t"
    by (simp_all add: emits_def config_def)
  have def: "resume lib t h = (case x of Inl e \<Rightarrow> (Inl e, t1, h1)
      | Inr _ \<Rightarrow> if am_subscribed t then (y, t2, h2) else (Inr (), t1, h1))"
    unfolding resume_def 1 prod.case c(1) [symmetric] 2 by (simp split: sum.split)
  show ?thesis
  proof (cases x)
    case (Inl f)
    with assms(2) def have "r = Inl f" "t' = t1" by simp_all
    with emits_stop [OF e [unfolded Inl], of ?cons f] u show ?thesis unfolding resuming_def by simp
  next
    case (Inr v)
    note e' = emits_then [OF e [unfolded Inr]]
    show ?thesis
    proof (cases "am_subscribed t")
      case True
      with assms(2) def Inr have "r = y" "t' = t2" by simp_all
      with start_over [OF u 2] c(2) have "emits ?cons t1 r t' \<and> usable t'" using True by simp
      with e' [of ?cons r t'] show ?thesis unfolding resuming_def by blast
    next
      case False
      with assms(2) def Inr have "r = Inr ()" "t' = t1" by simp_all
      with e Inr False u show ?thesis by (simp add: resuming_def emits_def)
    qed
  qed
qed

lemma restore_emits:
  assumes "lost t" "am_refusals t = []" "restore lib t h = (r, t', h')"
  shows "emits (closing t @ [Channel_Open] @ resuming t) t r t' \<and> (r = Inr () \<longrightarrow> usable t')"
proof -
  obtain x t1 h1 where 1: "reopen lib t h = (x, t1, h1)" by (metis prod_cases3)
  note e = reopen_emits [OF assms(1,2) 1]
  show ?thesis
  proof (cases x)
    case (Inl f)
    with assms(3) 1 have "r = Inl f" "t' = t1" by (simp_all add: restore_def)
    with e Inl emits_stop [of "closing t @ [Channel_Open]" t f t1 "resuming t" f] show ?thesis by simp
  next
    case (Inr u)
    then have "resume lib t1 h1 = (r, t', h')" using assms(3) 1 by (simp add: restore_def)
    with e Inr have "emits (resuming t1) t1 r t' \<and> usable t'" using resume_emits by fastforce
    moreover have "resuming t1 = resuming t" using e by (intro resuming_config) (simp add: emits_def)
    ultimately have "emits (resuming t) t1 r t'" "usable t'" by simp_all
    with emits_then [OF _ this(1), of "closing t @ [Channel_Open]" t u] e Inr show ?thesis by simp
  qed
qed

section \<open>A broker that stays away\<close>

lemma onData_net: "onData bytes s = (r, s') \<Longrightarrow> \<exists>ws. s_net s' = (s_net s)\<lparr>net_writes := ws\<rparr>"
  by (auto simp: onData_def Let_def split: prod.splits option.splits if_splits)

text \<open>What resetting the channel and dropping the connection leave alone.\<close>

definition untouched :: "('p, 'h) amqp_cpp \<Rightarrow> ('p, 'h) amqp_cpp \<Rightarrow> bool" where
  "untouched t t' \<longleftrightarrow> config t' = config t \<and> am_handlerFailure t' = am_handlerFailure t \<and>
     (\<exists>ws. am_net t' = (am_net t)\<lparr>net_writes := ws\<rparr>) \<and> (net_writes (am_net t) = [] \<longrightarrow> am_net t' = am_net t)"

lemma untouched_refl [simp]: "untouched t t"
  unfolding untouched_def by (auto intro: exI [of _ "net_writes (am_net t)"])

lemma untouched_upd [simp]:
  "untouched t (u\<lparr>am_channel := ch\<rparr>) = untouched t u" "untouched t (u\<lparr>am_connection := c\<rparr>) = untouched t u"
  "untouched t (u\<lparr>am_outstandingDeferred := tags\<rparr>) = untouched t u"
  by (simp_all add: untouched_def)

lemma onData_quiet_net: "onData bytes s = (r, s') \<Longrightarrow> net_writes (s_net s) = [] \<Longrightarrow> s_net s' = s_net s"
  by (auto simp add: onData_quiet set_conn_def)

lemma reset_channel_lost:
  assumes "lost t" "reset_channel lib t h = (t', h')"
  shows "untouched t t' \<and> am_channel t' = No_Channel \<and> h' = h \<and> lost t'"
proof (cases "am_channel t = Attached")
  case True
  with assms(1) obtain c where c: "am_connection t = Some c" "ac_closed c"
    by (auto simp: lost_def split: option.splits)
  let ?s = "\<lparr>s_conn = c, s_net = am_net t, s_rest = (t, h)\<rparr>"
  obtain x s where s: "channel_command lib Channel_Close ?s = (x, s)" by fastforce
  obtain reason s1 where 1: "refused lib ?s = (reason, s1)" by fastforce
  note f1 = refused_frame [OF 1]
  obtain y s2 where 2: "onData (lib_frame lib Channel_Close) s1 = (y, s2)" by fastforce
  have "ac_closed (s_conn s2)" using onData_closed [OF 2] f1 c(2) by simp
  moreover have "s_conn s = s_conn s1 \<or> s_conn s = s_conn s2" "s_net s = s_net s1 \<or> s_net s = s_net s2"
    using s 1 2 by (cases reason; cases y; simp add: channel_command_def write_frame_def; auto)+
  moreover have "\<exists>ws. s_net s1 = (s_net s1)\<lparr>net_writes := ws\<rparr>"
    by (rule exI [of _ "net_writes (s_net s1)"]) simp
  ultimately have n: "ac_closed (s_conn s)" "\<exists>ws. s_net s = (am_net t)\<lparr>net_writes := ws\<rparr>"
    "net_writes (am_net t) = [] \<longrightarrow> s_net s = am_net t"
    using f1 c(2) onData_net [OF 2] onData_quiet_net [OF 2] by auto
  have "config (am_of s) = config t" "am_handlerFailure (am_of s) = am_handlerFailure t"
    using channel_command_frame [OF s] by (auto simp: am_of_def)
  moreover have "t' = (am_of s)\<lparr>am_connection := Some (s_conn s), am_net := s_net s, am_channel := No_Channel,
      am_terminated := am_terminated (am_of s) \<or> isl x\<rparr>" "h' = snd (s_rest s)"
    using assms(2) True c(1) s by (auto simp: reset_channel_def with_connection_def am_of_def)
  ultimately show ?thesis
    using n channel_command_rest [OF s] by (simp add: untouched_def lost_def)
next
  case False
  then have "t' = t\<lparr>am_channel := No_Channel\<rparr>" "h' = h"
    using assms(2) by (auto simp: reset_channel_def split: channel_state.splits option.splits)
  with assms(1) show ?thesis by (auto simp: lost_def split: option.splits)
qed

lemma destroy_lost:
  assumes "lost t" "am_channel t = No_Channel"
  shows "destroy_connection lib (am_connection t) (t\<lparr>am_connection := None\<rparr>) h = (t\<lparr>am_connection := None\<rparr>, h)"
  using assms
  by (auto simp: lost_def destroy_connection_def destroy_def close_def set_conn_def am_of_def Let_def
      split: option.splits)

text \<open>So an attempt comes down to a connect from a transport without connection and channel.\<close>

lemma reopen_lost:
  assumes "lost t"
  obtains u where "untouched t u" "am_channel u = No_Channel" "am_connection u = None"
    "reopen lib t h = openConnection lib u h"
proof -
  obtain t1 h1 where 1: "reset_channel lib t h = (t1, h1)" by fastforce
  note r = reset_channel_lost [OF assms 1]
  let ?u = "t1\<lparr>am_connection := None, am_outstandingDeferred := {}\<rparr>"
  have "reopen lib t h = openConnection lib ?u h"
    using 1 r destroy_lost [of t1 lib h1] by (simp add: reopen_def)
  with r show ?thesis by (intro that [of ?u]) simp_all
qed

definition fresh_connection :: "('p, 'h) amqp_cpp \<Rightarrow> 'p amqp_connection" where
  "fresh_connection t = amqp_connection_new (ep_host (am_endpoint t)) (amqp_port (am_endpoint t))
     (ep_user (am_endpoint t)) (ep_password (am_endpoint t)) (ep_realm (am_endpoint t))"

lemma fresh_connection_sel [simp]:
  "ac_host (fresh_connection t) = ep_host (am_endpoint t)" "\<not> ac_closed (fresh_connection t)"
  "\<not> ac_ready (fresh_connection t)" "ac_connection (fresh_connection t) = None"
  "ac_error (fresh_connection t) = []"
  by (simp_all add: fresh_connection_def amqp_connection_new_def)

lemma openConnection_refused:
  assumes "am_connection u = None" "lib_is_literal lib (ep_host (am_endpoint u))"
    and "net_connects (am_net u) = Some reason # cs"
  shows "\<exists>e. openConnection lib u h =
    (Inl e, u\<lparr>am_connection := Some (fresh_connection u), am_net := (am_net u)\<lparr>net_connects := cs\<rparr>\<rparr>, h) \<and>
    is_std_exception e"
  using assms
  by (simp add: openConnection_def fresh_connection_def [symmetric] destroy_connection_def Let_def
      with_connection_def connect_def tcp_connect_def am_of_def cpp_library.defs amqp_library.defs)

text \<open>
  A transport whose broker is away, for \<open>n\<close> more pumps: between connections, or with a connection
  that was never established; connecting is refused, and reading such a socket reports that it
  is not connected.
\<close>

definition away :: "'p cpp_library \<Rightarrow> nat \<Rightarrow> ('p, 'h) amqp_cpp \<Rightarrow> bool" where
  "away lib n t \<longleftrightarrow>
     lib_is_literal lib (ep_host (am_endpoint t)) \<and> rp_enabled (am_policy t) \<and> am_handlerFailure t = None \<and>
     (lost t \<or> am_channel t = No_Channel \<and> am_connection t \<noteq> None) \<and>
     (\<exists>reason. net_connects (am_net t) = replicate n (Some reason)) \<and>
     (\<exists>k m. n \<le> k \<and> net_reads (am_net t) = replicate k (Read_Failed Not_Connected m) \<and>
        net_budgets (am_net t) = replicate k 1)"

lemma attempt_refused:
  assumes "lost t" "rp_enabled (am_policy t)" "am_failedAttempts t < rp_maxAttempts (am_policy t)"
    and "am_clock t = now # again # clock" "am_nextAttempt t \<le> now"
    and "lib_is_literal lib (ep_host (am_endpoint t))" "net_connects (am_net t) = Some reason # cs"
  shows "\<exists>t' ws. serviceReconnect lib t h = (Inr True, t', h) \<and> am_channel t' = No_Channel \<and>
    am_connection t' \<noteq> None \<and> am_failedAttempts t' = am_failedAttempts t + 1 \<and>
    am_nextAttempt t' = again + reconnect_delay (am_policy t) (am_failedAttempts t + 1) \<and>
    am_clock t' = clock \<and> am_policy t' = am_policy t \<and> am_endpoint t' = am_endpoint t \<and>
    am_handlerFailure t' = am_handlerFailure t \<and>
    am_net t' = (am_net t)\<lparr>net_writes := ws, net_connects := cs\<rparr>"
proof -
  let ?t = "t\<lparr>am_clock := again # clock, am_failedAttempts := am_failedAttempts t + 1\<rparr>"
  have "lost ?t" using assms(1) by (simp add: lost_def split: option.splits)
  from reopen_lost [OF this] obtain u where u: "untouched ?t u" "am_channel u = No_Channel"
    "am_connection u = None" "reopen lib ?t h = openConnection lib u h" by blast
  obtain ws where ws: "am_net u = (am_net t)\<lparr>net_writes := ws\<rparr>" using u(1) by (auto simp: untouched_def)
  have c: "config u = config ?t" "am_handlerFailure u = am_handlerFailure t"
    using u(1) by (simp_all add: untouched_def)
  have "\<exists>e. openConnection lib u h =
      (Inl e, u\<lparr>am_connection := Some (fresh_connection u), am_net := (am_net u)\<lparr>net_connects := cs\<rparr>\<rparr>, h) \<and>
      is_std_exception e"
    by (rule openConnection_refused) (use c u ws assms(6,7) in \<open>simp_all add: config_def\<close>)
  then obtain e where "restore lib ?t h =
      (Inl e, u\<lparr>am_connection := Some (fresh_connection u), am_net := (am_net u)\<lparr>net_connects := cs\<rparr>\<rparr>, h)"
    "is_std_exception e"
    using u(4) by (auto simp: restore_def)
  then have "serviceReconnect lib t h = (Inr True,
      u\<lparr>am_connection := Some (fresh_connection u), am_net := (am_net u)\<lparr>net_connects := cs\<rparr>,
        am_clock := clock, am_nextAttempt := again + reconnect_delay (am_policy u) (am_failedAttempts u)\<rparr>, h)"
    using assms(2-5) c(1) by (simp add: serviceReconnect_def read_clock_def config_def)
  with c u(2) ws show ?thesis by (auto simp: config_def)
qed

text \<open>One round on a connection that was never established, by what the read reports.\<close>

lemma pump_unestablished:
  assumes "am_connection t = Some c" "\<not> ac_closed c" "am_handlerFailure t = None" "rp_enabled (am_policy t)"
    and "net_reads (am_net t) = Read_Failed Not_Connected m # reads" "net_budgets (am_net t) = 1 # budgets"
  shows "am_pump lib t h = serviceReconnect lib
    (t\<lparr>am_connection := Some (c\<lparr>ac_closed := True\<rparr>),
       am_net := (am_net t)\<lparr>net_budgets := budgets, net_reads := reads\<rparr>\<rparr>) h"
proof -
  have "with_connection c (am_wait lib (\<lambda>_. False)) t h = (Inr False,
      t\<lparr>am_connection := Some (c\<lparr>ac_closed := True\<rparr>),
        am_net := (am_net t)\<lparr>net_budgets := budgets, net_reads := reads\<rparr>\<rparr>, h)"
    using assms(5,6)
    by (simp add: with_connection_def am_wait_def wait_for_def pumpOnce_def Let_def clean_end_def)
  with assms(1-4) show ?thesis by (simp add: am_pump_def Let_def)
qed

lemma pump_away:
  assumes "away lib (Suc n) t"
  obtains u where "am_pump lib t h = serviceReconnect lib u h" "lost u"
    "config u = config t" "am_handlerFailure u = None"
    "net_connects (am_net u) = net_connects (am_net t)"
    "\<exists>k m. n \<le> k \<and> net_reads (am_net u) = replicate k (Read_Failed Not_Connected m) \<and>
        net_budgets (am_net u) = replicate k 1"
proof (cases "\<exists>c. am_connection t = Some c \<and> \<not> ac_closed c")
  case True
  then obtain c where c: "am_connection t = Some c" "\<not> ac_closed c" by blast
  from assms obtain k m where k: "Suc n \<le> Suc k"
    "net_reads (am_net t) = replicate (Suc k) (Read_Failed Not_Connected m)"
    "net_budgets (am_net t) = replicate (Suc k) 1"
    unfolding away_def by (metis Suc_le_D)
  let ?u = "t\<lparr>am_connection := Some (c\<lparr>ac_closed := True\<rparr>),
    am_net := (am_net t)\<lparr>net_budgets := replicate k 1, net_reads := replicate k (Read_Failed Not_Connected m)\<rparr>\<rparr>"
  have "am_pump lib t h = serviceReconnect lib ?u h"
    using assms k by (intro pump_unestablished [OF c]) (simp_all add: away_def)
  then show ?thesis using assms k(1) by (intro that [of ?u]) (auto simp: lost_def away_def)
next
  case False
  then have "lost t" using assms by (auto simp: away_def lost_def)
  moreover from this False have "am_pump lib t h = serviceReconnect lib t h"
    using assms by (auto simp: am_pump_def Let_def away_def lost_def split: option.splits)
  ultimately show ?thesis
    using assms by (intro that [of t]) (auto simp: away_def intro: Suc_leD)
qed

lemma pump_refused:
  assumes "away lib (Suc n) t" "am_failedAttempts t < rp_maxAttempts (am_policy t)"
    and "am_clock t = now # again # clock" "am_nextAttempt t \<le> now"
  shows "\<exists>t'. am_pump lib t h = (Inr True, t', h) \<and> away lib n t' \<and>
    am_failedAttempts t' = am_failedAttempts t + 1 \<and> am_policy t' = am_policy t \<and> am_clock t' = clock \<and>
    am_nextAttempt t' = again + reconnect_delay (am_policy t) (am_failedAttempts t + 1)"
proof -
  obtain u where u: "am_pump lib t h = serviceReconnect lib u h" "lost u"
    "config u = config t" "am_handlerFailure u = None"
    "net_connects (am_net u) = net_connects (am_net t)"
    "\<exists>k m. n \<le> k \<and> net_reads (am_net u) = replicate k (Read_Failed Not_Connected m) \<and>
        net_budgets (am_net u) = replicate k 1"
    using pump_away [OF assms(1)] by blast
  obtain reason where "net_connects (am_net u) = Some reason # replicate n (Some reason)"
    using assms(1) u(5) by (auto simp: away_def)
  from attempt_refused [OF u(2) _ _ _ _ _ this, of now again clock lib h] u(3) assms
  obtain t' ws where t': "serviceReconnect lib u h = (Inr True, t', h)" "am_channel t' = No_Channel"
    "am_connection t' \<noteq> None" "am_failedAttempts t' = am_failedAttempts u + 1"
    "am_nextAttempt t' = again + reconnect_delay (am_policy u) (am_failedAttempts u + 1)"
    "am_clock t' = clock" "am_policy t' = am_policy u" "am_endpoint t' = am_endpoint u"
    "am_handlerFailure t' = am_handlerFailure u"
    "am_net t' = (am_net u)\<lparr>net_writes := ws, net_connects := replicate n (Some reason)\<rparr>"
    by (auto simp: config_def away_def)
  have "away lib n t'"
    unfolding away_def using t' u assms(1)
    by (auto simp: config_def away_def del: not_None_eq)
  with t' u show ?thesis by (simp add: config_def)
qed

text \<open>Pumping repeatedly: the results in order.\<close>

fun pumps ::
  "'p cpp_library \<Rightarrow> nat \<Rightarrow> ('p, 'h) amqp_cpp \<Rightarrow> 'h \<Rightarrow> bool result list \<times> ('p, 'h) amqp_cpp \<times> 'h" where
  "pumps lib 0 t h = ([], t, h)"
| "pumps lib (Suc n) t h =
     (case am_pump lib t h of
        (r, t1, h1) \<Rightarrow> (case pumps lib n t1 h1 of (rs, t2, h2) \<Rightarrow> (r # rs, t2, h2)))"

section \<open>A broker that does not answer\<close>

text \<open>A connection whose handshake is still open, without a channel, over which nothing comes.\<close>

definition half_open :: "('p, 'h) amqp_cpp \<Rightarrow> bool" where
  "half_open t \<longleftrightarrow>
     (case am_connection t of None \<Rightarrow> False | Some c \<Rightarrow> \<not> ac_closed c \<and> \<not> ac_ready c) \<and>
     am_channel t = No_Channel \<and> am_handlerFailure t = None \<and> net_reads (am_net t) = []"

lemma pumpUntil_silent:
  assumes "net_reads (s_net s) = []"
  shows "pumpUntil lib run P n s = (Inr (P s), s)"
proof -
  obtain c x n1 n2 n3 n4 where "s = \<lparr>s_conn = c, s_net = \<lparr>net_resolves = n1, net_connects = n2,
      net_writes = n3, net_reads = [], net_budgets = n4\<rparr>, s_rest = x\<rparr>"
    using assms by (cases s; cases "s_net s") simp
  then show ?thesis by (cases n) (auto simp: pumpOnce_def)
qed

lemma wait_for_silent:
  assumes "net_reads (s_net s) = []"
  shows "\<exists>bs. wait_for lib run P s = (Inr (P (s\<lparr>s_net := (s_net s)\<lparr>net_budgets := bs\<rparr>\<rparr>)),
    s\<lparr>s_net := (s_net s)\<lparr>net_budgets := bs\<rparr>\<rparr>)"
proof -
  obtain n bs where n: "pop 0 (net_budgets (s_net s)) = (n, bs)" by fastforce
  show ?thesis
    using n pumpUntil_silent [of "s\<lparr>s_net := (s_net s)\<lparr>net_budgets := bs\<rparr>\<rparr>" lib run P n] assms
    by (auto simp: wait_for_def)
qed

lemma pump_half_open:
  assumes "half_open t"
  shows "\<exists>t'. am_pump lib t h = (Inr True, t', h) \<and> half_open t' \<and> config t' = config t"
proof -
  obtain c where c: "am_connection t = Some c" "\<not> ac_closed c" "\<not> ac_ready c"
    using assms by (auto simp: half_open_def split: option.splits)
  let ?s = "\<lparr>s_conn = c, s_net = am_net t, s_rest = (t, h)\<rparr>"
  have "net_reads (s_net ?s) = []" using assms by (simp add: half_open_def)
  from wait_for_silent [OF this, of "cpp_lib lib" "run_callback lib" "\<lambda>_. False"] obtain bs where
    "with_connection c (am_wait lib (\<lambda>_. False)) t h =
       (Inr False, t\<lparr>am_connection := Some c, am_net := (am_net t)\<lparr>net_budgets := bs\<rparr>\<rparr>, h)"
    by (auto simp: with_connection_def am_wait_def)
  then have "am_pump lib t h =
      (Inr True, t\<lparr>am_connection := Some c, am_net := (am_net t)\<lparr>net_budgets := bs\<rparr>\<rparr>, h)"
    using assms c by (simp add: am_pump_def Let_def half_open_def)
  with assms c show ?thesis by (simp add: half_open_def)
qed

lemma pumps_half_open:
  assumes "half_open t"
  shows "\<exists>t'. pumps lib n t h = (replicate n (Inr True), t', h) \<and> half_open t' \<and> config t' = config t"
  using assms
proof (induction n arbitrary: t)
  case (Suc n)
  obtain t1 where t1: "am_pump lib t h = (Inr True, t1, h)" "half_open t1" "config t1 = config t"
    using pump_half_open [OF Suc.prems] by blast
  from Suc.IH [OF t1(2)] t1 show ?case by auto
qed simp

lemma openConnection_unanswered:
  assumes "am_connection u = None" "lib_is_literal lib (ep_host (am_endpoint u))"
    and "net_connects (am_net u) = []" "net_writes (am_net u) = []" "net_reads (am_net u) = []"
    and "am_channel u = No_Channel" "am_handlerFailure u = None"
  shows "\<exists>e u'. openConnection lib u h = (Inl e, u', h) \<and> is_std_exception e \<and> half_open u' \<and>
    config u' = config u"
proof -
  let ?u = "u\<lparr>am_connection := Some (fresh_connection u)\<rparr>"
  let ?from = "\<lparr>s_conn = fresh_connection u, s_net = am_net u, s_rest = (?u, h)\<rparr>"
  let ?open = "set_conn (\<lambda>c. c\<lparr>ac_open := True\<rparr>) ?from"
  have tcp: "tcp_connect (cpp_lib lib) ?from = (Inr (), ?open)"
    using assms(2,3) by (simp add: tcp_connect_def Let_def cpp_library.defs amqp_library.defs)
  have "net_writes (s_net ?open) = []" using assms(4) by simp
  note header = onData_quiet [OF this, of "lib_header (cpp_lib lib)"]
  define c where "c = (fresh_connection u)\<lparr>ac_open := True,
    ac_bytesSent := ac_bytesSent (fresh_connection u) + length (lib_header (cpp_lib lib)),
    ac_connection := Some (lib_new (cpp_lib lib) (ac_user (fresh_connection u))
      (ac_password (fresh_connection u)) (ac_vhost (fresh_connection u)))\<rparr>"
  have c: "\<not> ac_closed c" "\<not> ac_ready c" "ac_error c = []" by (simp_all add: c_def)
  let ?wait = "wait_for (cpp_lib lib) (run_callback lib) handshake_settled
    \<lparr>s_conn = c, s_net = am_net u, s_rest = (?u, h)\<rparr>"
  have con: "connect (cpp_lib lib) (run_callback lib) ?from =
      (case ?wait of
         (Inl e, s4) \<Rightarrow> (Inl e, s4)
       | (Inr settled, s4) \<Rightarrow>
           let c4 = s_conn s4 in
           if ac_error c4 \<noteq> []
           then (Inl (Runtime_Error (msg_rejected (ac_error c4) (ac_vhost c4))), s4)
           else if ac_closed c4 then (Inl (Runtime_Error msg_closed_in_handshake), s4)
           else if \<not> settled \<or> \<not> ac_ready c4
           then (Inl (Runtime_Error (msg_handshake_timeout (ac_host c4))), s4)
           else (Inr (), s4))"
    unfolding connect_def tcp prod.case sum.case header by (simp add: set_conn_def Let_def c_def)
  obtain bs where "wait_for (cpp_lib lib) (run_callback lib) handshake_settled
      \<lparr>s_conn = c, s_net = am_net u, s_rest = (?u, h)\<rparr> =
      (Inr False, \<lparr>s_conn = c, s_net = (am_net u)\<lparr>net_budgets := bs\<rparr>, s_rest = (?u, h)\<rparr>)"
    using wait_for_silent [of "\<lparr>s_conn = c, s_net = am_net u, s_rest = (?u, h)\<rparr>" "cpp_lib lib"
        "run_callback lib" handshake_settled] assms(5) c by (auto simp: handshake_settled_def)
  with con c have "\<exists>m. connect (cpp_lib lib) (run_callback lib) ?from = (Inl (Runtime_Error m),
      \<lparr>s_conn = c, s_net = (am_net u)\<lparr>net_budgets := bs\<rparr>, s_rest = (?u, h)\<rparr>)" by simp
  then obtain m where "openConnection lib u h = (Inl (Runtime_Error m),
      u\<lparr>am_connection := Some c, am_net := (am_net u)\<lparr>net_budgets := bs\<rparr>\<rparr>, h)"
    using assms(1)
    by (auto simp: openConnection_def fresh_connection_def [symmetric] destroy_connection_def Let_def
        with_connection_def am_of_def)
  with assms c show ?thesis by (auto simp: half_open_def)
qed

section \<open>Properties\<close>

text \<open>One attempt at a reconnection, and what it orders of the new channel.\<close>

lemma reconnecting_pump:
  assumes "am_connection t = Some c" "ac_closed c" "rp_enabled (am_policy t)"
    and "am_failedAttempts t < rp_maxAttempts (am_policy t)" "am_refusals t = []"
    and "am_nextAttempt t \<le> fst (read_clock t)" "am_pump lib t h = (Inr True, t', h')"
  shows "\<exists>ds. prefix ds (closing t @ [Channel_Open] @ resuming t) \<and> orders t' = orders t @ ds \<and>
    (am_topic t', am_topicOptions t', am_subscribed t', am_handler t') =
      (am_topic t, am_topicOptions t, am_subscribed t, am_handler t) \<and>
    (if reconnects (am_stats t') = reconnects (am_stats t) + 1
     then ds = closing t @ [Channel_Open] @ resuming t \<and> usable t' \<and> am_failedAttempts t' = 0
     else reconnects (am_stats t') = reconnects (am_stats t) \<and>
       am_failedAttempts t' = am_failedAttempts t + 1)"
proof -
  obtain now t0 where 0: "read_clock t = (now, t0)" by fastforce
  then obtain clock where t0: "t0 = t\<lparr>am_clock := clock\<rparr>"
    by (auto simp: read_clock_def split: prod.splits)
  let ?t = "t0\<lparr>am_failedAttempts := am_failedAttempts t0 + 1\<rparr>"
  obtain x t1 h1 where 1: "restore lib ?t h = (x, t1, h1)" by (metis prod_cases3)
  have "lost ?t" using assms(1,2) t0 by (simp add: lost_def)
  moreover have cr: "closing ?t = closing t" "resuming ?t = resuming t"
    by (simp_all add: t0 closing_def resuming_def)
  ultimately have e: "emits (closing t @ [Channel_Open] @ resuming t) ?t x t1" "x = Inr () \<longrightarrow> usable t1"
    using restore_emits [OF _ _ 1] assms(5) t0 unfolding cr by simp_all
  then obtain ds where ds: "prefix ds (closing t @ [Channel_Open] @ resuming t)" "orders t1 = orders t @ ds"
    "x = Inr () \<longrightarrow> ds = closing t @ [Channel_Open] @ resuming t" "config t1 = config ?t"
    using t0 by (auto simp: emits_def orders_def)
  have def: "am_pump lib t h =
      (case x of
         Inr _ \<Rightarrow> (Inr True, am_count (\<lambda>s. s\<lparr>reconnects := reconnects s + 1\<rparr>) (t1\<lparr>am_failedAttempts := 0\<rparr>), h1)
       | Inl e \<Rightarrow>
           if is_std_exception e
           then (case read_clock t1 of (again, t2) \<Rightarrow>
             (Inr True, t2\<lparr>am_nextAttempt := again + reconnect_delay (am_policy t2) (am_failedAttempts t2)\<rparr>, h1))
           else (Inl e, t1, h1))"
    using assms(1-4,6) 0 1 t0 by (auto simp: am_pump_def serviceReconnect_def split: sum.split)
  show ?thesis
  proof (cases x)
    case (Inr u)
    then have "t' = am_count (\<lambda>s. s\<lparr>reconnects := reconnects s + 1\<rparr>) (t1\<lparr>am_failedAttempts := 0\<rparr>)"
      using def assms(7) by simp
    with ds e Inr t0 show ?thesis
      by (intro exI [of _ ds]) (simp add: am_count_def config_def orders_def usable_def)
  next
    case (Inl f)
    then obtain again clock' where "t' = t1\<lparr>am_clock := clock', am_nextAttempt := again\<rparr>"
      using def assms(7) by (auto simp: read_clock_def split: if_splits prod.splits)
    with ds t0 show ?thesis
      by (intro exI [of _ ds]) (simp add: config_def orders_def)
  qed
qed


text \<open>A subscribed transport whose connection ended, and a broker that answers.\<close>

definition small_lost :: "(amqp_callback list list, nat) amqp_cpp" where
  "small_lost =
     (small_amqp [] (quiet_net\<lparr>net_reads := [Got ''x'', Got ''x''], net_budgets := [2, 2]\<rparr>)
        (Some (\<lambda>d n. (Inr Ack, n + 1))))
       \<lparr>am_connection := Some ((live_connection [])\<lparr>ac_closed := True\<rparr>), am_topic := ''t'',
        am_policy := default_reconnect_policy\<lparr>rp_enabled := True\<rparr>\<rparr>"


text \<open>
  C12: attempts end: while the broker refuses connections and the clock has always passed the backoff,
  \<open>pump\<close> returns true once per attempt the policy still allows, and then false.
\<close>

theorem am_gives_up:
  assumes "away lib (Suc k) t" "unat (rp_maxAttempts (am_policy t)) = unat (am_failedAttempts t) + k"
    and "patient (am_policy t) (am_failedAttempts t) (am_nextAttempt t) (am_clock t)"
    and "2 * k \<le> length (am_clock t)"
  shows "fst (pumps lib (Suc k) t h) = replicate k (Inr True) @ [Inr False]"
  using assms
proof (induction k arbitrary: t)
  case 0
  obtain u where u: "am_pump lib t h = serviceReconnect lib u h" "config u = config t"
    using pump_away [OF 0(1)] by metis
  have "rp_maxAttempts (am_policy u) \<le> am_failedAttempts u"
    using 0(2) u(2) by (simp add: config_def word_le_nat_alt)
  with u(1) show ?case by (simp add: serviceReconnect_def)
next
  case (Suc k)
  then obtain now again clock where clock: "am_clock t = now # again # clock"
    by (cases "am_clock t"; cases "tl (am_clock t)") auto
  have less: "am_failedAttempts t < rp_maxAttempts (am_policy t)"
    using Suc.prems(2) by (simp add: word_less_nat_alt)
  obtain t' where t': "am_pump lib t h = (Inr True, t', h)" "away lib (Suc k) t'"
    "am_failedAttempts t' = am_failedAttempts t + 1" "am_policy t' = am_policy t" "am_clock t' = clock"
    "am_nextAttempt t' = again + reconnect_delay (am_policy t) (am_failedAttempts t + 1)"
    using pump_refused [OF Suc.prems(1) less clock] Suc.prems(3) clock by auto
  have "fst (pumps lib (Suc k) t' h) = replicate k (Inr True) @ [Inr False]"
    using Suc.prems(2-4) t'(2-6) clock unat_Suc_less [OF less] by (intro Suc.IH) simp_all
  with t'(1) show ?case by (simp split: prod.splits)
qed

definition refused_world :: net where
  "refused_world = quiet_net\<lparr>net_connects := replicate 3 (Some ''refused''),
     net_reads := replicate 3 (Read_Failed Not_Connected ''not connected''), net_budgets := replicate 3 1\<rparr>"

lemma am_gives_up_witness:
  "fst (pumps (scripted []) (Suc 2)
      ((small_amqp [] refused_world None)\<lparr>am_connection := None, am_channel := No_Channel,
         am_policy := default_reconnect_policy\<lparr>rp_enabled := True, rp_maxAttempts := 2\<rparr>,
         am_clock := [0, 0, 250, 250]\<rparr>) (0 :: nat)) = [Inr True, Inr True, Inr False]"
proof -
  let ?t = "(small_amqp [] refused_world None)\<lparr>am_connection := None, am_channel := No_Channel,
    am_policy := default_reconnect_policy\<lparr>rp_enabled := True, rp_maxAttempts := 2\<rparr>,
    am_clock := [0, 0, 250, 250]\<rparr> :: (amqp_callback list list, nat) amqp_cpp"
  have "away (scripted []) 3 ?t"
    by (auto simp: away_def lost_def scripted_def refused_world_def quiet_net_def default_reconnect_policy_def
        small_amqp_def amqp_cpp_new_def intro: exI [of _ "3 :: nat"])
  then have w: "away (scripted []) (Suc 2) ?t" by simp
  have "fst (pumps (scripted []) (Suc 2) ?t (0 :: nat)) = replicate 2 (Inr True) @ [Inr False]"
    by (rule am_gives_up [OF w]) code_simp+
  then show ?thesis by (simp only: numeral_2_eq_2 replicate.simps append.simps)
qed

text \<open>
  C27: a broker that accepts the connection but never answers the handshake is not retried: the attempt
  times out, leaves a connection that is neither ready nor closed and no channel, and from then on
  every \<open>pump\<close> returns true without another attempt, whatever the policy allows.
\<close>

theorem am_half_open_never_retried:
  assumes "lost t" "rp_enabled (am_policy t)" "am_failedAttempts t < rp_maxAttempts (am_policy t)"
    and "am_nextAttempt t \<le> fst (read_clock t)" "lib_is_literal lib (ep_host (am_endpoint t))"
    and "net_connects (am_net t) = []" "net_writes (am_net t) = []" "net_reads (am_net t) = []"
    and "am_handlerFailure t = None" "pumps lib (Suc n) t h = (rs, t', h')"
  shows "rs = replicate (Suc n) (Inr True) \<and> am_failedAttempts t' = am_failedAttempts t + 1 \<and>
    reconnects (am_stats t') = reconnects (am_stats t) \<and> \<not> am_ready t' \<and> am_channel t' = No_Channel"
proof -
  obtain now t0 where 0: "read_clock t = (now, t0)" by fastforce
  then obtain clock where t0: "t0 = t\<lparr>am_clock := clock\<rparr>"
    by (auto simp: read_clock_def split: prod.splits)
  let ?t = "t0\<lparr>am_failedAttempts := am_failedAttempts t0 + 1\<rparr>"
  have "lost ?t" using assms(1) t0 by (simp add: lost_def split: option.splits)
  from reopen_lost [OF this] obtain u where u: "untouched ?t u" "am_channel u = No_Channel"
    "am_connection u = None" "reopen lib ?t h = openConnection lib u h" by blast
  have "am_net u = am_net t" "am_handlerFailure u = None" "config u = config ?t"
    using u(1) t0 assms(7,9) by (simp_all add: untouched_def)
  then obtain e v where v: "openConnection lib u h = (Inl e, v, h)" "is_std_exception e" "half_open v"
    "config v = config ?t"
    using openConnection_unanswered [of u lib h] u t0 assms(5-8) by (auto simp: config_def)
  then have "restore lib ?t h = (Inl e, v, h)" using u(4) by (simp add: restore_def)
  moreover obtain again clock' where "read_clock v = (again, v\<lparr>am_clock := clock'\<rparr>)"
    by (cases "pop 0 (am_clock v)") (simp add: read_clock_def)
  ultimately have "serviceReconnect lib t h = (Inr True, v\<lparr>am_clock := clock',
      am_nextAttempt := again + reconnect_delay (am_policy v) (am_failedAttempts v)\<rparr>, h)"
    using assms(2-4) 0 t0 v(2) by (simp add: serviceReconnect_def)
  then obtain again where s: "serviceReconnect lib t h =
      (Inr True, v\<lparr>am_clock := clock', am_nextAttempt := again\<rparr>, h)" by blast
  let ?v = "v\<lparr>am_clock := clock', am_nextAttempt := again\<rparr>"
  have v1: "half_open ?v" using v(3) by (simp add: half_open_def)
  have "am_pump lib t h = (Inr True, ?v, h)"
    using assms(1,2) s by (auto simp: am_pump_def Let_def lost_def split: option.splits)
  moreover obtain w where "pumps lib n ?v h = (replicate n (Inr True), w, h)" "half_open w" "config w = config ?v"
    using pumps_half_open [OF v1] by blast
  ultimately show ?thesis
    using assms(10) v(4) t0
    by (auto simp: config_def half_open_def am_ready_def ac_is_ready_def split: option.splits)
qed

lemma am_half_open_never_retried_witness:
  "case pumps (scripted []) (Suc 9)
      ((small_amqp [] quiet_net None)\<lparr>am_connection := None, am_channel := No_Channel,
         am_policy := default_reconnect_policy\<lparr>rp_enabled := True\<rparr>\<rparr>) (0 :: nat) of
     (rs, t', h') \<Rightarrow> rs = replicate 10 (Inr True) \<and> am_failedAttempts t' = 1"
proof -
  let ?t = "(small_amqp [] quiet_net None)\<lparr>am_connection := None, am_channel := No_Channel,
    am_policy := default_reconnect_policy\<lparr>rp_enabled := True\<rparr>\<rparr> :: (amqp_callback list list, nat) amqp_cpp"
  obtain rs t' h' where e: "pumps (scripted []) (Suc 9) ?t (0 :: nat) = (rs, t', h')" by (metis prod_cases3)
  have "am_failedAttempts ?t = 0" "am_nextAttempt ?t = 0" "fst (read_clock ?t) = 0"
    "am_handlerFailure ?t = None" by code_simp+
  then have "rs = replicate (Suc 9) (Inr True) \<and> am_failedAttempts t' = 1"
    using am_half_open_never_retried [OF _ _ _ _ _ _ _ _ _ e]
    by (simp add: lost_def default_reconnect_policy_def scripted_def quiet_net_def)
  with e show ?thesis by simp
qed

end
