(* ===== verification/Amqp_Cpp_Stream.thy ===== *)
theory Amqp_Cpp_Stream
  imports Amqp_Cpp_Props Conveyance
begin

text \<open>
  What one \<open>pump\<close> of the AMQP-CPP backend does with the bytes that arrive: however the stream is
  cut into reads, each delivery in it reaches the handler once, in order, and is answered by the
  command of its own disposition. The steps of the transport are refined by a fold over the
  deliveries.
\<close>

section \<open>One delivery\<close>

text \<open>The callback of the library for a delivery.\<close>

definition arrival :: "delivery \<Rightarrow> amqp_callback" where
  "arrival d = On_Received (d_body d) (d_tag d) (d_redelivered d)"

text \<open>What the transport does with the handler's outcome.\<close>

definition answer :: "nat \<Rightarrow> disposition result \<Rightarrow> ('p, 'h) amqp_cpp \<Rightarrow> ('p, 'h) amqp_cpp" where
  "answer tag outcome t =
     (case outcome of
        Inl e \<Rightarrow> stash e t
      | Inr d \<Rightarrow>
          if d = Deferred then t\<lparr>am_outstandingDeferred := insert tag (am_outstandingDeferred t)\<rparr>
          else am_count (counted d) (t\<lparr>am_commands := am_commands t @ disposition_command tag d\<rparr>))"

definition handled ::
  "'h delivery_handler \<Rightarrow> amqp_callback \<Rightarrow> ('p, 'h) amqp_cpp \<times> 'h \<Rightarrow> ('p, 'h) amqp_cpp \<times> 'h" where
  "handled f cb = (\<lambda>(t, h).
     (case cb of
        On_Received body tag redelivered \<Rightarrow>
          (case f \<lparr>d_body = body, d_redelivered = redelivered, d_tag = tag\<rparr> h of
             (outcome, h') \<Rightarrow> (answer tag outcome (am_count (\<lambda>s. s\<lparr>received := received s + 1\<rparr>) t), h'))
      | _ \<Rightarrow> (t, h)))"

lemma handled_arrival:
  "handled f (arrival d) (t, h) =
     (case f d h of (outcome, h') \<Rightarrow>
        (answer (d_tag d) outcome (am_count (\<lambda>s. s\<lparr>received := received s + 1\<rparr>) t), h'))"
  by (cases d) (simp add: handled_def arrival_def)

text \<open>A channel in use that refuses nothing, and the handler \<open>f\<close>.\<close>

definition consuming :: "'h delivery_handler \<Rightarrow> ('p, 'h) amqp_cpp \<times> 'h \<Rightarrow> bool" where
  "consuming f x \<longleftrightarrow>
     am_channel (fst x) = Attached \<and> am_refusals (fst x) = [] \<and> am_handler (fst x) = Some f"

lemma consuming_handled: "consuming f x \<Longrightarrow> consuming f (handled f cb x)"
  by (auto simp: consuming_def handled_def answer_def stash_def am_count_def
      split: amqp_callback.split prod.split sum.split)

lemma no_refusals: "am_refusals t = [] \<Longrightarrow> t\<lparr>am_refusals := []\<rparr> = t"
  by simp

lemma acknowledge_quiet:
  assumes "am_channel (am_of s) = Attached" "am_refusals (am_of s) = []" "net_writes (s_net s) = []"
  shows "\<exists>b. acknowledge lib cmd g s = (Inr (), s\<lparr>s_conn := (s_conn s)\<lparr>ac_bytesSent := b\<rparr>,
    s_rest := (am_count g ((am_of s)\<lparr>am_commands := am_commands (am_of s) @ [cmd]\<rparr>), snd (s_rest s))\<rparr>)"
  using assms
  by (intro exI) (simp add: acknowledge_def channel_command_def refused_def write_frame_def onData_quiet
      am_of_def am_upd_def am_count_def set_conn_def no_refusals)

lemma onReceived_quiet:
  assumes "consuming f (s_rest s)" "net_writes (s_net s) = []"
  shows "\<exists>b. onReceived lib body tag redelivered s = (Inr (), s\<lparr>s_conn := (s_conn s)\<lparr>ac_bytesSent := b\<rparr>,
    s_rest := handled f (On_Received body tag redelivered) (s_rest s)\<rparr>)"
proof -
  let ?r = "am_count (\<lambda>s. s\<lparr>received := received s + 1\<rparr>) (am_of s)"
  obtain outcome h where f: "f \<lparr>d_body = body, d_redelivered = redelivered, d_tag = tag\<rparr> (snd (s_rest s)) = (outcome, h)"
    by fastforce
  let ?s = "s\<lparr>s_rest := (?r, h)\<rparr>"
  have o: "onReceived lib body tag redelivered s =
      (case outcome of
         Inl e \<Rightarrow> (Inr (), am_upd (stash e) ?s)
       | Inr d \<Rightarrow> if d = Deferred
           then (Inr (), am_upd (\<lambda>t. t\<lparr>am_outstandingDeferred := insert tag (am_outstandingDeferred t)\<rparr>) ?s)
           else settle_command lib tag d ?s)"
    using assms(1) f
    by (cases outcome) (simp_all add: onReceived_def consuming_def am_of_def am_upd_def am_count_def Let_def)
  have h: "handled f (On_Received body tag redelivered) (s_rest s) = (answer tag outcome ?r, h)"
    using f by (cases "s_rest s") (simp add: handled_def am_of_def)
  show ?thesis
  proof (cases "\<exists>d. outcome = Inr d \<and> d \<noteq> Deferred")
    case True
    then obtain d where d: "outcome = Inr d" "d \<noteq> Deferred" by blast
    then have "[hd (disposition_command tag d)] = disposition_command tag d" by (cases d) simp_all
    moreover have "\<exists>b. acknowledge lib (hd (disposition_command tag d)) (counted d) ?s =
        (Inr (), ?s\<lparr>s_conn := (s_conn ?s)\<lparr>ac_bytesSent := b\<rparr>,
           s_rest := (am_count (counted d) ((am_of ?s)\<lparr>am_commands := am_commands (am_of ?s) @
             [hd (disposition_command tag d)]\<rparr>), snd (s_rest ?s))\<rparr>)"
      using assms by (intro acknowledge_quiet) (simp_all add: consuming_def am_of_def am_count_def)
    ultimately show ?thesis
      using o h d by (simp add: settle_command_acknowledge answer_def am_of_def)
  next
    case False
    then show ?thesis
      using o h by (intro exI [of _ "ac_bytesSent (s_conn s)"])
        (auto simp: answer_def am_upd_def split: sum.split)
  qed
qed

lemma run_arrival:
  assumes "\<exists>d. cb = arrival d" "consuming f (s_rest s)" "net_writes (s_net s) = []"
  shows "\<exists>b. run_callback lib cb s =
    (Inr (), s\<lparr>s_conn := (s_conn s)\<lparr>ac_bytesSent := b\<rparr>, s_rest := handled f cb (s_rest s)\<rparr>)"
proof -
  obtain d where "cb = arrival d" using assms(1) by blast
  moreover have "am_channel (am_of s) = Attached" using assms(2) by (simp add: consuming_def am_of_def)
  ultimately show ?thesis using onReceived_quiet [OF assms(2,3)] by (simp add: run_callback_def arrival_def)
qed

interpretation arriving: streaming "run_callback lib" "\<lambda>cb. \<exists>d. cb = arrival d" "consuming f"
    "\<lambda>n. net_writes n = []" "handled f"
  for lib :: "'p cpp_library" and f :: "'h delivery_handler"
  by unfold_locales (rule run_arrival, assumption+, rule consuming_handled, assumption, simp)

section \<open>A stream of deliveries\<close>

text \<open>The outcomes of the handler for one delivery after the other, and its memory afterwards.\<close>

fun outcomes :: "'h delivery_handler \<Rightarrow> delivery list \<Rightarrow> 'h \<Rightarrow> disposition result list \<times> 'h" where
  "outcomes f [] h = ([], h)"
| "outcomes f (d # ds) h =
     (case f d h of (outcome, h1) \<Rightarrow> apfst ((#) outcome) (outcomes f ds h1))"

text \<open>The commands that answer them.\<close>

definition answers :: "delivery \<Rightarrow> disposition result \<Rightarrow> amqp_command list" where
  "answers d outcome = (case outcome of Inl _ \<Rightarrow> [] | Inr x \<Rightarrow> disposition_command (d_tag d) x)"

definition thrown :: "disposition result list \<Rightarrow> exn list" where
  "thrown os = concat (map (\<lambda>x. case x of Inl e \<Rightarrow> [e] | Inr _ \<Rightarrow> []) os)"

lemma thrown_Cons [simp]: "thrown [] = []" "thrown (Inl e # os) = e # thrown os" "thrown (Inr x # os) = thrown os"
  by (simp_all add: thrown_def)

lemma answer_sel:
  "am_commands (answer (d_tag d) x t) = am_commands t @ answers d x"
  "am_outstandingDeferred (answer (d_tag d) x t) =
     am_outstandingDeferred t \<union> (if x = Inr Deferred then {d_tag d} else {})"
  "received (am_stats (answer (d_tag d) x t)) = received (am_stats t)"
  "performed (am_stats (answer (d_tag d) x t)) = tally x (performed (am_stats t))"
  "am_handlerFailure (answer (d_tag d) x t) =
     (case x of Inl e \<Rightarrow> Some e | Inr _ \<Rightarrow> am_handlerFailure t)"
proof -
  consider e where "x = Inl e" | y where "x = Inr y" by (cases x)
  then show "am_commands (answer (d_tag d) x t) = am_commands t @ answers d x"
    "am_outstandingDeferred (answer (d_tag d) x t) =
       am_outstandingDeferred t \<union> (if x = Inr Deferred then {d_tag d} else {})"
    "received (am_stats (answer (d_tag d) x t)) = received (am_stats t)"
    "performed (am_stats (answer (d_tag d) x t)) = tally x (performed (am_stats t))"
    "am_handlerFailure (answer (d_tag d) x t) = (case x of Inl e \<Rightarrow> Some e | Inr _ \<Rightarrow> am_handlerFailure t)"
    by (cases; simp add: answer_def answers_def stash_def am_count_def performed_def counted_def
        split: disposition.split)+
qed

lemma handled_all:
  assumes "fold (handled f) (map arrival ds) (t, h) = (t', h')" "outcomes f ds h = (os, h1)"
  shows "h' = h1 \<and> length os = length ds \<and>
    am_commands t' = am_commands t @ concat (map2 answers ds os) \<and>
    am_outstandingDeferred t' = am_outstandingDeferred t \<union> {d_tag d | d. (d, Inr Deferred) \<in> set (zip ds os)} \<and>
    received (am_stats t') = received (am_stats t) + length ds \<and>
    performed (am_stats t') = fold tally os (performed (am_stats t)) \<and>
    am_handlerFailure t' = (if thrown os = [] then am_handlerFailure t else Some (last (thrown os)))"
  using assms
proof (induction ds arbitrary: t h os)
  case (Cons d ds)
  obtain x h2 where x: "f d h = (x, h2)" by fastforce
  then obtain os2 where os2: "outcomes f ds h2 = (os2, h1)" and os: "os = x # os2"
    using Cons.prems(2) by (cases "outcomes f ds h2") auto
  let ?t = "answer (d_tag d) x (am_count (\<lambda>s. s\<lparr>received := received s + 1\<rparr>) t)"
  have "fold (handled f) (map arrival ds) (?t, h2) = (t', h')"
    using Cons.prems(1) x by (simp add: handled_arrival)
  note Cons.IH [OF this os2]
  moreover have "performed (am_stats (am_count (\<lambda>s. s\<lparr>received := received s + 1\<rparr>) t)) = performed (am_stats t)"
    by (simp add: am_count_def performed_def)
  ultimately show ?case
    by (cases x) (auto simp: os answer_sel am_count_def)
qed (simp add: thrown_def)

section \<open>One pump\<close>

text \<open>
  A live connection that will turn \<open>bytes\<close> into the deliveries \<open>ds\<close>, and perhaps the beginning of
  another frame, once it has read them.
\<close>

definition turns_into :: "'p cpp_library \<Rightarrow> ('p, 'h) amqp_cpp \<Rightarrow> string \<Rightarrow> delivery list \<Rightarrow> bool" where
  "turns_into lib t bytes ds \<longleftrightarrow>
     (\<exists>c p k p'. am_connection t = Some c \<and> \<not> ac_closed c \<and> ac_connection c = Some p \<and>
        lib_parse lib p (ac_inBuffer c) = ([], 0, p) \<and>
        lib_parse lib p (ac_inBuffer c @ bytes) = (map arrival ds, k, p'))"

text \<open>
  The slice of one pump: it reads the pieces \<open>chunks\<close> and then its time is up, or nothing comes
  for the rest of it. No write fails.
\<close>

definition slice_of :: "net \<Rightarrow> string list \<Rightarrow> nat \<Rightarrow> read_outcome list \<Rightarrow> nat list \<Rightarrow> bool" where
  "slice_of w chunks m rs ns \<longleftrightarrow>
     net_reads w = map Got chunks @ rs \<and> net_writes w = [] \<and> net_budgets w = (length chunks + m) # ns \<and>
     (m = 0 \<or> rs = [] \<or> hd rs = Timed_Out)"

lemma map_arrival_append:
  assumes "map arrival ds = cs1 @ cs2"
  shows "\<exists>ds1 ds2. ds = ds1 @ ds2 \<and> cs1 = map arrival ds1 \<and> cs2 = map arrival ds2"
  using assms by (auto simp: map_eq_append_conv)

text \<open>A pump is the fold of what it does for one delivery, over the deliveries it has read.\<close>

lemma am_pump_slice:
  assumes "framed (lib_parse lib)" "turns_into lib t (concat chunks @ later_bytes) ds" "consuming f (t, h)"
    and "slice_of (am_net t) chunks m rs ns"
  shows "\<exists>ds1 ds2 t1 h1 t'. ds = ds1 @ ds2 \<and> fold (handled f) (map arrival ds1) (t, h) = (t1, h1) \<and>
    am_pump lib t h = ((case am_handlerFailure t1 of None \<Rightarrow> Inr True | Some e \<Rightarrow> Inl e), t', h1) \<and>
    turns_into lib t' later_bytes ds2 \<and> (\<exists>c. t' = t1\<lparr>am_connection := c, am_handlerFailure := None,
      am_net := (am_net t)\<lparr>net_budgets := ns, net_reads := if m = 0 then rs else tl rs\<rparr>\<rparr>)"
proof -
  obtain c p k p' where c: "am_connection t = Some c" "\<not> ac_closed c" "ac_connection c = Some p"
    "lib_parse lib p (ac_inBuffer c) = ([], 0, p)"
    "lib_parse lib p (ac_inBuffer c @ concat chunks @ later_bytes) = (map arrival ds, k, p')"
    using assms(2) unfolding turns_into_def by blast
  let ?b = "ac_inBuffer c @ concat chunks"
  obtain cs1 n1 p1 where one: "lib_parse lib p ?b = (cs1, n1, p1)" by (rule prod_cases3)
  obtain cs2 n2 p2 where two: "lib_parse lib p1 (drop n1 ?b @ later_bytes) = (cs2, n2, p2)" by (rule prod_cases3)
  have "map arrival ds = cs1 @ cs2" using framedD [OF assms(1) one, of later_bytes] two c(5) by simp
  then obtain ds1 ds2 where ds: "ds = ds1 @ ds2" "cs1 = map arrival ds1" "cs2 = map arrival ds2"
    using map_arrival_append by blast
  obtain t1 h1 where 1: "fold (handled f) (map arrival ds1) (t, h) = (t1, h1)" by fastforce
  let ?w = "(am_net t)\<lparr>net_budgets := ns\<rparr>"
  let ?s = "\<lparr>s_conn = c, s_net = ?w, s_rest = (t, h)\<rparr>"
  have "list_all (\<lambda>cb. \<exists>d. cb = arrival d) (map arrival ds1)" by (auto simp: list_all_iff)
  then have "\<exists>s'. pumpUntil (cpp_lib lib) (run_callback lib) (\<lambda>_. False) (length chunks + m) ?s = (Inr False, s') \<and>
    s_rest s' = fold (handled f) (map arrival ds1) (s_rest ?s) \<and> ac_closed (s_conn s') = ac_closed (s_conn ?s) \<and>
    s_net s' = (s_net ?s)\<lparr>net_reads := if m = 0 then rs else tl rs\<rparr> \<and> ac_connection (s_conn s') = Some p1 \<and>
    ac_inBuffer (s_conn s') = drop n1 (ac_inBuffer (s_conn ?s) @ concat chunks)"
    using assms(1,3,4) c one ds(2)
    by (intro arriving.pumpUntil_accepts) (simp_all add: amqp_library.truncate_def slice_of_def)
  then obtain s' where s': "pumpUntil (cpp_lib lib) (run_callback lib) (\<lambda>_. False) (length chunks + m) ?s = (Inr False, s')"
    "s_rest s' = (t1, h1)" "\<not> ac_closed (s_conn s')" "s_net s' = ?w\<lparr>net_reads := if m = 0 then rs else tl rs\<rparr>"
    "ac_connection (s_conn s') = Some p1" "ac_inBuffer (s_conn s') = drop n1 ?b"
    using c(2) 1 by auto
  let ?t = "t1\<lparr>am_connection := Some (s_conn s'), am_handlerFailure := None, am_net := s_net s'\<rparr>"
  have "with_connection c (am_wait lib (\<lambda>_. False)) t h =
      (Inr False, t1\<lparr>am_connection := Some (s_conn s'), am_net := s_net s'\<rparr>, h1)"
    using assms(4) s'(1,2) by (simp add: slice_of_def with_connection_def am_wait_def wait_for_def)
  then have "am_pump lib t h = ((case am_handlerFailure t1 of None \<Rightarrow> Inr True | Some e \<Rightarrow> Inl e), ?t, h1)"
    using c(1,2) s'(3) by (simp add: am_pump_def split: option.split)
  moreover have "turns_into lib ?t later_bytes ds2"
    using s'(3,5,6) two ds(3) framed_left [OF assms(1) one] by (simp add: turns_into_def)
  ultimately show ?thesis using ds(1) 1 s'(4) by (intro exI conjI) auto
qed

text \<open>What arrives within the slice of one pump, all of it.\<close>

definition offers :: "'p cpp_library \<Rightarrow> ('p, 'h) amqp_cpp \<Rightarrow> string list \<Rightarrow> delivery list \<Rightarrow> bool" where
  "offers lib t chunks ds \<longleftrightarrow>
     turns_into lib t (concat chunks) ds \<and> (\<exists>m rs ns. slice_of (am_net t) chunks m rs ns)"

lemma turns_into_nothing: "turns_into lib t [] ds \<Longrightarrow> ds = []"
  by (auto simp: turns_into_def)

lemma am_pump_fold:
  assumes "framed (lib_parse lib)" "offers lib t chunks ds" "consuming f (t, h)"
    and "fold (handled f) (map arrival ds) (t, h) = (t1, h1)"
  shows "\<exists>c n. am_pump lib t h =
    ((case am_handlerFailure t1 of None \<Rightarrow> Inr True | Some e \<Rightarrow> Inl e),
     t1\<lparr>am_connection := c, am_handlerFailure := None, am_net := n\<rparr>, h1)"
proof -
  obtain m rs ns where o: "turns_into lib t (concat chunks @ []) ds" "slice_of (am_net t) chunks m rs ns"
    using assms(2) by (auto simp: offers_def)
  from am_pump_slice [OF assms(1) o(1) assms(3) o(2)] assms(4) show ?thesis
    by (fastforce dest: turns_into_nothing)
qed

section \<open>A consumer of messages\<close>

lemma outcomes_recorder:
  assumes "con_handlers c = recorder" "map d_body ds = map envelope ms" "list_all encodable ms"
  shows "outcomes (consumer_deliver caps) ds c =
    (replicate (length ms) (Inr Ack), c\<lparr>con_user := con_user c @ ms, con_acked := con_acked c + length ms\<rparr>)"
  using assms
proof (induction ms arbitrary: ds c)
  case (Cons m ms)
  then obtain d ds' where d: "ds = d # ds'" "d_body d = envelope m" "map d_body ds' = map envelope ms"
    by (cases ds) auto
  let ?c = "c\<lparr>con_user := con_user c @ [m], con_acked := con_acked c + 1\<rparr>"
  have "consumer_deliver caps d c = (Inr Ack, ?c)"
    using recorder_deliver [OF Cons.prems(1), of d m caps] d(2) Cons.prems(3) by (simp add: deserialize_encodable)
  with Cons.IH [of ?c ds'] Cons.prems d(1,3) show ?case by simp
qed simp

lemma thrown_replicate: "thrown (replicate n (Inr x)) = []"
  by (induction n) simp_all

lemma answers_acknowledged:
  "length ds = n \<Longrightarrow> concat (map2 answers ds (replicate n (Inr Ack))) = map (Basic_Ack \<circ> d_tag) ds"
  by (induction ds arbitrary: n) (auto simp: answers_def)

section \<open>A small broker\<close>

text \<open>
  Frames of two bytes, each a delivery whose tag is the code of its first byte and whose body has
  the given prefix.
\<close>

lemma framed_map:
  assumes "framed parse"
  shows "framed (\<lambda>p xs. case parse p xs of (cs, n, q) \<Rightarrow> (map g cs, n, q))"
proof -
  let ?parse = "\<lambda>p xs. case parse p xs of (cs, n, q) \<Rightarrow> (map g cs, n, q)"
  have "case ?parse p xs of (cs, n, p1) \<Rightarrow> n \<le> length xs \<and> ?parse p (xs @ ys) =
      (case ?parse p1 (drop n xs @ ys) of (ds, k, p2) \<Rightarrow> (cs @ ds, n + k, p2))" for p xs ys
  proof -
    obtain cs n p1 where 1: "parse p xs = (cs, n, p1)" by (rule prod_cases3)
    obtain ds k p2 where 2: "parse p1 (drop n xs @ ys) = (ds, k, p2)" by (rule prod_cases3)
    from framedD [OF assms 1, of ys] 1 2 show ?thesis by simp
  qed
  then show ?thesis unfolding framed_def by (intro allI)
qed

definition pair_library :: "string \<Rightarrow> unit cpp_library" where
  "pair_library front =
     \<lparr>lib_is_literal = (\<lambda>_. True), lib_new = (\<lambda>_ _ _. ()), lib_header = ''AMQP'', lib_close = ''bye'',
      lib_parse = (\<lambda>p xs. case pairs p xs of (cs, n, q) \<Rightarrow>
        (map (\<lambda>c. On_Received (front @ c) (of_char (hd c)) False) cs, n, q)),
      lib_frame = (\<lambda>_. ''frame''), lib_detached = ''channel is gone''\<rparr>"

definition pair_delivery :: "string \<Rightarrow> string \<Rightarrow> delivery" where
  "pair_delivery front c = \<lparr>d_body = front @ c, d_redelivered = False, d_tag = of_char (hd c)\<rparr>"

definition receiving :: "string list \<Rightarrow> 'h delivery_handler \<Rightarrow> (unit, 'h) amqp_cpp" where
  "receiving chunks f =
     (amqp_cpp_new (quiet_net\<lparr>net_reads := map Got chunks, net_budgets := [9]\<rparr>) [] [])
       \<lparr>am_connection := Some (live_connection ()), am_channel := Attached, am_handler := Some f,
        am_subscribed := True\<rparr>"

lemma receiving_sel [simp]:
  "am_handlerFailure (receiving chunks f) = None" "am_commands (receiving chunks f) = []"
  "consuming f (receiving chunks f, h)"
  by (simp_all add: receiving_def amqp_cpp_new_def consuming_def)

lemma framed_pair_library: "framed (lib_parse (pair_library front))"
  using framed_map [OF framed_pairs] by (simp add: pair_library_def)

lemma receiving_offers:
  assumes "pairs () (concat chunks) = (cs, k, ())" "length chunks \<le> 9"
  shows "offers (pair_library front) (receiving chunks f) chunks (map (pair_delivery front) cs)"
proof -
  have "slice_of (am_net (receiving chunks f)) chunks (9 - length chunks) [] []"
    using assms(2) by (simp add: slice_of_def receiving_def amqp_cpp_new_def quiet_net_def)
  moreover have "turns_into (pair_library front) (receiving chunks f) (concat chunks) (map (pair_delivery front) cs)"
    using assms(1)
    by (auto simp: turns_into_def receiving_def amqp_cpp_new_def live_connection_def amqp_connection_new_def
        pair_library_def pair_delivery_def arrival_def)
  ultimately show ?thesis by (auto simp: offers_def)
qed

section \<open>Properties\<close>

text \<open>
  C3: what a pump does with what arrives. On a channel in use that refuses nothing, however the
  bytes are cut into reads, the handler is called once for each delivery in the stream, in order;
  each is answered at once by the command of the disposition it got, a deferred one is kept for
  later and one whose handler threw is not answered; the statistics count exactly this, and pump
  returns true or throws what the last handler to throw threw.
\<close>

theorem am_pump_serves_stream:
  assumes "framed (lib_parse lib)" "offers lib t chunks ds" "consuming f (t, h)" "am_handlerFailure t = None"
    and "outcomes f ds h = (os, h')"
  shows "\<exists>t'. am_pump lib t h = ((if thrown os = [] then Inr True else Inl (last (thrown os))), t', h') \<and>
    am_commands t' = am_commands t @ concat (map2 answers ds os) \<and>
    am_outstandingDeferred t' = am_outstandingDeferred t \<union> {d_tag d | d. (d, Inr Deferred) \<in> set (zip ds os)} \<and>
    received (am_stats t') = received (am_stats t) + length ds \<and>
    performed (am_stats t') = fold tally os (performed (am_stats t)) \<and> am_handlerFailure t' = None"
proof -
  obtain t1 h1 where 1: "fold (handled f) (map arrival ds) (t, h) = (t1, h1)" by fastforce
  obtain c n where "am_pump lib t h = ((case am_handlerFailure t1 of None \<Rightarrow> Inr True | Some e \<Rightarrow> Inl e),
      t1\<lparr>am_connection := c, am_handlerFailure := None, am_net := n\<rparr>, h1)"
    using am_pump_fold [OF assms(1-3) 1] by blast
  with handled_all [OF 1 assms(5)] assms(4) show ?thesis by auto
qed

text \<open>
  Four deliveries in three pieces, which the handler acknowledges, defers, gives up with an
  exception, and returns.
\<close>

definition mixed :: "nat delivery_handler" where
  "mixed d n =
     ((if hd (d_body d) = CHR ''a'' then Inr Ack
       else if hd (d_body d) = CHR ''d'' then Inr Deferred
       else if hd (d_body d) = CHR ''x'' then Inl (Runtime_Error ''crash'')
       else Inr Requeue), n + 1)"

lemma am_pump_serves_stream_witness:
  "\<exists>t'. am_pump (pair_library []) (receiving [''a1d'', ''2x'', ''3r4''] mixed) 0 =
       (Inl (Runtime_Error ''crash''), t', 4) \<and>
     am_commands t' = [Basic_Ack 97, Basic_Reject 114 True]"
proof -
  let ?ds = "map (pair_delivery []) [''a1'', ''d2'', ''x3'', ''r4'']"
  have "pairs () (concat [''a1d'', ''2x'', ''3r4'']) = ([''a1'', ''d2'', ''x3'', ''r4''], 8, ())" by simp
  from receiving_offers [OF this] have
    o: "offers (pair_library []) (receiving [''a1d'', ''2x'', ''3r4''] mixed) [''a1d'', ''2x'', ''3r4''] ?ds" by simp
  have x: "outcomes mixed ?ds 0 = ([Inr Ack, Inr Deferred, Inl (Runtime_Error ''crash''), Inr Requeue], 4)"
    by (simp add: pair_delivery_def mixed_def)
  have "concat (map2 answers ?ds [Inr Ack, Inr Deferred, Inl (Runtime_Error ''crash''), Inr Requeue]) =
      [Basic_Ack 97, Basic_Reject 114 True]"
    by (simp add: answers_def pair_delivery_def)
  with am_pump_serves_stream [OF framed_pair_library o receiving_sel(3,1) x] show ?thesis by auto
qed

text \<open>
  From the stream to the consumer. When the bytes that arrive within a slice carry encoded
  messages, one poll of a consumer over the AMQP-CPP backend hands its handler the messages
  decoded, each once and in order, however the bytes were cut; it counts them as acknowledged and
  the channel was told to acknowledge each, by its own tag.
\<close>

theorem am_stream_consumed:
  assumes "framed (lib_parse lib)" "offers lib t chunks ds" "consuming (consumer_deliver caps) (t, c)"
    and "am_handlerFailure t = None" "con_handlers c = recorder" "con_settlements c = None"
    and "map d_body ds = map envelope ms" "list_all encodable ms"
    and "consumer_poll (amqp_transport lib) arrivals e c t = (r, c', t')"
  shows "r = Inr True \<and> con_user c' = con_user c @ ms \<and> con_acked c' = con_acked c + length ms \<and>
    am_commands t' = am_commands t @ map (Basic_Ack \<circ> d_tag) ds \<and> am_outstandingDeferred t' = am_outstandingDeferred t"
proof -
  obtain t1 h1 where 1: "fold (handled (consumer_deliver caps)) (map arrival ds) (t, c) = (t1, h1)" by fastforce
  obtain k n where "am_pump lib t c = ((case am_handlerFailure t1 of None \<Rightarrow> Inr True | Some e \<Rightarrow> Inl e),
      t1\<lparr>am_connection := k, am_handlerFailure := None, am_net := n\<rparr>, h1)"
    using am_pump_fold [OF assms(1-3) 1] by blast
  moreover have "length ds = length ms" using assms(7) by (metis length_map)
  moreover note handled_all [OF 1 outcomes_recorder [OF assms(5,7,8)]]
  moreover have "{d_tag d | d. (d, Inr Deferred) \<in> set (zip ds (replicate (length ms) (Inr Ack)))} = {}"
    by (auto dest: set_zip_rightD)
  ultimately show ?thesis
    using assms(4,6,9) by (auto simp: consumer_poll_def amqp_transport_def thrown_replicate answers_acknowledged)
qed

lemma am_stream_consumed_witness:
  "\<exists>c' t'. consumer_poll (amqp_transport (pair_library envelopePrefix)) [] ()
       (small_consumer recorder []) (receiving [''a1b'', ''2''] (consumer_deliver am_capabilities)) =
       (Inr True, c', t') \<and>
     con_user c' = [\<lparr>payload = ''a1''\<rparr>, \<lparr>payload = ''b2''\<rparr>] \<and> am_commands t' = [Basic_Ack 97, Basic_Ack 98]"
proof -
  let ?lib = "pair_library envelopePrefix" and ?f = "consumer_deliver am_capabilities"
  let ?c = "small_consumer recorder []" and ?t = "receiving [''a1b'', ''2''] (consumer_deliver am_capabilities)"
  let ?ds = "map (pair_delivery envelopePrefix) [''a1'', ''b2'']" and ?ms = "[\<lparr>payload = ''a1''\<rparr>, \<lparr>payload = ''b2''\<rparr>]"
  have "pairs () (concat [''a1b'', ''2'']) = ([''a1'', ''b2''], 4, ())" by simp
  from receiving_offers [OF this] have o: "offers ?lib ?t [''a1b'', ''2''] ?ds" by simp
  have ms: "map d_body ?ds = map envelope ?ms" "list_all encodable ?ms"
    by (simp_all add: pair_delivery_def encodable_def byteCount_def MAX_PAYLOAD_BYTES_def)
  obtain r c' t' where p: "consumer_poll (amqp_transport ?lib) [] () ?c ?t = (r, c', t')" by (rule prod_cases3)
  have "con_handlers ?c = recorder" "con_settlements ?c = None" by simp_all
  from am_stream_consumed [OF framed_pair_library o receiving_sel(3,1) this ms p] p show ?thesis
    by (simp add: pair_delivery_def)
qed

end
