(* ===== verification/Amqp_Cpp_Clients.thy ===== *)
theory Amqp_Cpp_Clients
  imports Amqp_Cpp_Stream
begin

text \<open>
  Producer and consumer on the AMQP-CPP backend, each over its own connection, from end to end. What
  the producer's channel was told and what the consumer's socket reads are related by one
  promise of the broker: it delivers what was published to the destination, in order.
\<close>

section \<open>Publishing\<close>

text \<open>A channel in use that refuses nothing, on a connection whose writes do not fail.\<close>

definition sending :: "send_options \<Rightarrow> ('p, 'h) amqp_cpp \<Rightarrow> bool" where
  "sending so t \<longleftrightarrow> am_channel t = Attached \<and> am_refusals t = [] \<and> net_writes (am_net t) = [] \<and>
     am_connection t \<noteq> None \<and> \<not> so_confirm so"

lemma channel_command_quiet:
  assumes "am_channel (am_of s) = Attached" "am_refusals (am_of s) = []" "net_writes (s_net s) = []"
  shows "\<exists>b. channel_command lib cmd s = (Inr None, s\<lparr>s_conn := (s_conn s)\<lparr>ac_bytesSent := b\<rparr>,
    s_rest := ((am_of s)\<lparr>am_commands := am_commands (am_of s) @ [cmd]\<rparr>, snd (s_rest s))\<rparr>)"
  using assms
  by (intro exI) (simp add: channel_command_def refused_def write_frame_def onData_quiet
      am_of_def am_upd_def set_conn_def no_refusals)

lemma am_send_quiet:
  assumes "sending so t" "am_address tp so t = (exchange, key)"
  shows "\<exists>t'. am_send lib tp body so t = (Inr True, t') \<and> sending so t' \<and> am_routes t' = am_routes t \<and>
    am_commands t' = am_commands t @ [Basic_Publish exchange key body (so_durable so)]"
proof -
  let ?cmd = "Basic_Publish exchange key body (so_durable so)"
  obtain c where c: "am_connection t = Some c" using assms(1) by (auto simp: sending_def)
  let ?s = "\<lparr>s_conn = c, s_net = am_net t, s_rest = (t, ())\<rparr>"
  obtain b where "channel_command lib ?cmd ?s = (Inr None, ?s\<lparr>s_conn := (s_conn ?s)\<lparr>ac_bytesSent := b\<rparr>,
      s_rest := ((am_of ?s)\<lparr>am_commands := am_commands (am_of ?s) @ [?cmd]\<rparr>, snd (s_rest ?s))\<rparr>)"
    using channel_command_quiet [of ?s lib ?cmd] assms(1) by (auto simp: sending_def am_of_def)
  then show ?thesis
    using assms c
    by (simp add: am_send_def sending_def over_connection_def with_connection_def am_of_def am_count_def)
qed

text \<open>The bodies published to an exchange under a key, in order.\<close>

definition published :: "string \<times> string \<Rightarrow> amqp_command list \<Rightarrow> string list" where
  "published a cs = concat (map (\<lambda>cmd.
     case cmd of Basic_Publish exchange key body _ \<Rightarrow> if (exchange, key) = a then [body] else [] | _ \<Rightarrow> []) cs)"

lemma published_append: "published a (cs @ ds) = published a cs @ published a ds"
  by (simp add: published_def)

lemma am_publishes_all:
  assumes "sending (prod_options p) s" "list_all encodable ms"
    and "publish_all (amqp_transport lib) serialize tp ms p s = (p', s')"
  shows "published (am_address tp (prod_options p) s) (am_commands s') =
      published (am_address tp (prod_options p) s) (am_commands s) @ map envelope ms \<and>
    prod_published p' = prod_published p + length ms"
  using assms
proof (induction ms arbitrary: p s)
  case (Cons m ms)
  let ?so = "prod_options p"
  obtain exchange key where a: "am_address tp ?so s = (exchange, key)" by fastforce
  obtain s1 where s1: "am_send lib tp (envelope m) ?so s = (Inr True, s1)" "sending ?so s1"
    "am_routes s1 = am_routes s" "am_commands s1 = am_commands s @ [Basic_Publish exchange key (envelope m) (so_durable ?so)]"
    using am_send_quiet [OF Cons.prems(1) a] by blast
  have "producer_publish (amqp_transport lib) serialize tp m p s =
      (Inr True, p\<lparr>prod_published := prod_published p + 1\<rparr>, s1)"
    using Cons.prems(2) s1(1)
    by (simp add: producer_publish_def producer_publishWith_def publish_message_def serialize_encodable amqp_transport_def)
  moreover have "am_address tp ?so s1 = am_address tp ?so s" using s1(3) by (simp add: am_address_def)
  ultimately show ?case
    using Cons.IH [of "p\<lparr>prod_published := prod_published p + 1\<rparr>" s1] Cons.prems(2,3) s1(2,4) a
    by (simp add: published_append) (simp add: published_def)
qed simp

section \<open>Consuming\<close>

text \<open>What the socket of the consumer reads in each of a number of slices, in pieces.\<close>

definition slices_of :: "net \<Rightarrow> string list list \<Rightarrow> bool" where
  "slices_of w slices \<longleftrightarrow>
     net_writes w = [] \<and> net_reads w = concat (map (\<lambda>chunks. map Got chunks @ [Timed_Out]) slices) \<and>
     list_all2 (\<lambda>chunks n. length chunks < n) slices (net_budgets w)"

lemma slices_of_Cons:
  assumes "slices_of w (chunks # slices)"
  shows "\<exists>m ns. slice_of w chunks m (Timed_Out # concat (map (\<lambda>chunks. map Got chunks @ [Timed_Out]) slices)) ns \<and>
    m \<noteq> 0 \<and> slices_of (w\<lparr>net_budgets := ns, net_reads := concat (map (\<lambda>chunks. map Got chunks @ [Timed_Out]) slices)\<rparr>) slices"
proof -
  obtain n ns where n: "net_budgets w = n # ns" "length chunks < n" "list_all2 (\<lambda>chunks n. length chunks < n) slices ns"
    using assms by (auto simp: slices_of_def list_all2_Cons1)
  then show ?thesis
    using assms by (intro exI [of _ "n - length chunks"] exI [of _ ns]) (simp add: slices_of_def slice_of_def)
qed

lemma am_polls_consume:
  assumes "framed (lib_parse lib)" "turns_into lib t (concat (concat slices)) ds" "slices_of (am_net t) slices"
    and "consuming (consumer_deliver caps) (t, c)" "am_handlerFailure t = None"
    and "con_handlers c = recorder" "con_settlements c = None"
    and "map d_body ds = map envelope ms" "list_all encodable ms"
    and "poll_all (amqp_transport lib) (replicate (length slices) ([], ())) c t = (c', t')"
  shows "con_user c' = con_user c @ ms \<and> con_acked c' = con_acked c + length ms \<and>
    am_commands t' = am_commands t @ map (Basic_Ack \<circ> d_tag) ds"
  using assms(2-10)
proof (induction slices arbitrary: t c ds ms)
  case Nil
  then show ?case using turns_into_nothing [of lib t ds] by simp
next
  case (Cons chunks slices)
  let ?f = "consumer_deliver caps"
  obtain m ns where w: "slice_of (am_net t) chunks m (Timed_Out # concat (map (\<lambda>chunks. map Got chunks @ [Timed_Out]) slices)) ns"
    "m \<noteq> 0" "slices_of ((am_net t)\<lparr>net_budgets := ns, net_reads := concat (map (\<lambda>chunks. map Got chunks @ [Timed_Out]) slices)\<rparr>) slices"
    using slices_of_Cons [OF Cons.prems(2)] by blast
  have b: "turns_into lib t (concat chunks @ concat (concat slices)) ds" using Cons.prems(1) by simp
  obtain ds1 ds2 t1 h1 t2 k where p: "ds = ds1 @ ds2" "fold (handled ?f) (map arrival ds1) (t, c) = (t1, h1)"
    "am_pump lib t c = ((case am_handlerFailure t1 of None \<Rightarrow> Inr True | Some e \<Rightarrow> Inl e), t2, h1)"
    "turns_into lib t2 (concat (concat slices)) ds2"
    "t2 = t1\<lparr>am_connection := k, am_handlerFailure := None, am_net := (am_net t)\<lparr>net_budgets := ns,
       net_reads := concat (map (\<lambda>chunks. map Got chunks @ [Timed_Out]) slices)\<rparr>\<rparr>"
    using am_pump_slice [OF assms(1) b Cons.prems(3) w(1)] w(2) by auto
  obtain ms1 ms2 where ms: "ms = ms1 @ ms2" "map d_body ds1 = map envelope ms1" "map d_body ds2 = map envelope ms2"
    using Cons.prems(7) p(1) by (auto simp: append_eq_map_conv)
  have e: "list_all encodable ms1" "list_all encodable ms2" using Cons.prems(8) ms(1) by simp_all
  let ?c = "c\<lparr>con_user := con_user c @ ms1, con_acked := con_acked c + length ms1\<rparr>"
  note a = handled_all [OF p(2) outcomes_recorder [OF Cons.prems(5) ms(2) e(1)]]
  have l: "length ds1 = length ms1" using ms(2) by (metis length_map)
  then have t1: "h1 = ?c" "am_handlerFailure t1 = None"
    "am_commands t1 = am_commands t @ map (Basic_Ack \<circ> d_tag) ds1"
    using a Cons.prems(4) by (simp_all add: thrown_replicate answers_acknowledged)
  have "list_all (\<lambda>cb. \<exists>d. cb = arrival d) (map arrival ds1)" by (auto simp: list_all_iff)
  from arriving.keep_all [OF this Cons.prems(3)] p(2) have "consuming ?f (t1, h1)" by simp
  then have "consuming ?f (t2, ?c)" using p(5) by (simp add: consuming_def)
  moreover have "poll_all (amqp_transport lib) (replicate (length slices) ([], ())) ?c t2 = (c', t')"
    using Cons.prems(6,9) p(3) t1(1,2) by (simp add: consumer_poll_def amqp_transport_def)
  ultimately show ?case
    using Cons.IH [OF p(4) _ _ _ _ _ ms(3) e(2), of ?c] Cons.prems(5,6) w(3) p(1,5) t1(3) ms(1)
    by simp
qed

section \<open>Properties\<close>

text \<open>
  C4: end to end over the AMQP-CPP backend. The messages a producer publishes to a destination reach
  the handler of a consumer on another connection decoded, each exactly once and in the order of
  publication, and each is acknowledged by its own tag, if the broker delivers what was
  published there and no more; however the bytes of the broker are cut into reads and the reads
  into polls, frames torn apart included.
\<close>

theorem am_end_to_end:
  assumes "framed (lib_parse lib)" "sending (prod_options p) s" "list_all encodable ms"
    and "consuming (consumer_deliver caps) (t, c)" "am_handlerFailure t = None"
    and "con_handlers c = recorder" "con_settlements c = None"
    and "publish_all (amqp_transport plib) serialize tp ms p s = (p', s')"
    and "turns_into lib t (concat (concat slices)) ds" "slices_of (am_net t) slices"
    and "published (am_address tp (prod_options p) s) (am_commands s') =
      published (am_address tp (prod_options p) s) (am_commands s) @ map d_body ds"
    and "poll_all (amqp_transport lib) (replicate (length slices) ([], ())) c t = (c', t')"
  shows "con_user c' = con_user c @ ms \<and> con_acked c' = con_acked c + length ms \<and>
    prod_published p' = prod_published p + length ms \<and>
    am_commands t' = am_commands t @ map (Basic_Ack \<circ> d_tag) ds"
proof -
  note p = am_publishes_all [OF assms(2,3,8)]
  then have "map d_body ds = map envelope ms" using assms(11) by simp
  from am_polls_consume [OF assms(1,9,10,4,5,6,7) this assms(3,12)] p show ?thesis by simp
qed

text \<open>Two messages, the frames torn apart over three reads and two polls.\<close>

definition torn :: "string list list" where
  "torn = [[''a'', ''1b''], [''2'']]"

definition torn_net :: net where
  "torn_net = quiet_net\<lparr>net_reads := concat (map (\<lambda>chunks. map Got chunks @ [Timed_Out]) torn), net_budgets := [3, 3]\<rparr>"

definition small_sender :: producer where
  "small_sender = \<lparr>prod_options = default_send_options, prod_published = 0\<rparr>"

lemma am_end_to_end_witness:
  "\<exists>p' s' c' t'.
     publish_all (amqp_transport (pair_library [])) serialize ''t'' [\<lparr>payload = ''a1''\<rparr>, \<lparr>payload = ''b2''\<rparr>]
       small_sender (receiving [] mixed) = (p', s') \<and>
     poll_all (amqp_transport (pair_library envelopePrefix)) (replicate 2 ([], ())) (small_consumer recorder [])
       ((receiving [] (consumer_deliver am_capabilities))\<lparr>am_net := torn_net\<rparr>) = (c', t') \<and>
     prod_published p' = 2 \<and> con_user c' = [\<lparr>payload = ''a1''\<rparr>, \<lparr>payload = ''b2''\<rparr>] \<and>
     am_commands t' = [Basic_Ack 97, Basic_Ack 98]"
proof -
  let ?plib = "pair_library []" and ?lib = "pair_library envelopePrefix"
  let ?ms = "[\<lparr>payload = ''a1''\<rparr>, \<lparr>payload = ''b2''\<rparr>]" and ?p = small_sender and ?c = "small_consumer recorder []"
  let ?s = "receiving [] mixed :: (unit, nat) amqp_cpp"
  let ?f = "consumer_deliver am_capabilities" and ?ds = "map (pair_delivery envelopePrefix) [''a1'', ''b2'']"
  let ?t = "(receiving [] (consumer_deliver am_capabilities))\<lparr>am_net := torn_net\<rparr>"
  obtain p' s' where pub: "publish_all (amqp_transport ?plib) serialize ''t'' ?ms ?p ?s = (p', s')" by fastforce
  obtain c' t' where pol: "poll_all (amqp_transport ?lib) (replicate (length torn) ([], ())) ?c ?t = (c', t')"
    by fastforce
  have send: "sending (prod_options ?p) ?s"
    by (simp add: sending_def receiving_def amqp_cpp_new_def small_sender_def default_send_options_def quiet_net_def)
  have enc: "list_all encodable ?ms" by (simp add: encodable_def byteCount_def MAX_PAYLOAD_BYTES_def)
  have cons: "consuming ?f (?t, ?c)" "am_handlerFailure ?t = None" "am_commands ?t = []"
    by (simp_all add: consuming_def receiving_def amqp_cpp_new_def)
  have turns: "turns_into ?lib ?t (concat (concat torn)) ?ds"
    by (auto simp: turns_into_def receiving_def amqp_cpp_new_def live_connection_def amqp_connection_new_def
        pair_library_def pair_delivery_def arrival_def torn_def)
  have slices: "slices_of (am_net ?t) torn" by (simp add: slices_of_def torn_net_def torn_def quiet_net_def)
  have "map d_body ?ds = map envelope ?ms" by (simp add: pair_delivery_def)
  with am_publishes_all [OF send enc pub] have relay:
    "published (am_address ''t'' (prod_options ?p) ?s) (am_commands s') =
      published (am_address ''t'' (prod_options ?p) ?s) (am_commands ?s) @ map d_body ?ds" by simp
  from am_end_to_end [OF framed_pair_library send enc cons(1,2) _ _ pub turns slices relay pol] cons(3)
  have "con_user c' = ?ms \<and> prod_published p' = 2 \<and> am_commands t' = [Basic_Ack 97, Basic_Ack 98]"
    by (simp add: small_sender_def pair_delivery_def)
  moreover have "length torn = 2" by (simp add: torn_def)
  ultimately show ?thesis using pub pol by auto
qed

end
