(* ===== verification/Amqp_Cpp_Stale.thy ===== *)
theory Amqp_Cpp_Stale
  imports Amqp_Cpp_Reconnect Amqp_Cpp_Stream
begin

text \<open>
  Deferred work and lost connections on the AMQP-CPP backend. A reconnection forgets every tag of
  the old connection, so that settling one of them is refused; but a tag is a number that the next
  channel uses again, and a settlement that arrives after the new delivery settles that one.
\<close>

section \<open>What a new connection forgets\<close>

lemma destroy_connection_silent:
  assumes "destroy_connection lib c t h = (t', h')" "am_channel t \<noteq> Attached"
  shows "h' = h \<and> am_channel t' = am_channel t \<and> am_stats t' = am_stats t \<and>
    am_outstandingDeferred t' = am_outstandingDeferred t \<and> am_commands t' = am_commands t"
proof (cases c)
  case (Some c)
  let ?s = "\<lparr>s_conn = c, s_net = am_net t, s_rest = (t, h)\<rparr>"
  obtain x s where s: "close (cpp_lib lib) (run_callback lib) ?s = (x, s)" by fastforce
  have "silent ?s s" by (rule silent.rel_close [OF s])
  moreover have "t' = (am_of s)\<lparr>am_net := s_net s,
      am_channel := (if am_channel (am_of s) = Attached then Detached else am_channel (am_of s))\<rparr>"
    "h' = snd (s_rest s)"
    using assms(1) by (simp_all add: destroy_connection_def Let_def destroy_def s Some)
  moreover have "am_of ?s = t" by (simp add: am_of_def)
  ultimately show ?thesis using assms(2) by (simp add: silent_def)
qed (use assms in \<open>simp add: destroy_connection_def\<close>)

lemma openConnection_silent:
  assumes "openConnection lib t h = (r, t', h')" "am_channel t = No_Channel"
  shows "h' = h \<and> am_stats t' = am_stats t \<and> am_outstandingDeferred t' = am_outstandingDeferred t"
proof -
  let ?ep = "am_endpoint t"
  let ?c = "amqp_connection_new (ep_host ?ep) (amqp_port ?ep) (ep_user ?ep) (ep_password ?ep) (ep_realm ?ep)"
  obtain t1 h1 where 1: "destroy_connection lib (am_connection t) (t\<lparr>am_connection := Some ?c\<rparr>) h = (t1, h1)"
    by fastforce
  have t1: "h1 = h" "am_channel t1 = No_Channel" "am_stats t1 = am_stats t"
    "am_outstandingDeferred t1 = am_outstandingDeferred t"
    using destroy_connection_silent [OF 1] assms(2) by simp_all
  let ?s = "\<lparr>s_conn = ?c, s_net = am_net t1, s_rest = (t1, h1)\<rparr>"
  obtain x s where 2: "connect (cpp_lib lib) (run_callback lib) ?s = (x, s)" by fastforce
  obtain y u where 3: "write_frame lib Channel_Open s = (y, u)" by fastforce
  have "silent ?s s" by (rule silent.rel_connect [OF 2])
  then have s: "snd (s_rest s) = h" "am_stats (am_of s) = am_stats t"
    "am_outstandingDeferred (am_of s) = am_outstandingDeferred t"
    using t1 by (simp_all add: silent_def am_of_def)
  obtain z v where v: "onData (lib_frame lib Channel_Open) s = (z, v)" by fastforce
  have "snd (s_rest u) = snd (s_rest s)" "am_stats (am_of u) = am_stats (am_of s)"
    "am_outstandingDeferred (am_of u) = am_outstandingDeferred (am_of s)"
    using 3 v onData_am_of [OF v] by (cases z; auto simp: write_frame_def)+
  with s assms(1) 1 2 3 t1 show ?thesis
    by (cases x; cases y) (auto simp: openConnection_def Let_def with_connection_def am_of_def am_upd_def)
qed

lemma reopen_forgets:
  assumes "reopen lib t h = (r, t', h')"
  shows "h' = h \<and> am_stats t' = am_stats t \<and> am_outstandingDeferred t' = {}"
proof -
  obtain t1 h1 where 1: "reset_channel lib t h = (t1, h1)" by fastforce
  obtain t2 h2 where 2: "destroy_connection lib (am_connection t1) (t1\<lparr>am_connection := None\<rparr>) h1 = (t2, h2)"
    by fastforce
  have 3: "openConnection lib (t2\<lparr>am_outstandingDeferred := {}\<rparr>) h2 = (r, t', h')"
    using assms 1 2 by (simp add: reopen_def)
  note t1 = reset_channel_effect [OF 1]
  then have t2: "h2 = h" "am_channel t2 = No_Channel" "am_stats t2 = am_stats t"
    using destroy_connection_silent [OF 2] by simp_all
  then have "am_channel (t2\<lparr>am_outstandingDeferred := {}\<rparr>) = No_Channel" by simp
  from openConnection_silent [OF 3 this] t2 show ?thesis by simp
qed

section \<open>A settlement that is accepted\<close>

lemma am_settle_sends:
  assumes "usable t" "net_writes (am_net t) = []" "tag \<in> am_outstandingDeferred t" "d \<noteq> Deferred"
  shows "\<exists>t'. am_settle lib tag d t = (Inr (), t') \<and>
    am_commands t' = am_commands t @ disposition_command tag d \<and>
    performed (am_stats t') = tally (Inr d) (performed (am_stats t)) \<and>
    am_outstandingDeferred t' = am_outstandingDeferred t - {tag} \<and> am_channel t' = Attached"
proof -
  let ?t = "t\<lparr>am_outstandingDeferred := am_outstandingDeferred t - {tag}\<rparr>"
  obtain c where c: "am_connection t = Some c" using assms(1) by (auto simp: usable_def)
  let ?s = "\<lparr>s_conn = c, s_net = am_net t, s_rest = (?t, ())\<rparr>"
  let ?cmd = "hd (disposition_command tag d)"
  have cmd: "[?cmd] = disposition_command tag d" using assms(4) by (cases d) simp_all
  obtain x s where s: "channel_command lib ?cmd ?s = (x, s)" by fastforce
  have "am_channel (am_of ?s) = Attached" using assms(1) by (simp add: usable_def am_of_def)
  from channel_command_cases [OF s this] have x: "x = Inr None" "am_commands (am_of s) = am_commands t @ [?cmd]"
    "am_stats (am_of s) = am_stats t"
    using assms(1,2) by (simp_all add: usable_def am_of_def)
  obtain rs cs where "am_of s = ?t\<lparr>am_refusals := rs, am_commands := cs\<rparr>"
    using channel_command_frame [OF s] by (auto simp: am_of_def)
  then have f: "am_outstandingDeferred (am_of s) = am_outstandingDeferred t - {tag}" "am_channel (am_of s) = Attached"
    using assms(1) by (simp_all add: usable_def)
  have "settle_command lib tag d ?s = (Inr (), am_upd (am_count (counted d)) s)"
    using assms(4) s x(1) by (simp add: settle_command_acknowledge acknowledge_def)
  then have "am_settle lib tag d t = (Inr (), (am_count (counted d) (am_of s))
      \<lparr>am_connection := Some (s_conn s), am_net := s_net s\<rparr>)"
    using assms c by (simp add: am_settle_def usable_def over_connection_def with_connection_def am_of_def am_upd_def)
  with x(2,3) f show ?thesis by (simp add: cmd am_count_def performed_counted)
qed

section \<open>Properties\<close>

text \<open>
  C24: a reconnection forgets the tags of the old connection. Whatever was deferred and whatever the
  library and the network do, opening the new connection, successfully or not, calls no handler and
  leaves no tag outstanding, so that settling any tag afterwards throws, sends nothing and counts
  nothing.
\<close>

theorem am_reopen_forgets_tags:
  "case reopen lib t h of (r, t', h') \<Rightarrow>
     h' = h \<and> am_outstandingDeferred t' = {} \<and> performed (am_stats t') = performed (am_stats t) \<and>
     snd (am_settle lib tag d t') = t' \<and> fst (am_settle lib tag d t') \<noteq> Inr ()"
proof -
  obtain r t' h' where r: "reopen lib t h = (r, t', h')" by (metis prod_cases3)
  from reopen_forgets [OF r] r show ?thesis by (simp add: am_settle_def)
qed

text \<open>A handler that hands every delivery to a worker, and a worker's view of it: the bodies at work.\<close>

definition hand_over :: "string list delivery_handler" where
  "hand_over d h = (Inr Deferred, h @ [d_body d])"

text \<open>
  C25: a settlement does not say which delivery it means. A delivery was deferred under some tag, the
  connection is lost, and a pump restores it, which succeeds. The new channel counts its deliveries
  from one again; some pump over it receives a stream in which a delivery \<open>d\<close> has that tag, and the
  handler defers it. When the worker of the delivery before the loss now settles its own tag,
  whatever it decided, the settlement is accepted: it goes to the broker as the disposition of \<open>d\<close>, is
  counted as performed, and \<open>d\<close> is forgotten while its own worker is still busy, whose settlement is
  then the one that is refused.
\<close>

theorem am_stale_settlement:
  assumes "tag \<in> am_outstandingDeferred t" "am_connection t = Some c" "ac_closed c" "rp_enabled (am_policy t)"
    and "am_failedAttempts t < rp_maxAttempts (am_policy t)" "am_refusals t = []" "am_handler t = Some f"
    and "am_nextAttempt t \<le> fst (read_clock t)" "am_pump lib t h = (Inr True, t1, h1)"
    and "reconnects (am_stats t1) = reconnects (am_stats t) + 1"
    and "framed (lib_parse lib)" "offers lib t1 chunks ds" "am_handlerFailure t1 = None"
    and "outcomes f ds h1 = (os, h2)" "(d, Inr Deferred) \<in> set (zip ds os)" "d_tag d = tag"
    and "dis \<noteq> Deferred" "dis' \<noteq> Deferred"
  shows "\<exists>r t2 t3. am_pump lib t1 h1 = (r, t2, h2) \<and> tag \<in> am_outstandingDeferred t2 \<and>
    am_settle lib tag dis t2 = (Inr (), t3) \<and>
    am_commands t3 = am_commands t2 @ disposition_command (d_tag d) dis \<and>
    performed (am_stats t3) = tally (Inr dis) (performed (am_stats t2)) \<and>
    am_outstandingDeferred t3 = am_outstandingDeferred t2 - {d_tag d} \<and>
    am_settle lib (d_tag d) dis' t3 = (Inl (am_unknown_tag (d_tag d)), t3)"
proof -
  have "am_handler t1 = Some f" "usable t1"
    using reconnecting_pump [OF assms(2-6,8,9)] assms(7,10) by auto
  then have con: "consuming f (t1, h1)" by (simp add: usable_def consuming_def)
  obtain u h3 where u: "fold (handled f) (map arrival ds) (t1, h1) = (u, h3)" by fastforce
  obtain m rs ns where o: "turns_into lib t1 (concat chunks @ []) ds" "slice_of (am_net t1) chunks m rs ns"
    using assms(12) by (auto simp: offers_def)
  from am_pump_slice [OF assms(11) o(1) con o(2)] obtain ds1 ds2 u1 h4 t2 k where
    p: "ds = ds1 @ ds2" "fold (handled f) (map arrival ds1) (t1, h1) = (u1, h4)"
      "am_pump lib t1 h1 = ((case am_handlerFailure u1 of None \<Rightarrow> Inr True | Some e \<Rightarrow> Inl e), t2, h4)"
      "turns_into lib t2 [] ds2" and
    t2: "t2 = u1\<lparr>am_connection := k, am_handlerFailure := None,
      am_net := (am_net t1)\<lparr>net_budgets := ns, net_reads := if m = 0 then rs else tl rs\<rparr>\<rparr>"
    by blast
  have "ds2 = []" using turns_into_nothing [OF p(4)] .
  then have same: "u1 = u" "h4 = h3" using p(1,2) u by simp_all
  have "consuming f (fold (handled f) cbs (t1, h1))" for cbs
    using con by (induction cbs arbitrary: t1 h1 rule: rev_induct) (auto intro: consuming_handled)
  from this [of "map arrival ds"] have "consuming f (u, h3)" by (simp add: u)
  moreover have "am_connection t2 \<noteq> None" using p(4) by (auto simp: turns_into_def)
  ultimately have usable: "usable t2" by (simp add: usable_def consuming_def t2 same)
  have writes: "net_writes (am_net t2) = []" using o(2) by (simp add: t2 slice_of_def)
  note all = handled_all [OF u assms(14)]
  then have tag: "tag \<in> am_outstandingDeferred t2" "h3 = h2" using assms(15,16) by (auto simp: t2 same)
  from am_settle_sends [OF usable writes tag(1) assms(17)] obtain t3 where
    t3: "am_settle lib tag dis t2 = (Inr (), t3)" "am_commands t3 = am_commands t2 @ disposition_command tag dis"
    "performed (am_stats t3) = tally (Inr dis) (performed (am_stats t2))"
    "am_outstandingDeferred t3 = am_outstandingDeferred t2 - {tag}" "am_channel t3 = Attached" by blast
  then have "am_settle lib tag dis' t3 = (Inl (am_unknown_tag tag), t3)"
    using assms(18) by (simp add: am_settle_def)
  with p(3) tag t3 assms(16) same show ?thesis by blast
qed

text \<open>
  A library with frames of one byte, and a transport that lost its connection while the first
  delivery was at work; the broker completes the handshake, confirms the consumer, and delivers
  another message, the first one of the new channel.
\<close>

fun byte_event :: "char \<Rightarrow> amqp_callback" where
  "byte_event c =
     (if c = CHR ''r'' then On_Ready else if c = CHR ''s'' then On_Success 1 0
      else On_Received [c] 1 False)"

definition byte_library :: "unit cpp_library" where
  "byte_library =
     \<lparr>lib_is_literal = (\<lambda>_. True), lib_new = (\<lambda>_ _ _. ()), lib_header = ''AMQP'', lib_close = ''bye'',
      lib_parse = (\<lambda>p xs. (map byte_event xs, length xs, ())), lib_frame = (\<lambda>_. ''frame''),
      lib_detached = ''channel is gone''\<rparr>"

definition lost_at_work :: "(unit, string list) amqp_cpp" where
  "lost_at_work =
     (amqp_cpp_new (quiet_net\<lparr>net_reads := [Got ''r'', Got ''s'', Got ''b''], net_budgets := [1, 1, 1]\<rparr>) [] [])
       \<lparr>am_connection := Some ((live_connection ())\<lparr>ac_closed := True\<rparr>), am_channel := Attached,
        am_handler := Some hand_over, am_subscribed := True, am_topic := ''t'',
        am_policy := default_reconnect_policy\<lparr>rp_enabled := True\<rparr>, am_outstandingDeferred := {1}\<rparr>"

lemma am_stale_settlement_witness:
  "case am_pump byte_library lost_at_work [''a''] of (r1, t1, h1) \<Rightarrow>
     \<exists>r2 t2 t3. am_pump byte_library t1 h1 = (r2, t2, [''a'', ''b'']) \<and> 1 \<in> am_outstandingDeferred t2 \<and>
       am_settle byte_library 1 Ack t2 = (Inr (), t3) \<and> am_commands t3 = am_commands t2 @ [Basic_Ack 1] \<and>
       am_settle byte_library 1 Reject t3 = (Inl (am_unknown_tag 1), t3)"
proof -
  let ?d = "\<lparr>d_body = ''b'', d_redelivered = False, d_tag = 1\<rparr>"
  obtain r1 t1 h1 where 1: "am_pump byte_library lost_at_work [''a''] = (r1, t1, h1)" by (metis prod_cases3)
  have "case am_pump byte_library lost_at_work [''a''] of (r1, t1, h1) \<Rightarrow>
      r1 = Inr True \<and> h1 = [''a''] \<and> reconnects (am_stats t1) = 1 \<and> am_handlerFailure t1 = None \<and>
      net_reads (am_net t1) = [Got ''b''] \<and> net_writes (am_net t1) = [] \<and> net_budgets (am_net t1) = [1] \<and>
      (case am_connection t1 of None \<Rightarrow> False
       | Some c \<Rightarrow> \<not> ac_closed c \<and> ac_connection c = Some () \<and> ac_inBuffer c = [])" by code_simp
  with 1 have t1: "r1 = Inr True" "h1 = [''a'']" "reconnects (am_stats t1) = 1" "am_handlerFailure t1 = None"
    "net_reads (am_net t1) = [Got ''b'']" "net_writes (am_net t1) = []" "net_budgets (am_net t1) = [1]"
    and "case am_connection t1 of None \<Rightarrow> False
       | Some c \<Rightarrow> \<not> ac_closed c \<and> ac_connection c = Some () \<and> ac_inBuffer c = []" by simp_all
  then have "turns_into byte_library t1 (concat [''b'']) [?d]"
    by (auto simp: turns_into_def byte_library_def arrival_def split: option.splits)
  moreover have "slice_of (am_net t1) [''b''] 0 [] []" using t1 by (simp add: slice_of_def)
  ultimately have offers: "offers byte_library t1 [''b''] [?d]" unfolding offers_def by blast
  have outcome: "outcomes hand_over [?d] h1 = ([Inr Deferred], [''a'', ''b''])" by (simp add: hand_over_def t1)
  have framed: "framed (lib_parse byte_library)" by (simp add: framed_def byte_library_def)
  have lost: "1 \<in> am_outstandingDeferred lost_at_work"
    "am_connection lost_at_work = Some ((live_connection ())\<lparr>ac_closed := True\<rparr>)"
    "ac_closed ((live_connection ())\<lparr>ac_closed := True\<rparr>)" "rp_enabled (am_policy lost_at_work)"
    "am_refusals lost_at_work = []" "am_handler lost_at_work = Some hand_over"
    by (simp_all add: lost_at_work_def amqp_cpp_new_def)
  have clock: "am_failedAttempts lost_at_work < rp_maxAttempts (am_policy lost_at_work)"
    "am_nextAttempt lost_at_work \<le> fst (read_clock lost_at_work)"
    "reconnects (am_stats lost_at_work) = 0" by code_simp+
  from am_stale_settlement [OF lost(1-4) clock(1) lost(5,6) clock(2) 1 [unfolded t1(1)] _ framed offers t1(4) outcome,
      of ?d Ack Reject] t1(3) clock(3)
  show ?thesis by (auto simp: 1)
qed

end
