(* ===== verification/Simple_Amqp.thy ===== *)
theory Simple_Amqp
  imports Amqp_Common Transport
begin

text \<open>
  The SimpleAmqpClient backend: class \<open>SimpleAmqpTransport\<close> of
  \<open>src/transport/SimpleAmqpTransport.cpp\<close>. The client library and the sockets are parameters: every
  call is a function on the state \<open>'w\<close> of the world (the library's channel, the broker, the
  network), which answers or throws. Calls are synchronous, so that the handler only runs in
  \<open>pump\<close>.
\<close>

section \<open>What is outside\<close>

text \<open>
  The flags of a queue declaration, of an exchange declaration and of a \<open>BasicConsume\<close>: the code
  gives every one, since the library's defaults differ from what it needs.
\<close>

record queue_declaration =
  qd_passive :: bool
  qd_durable :: bool
  qd_exclusive :: bool
  qd_auto_delete :: bool
  qd_arguments :: queue_arguments

datatype exchange_kind = EXCHANGE_TYPE_DIRECT | EXCHANGE_TYPE_FANOUT | EXCHANGE_TYPE_TOPIC

record exchange_declaration =
  xd_type :: exchange_kind
  xd_passive :: bool
  xd_durable :: bool
  xd_auto_delete :: bool

record consume_request =
  cr_tag :: string
  cr_no_local :: bool
  cr_no_ack :: bool
  cr_exclusive :: bool
  cr_prefetch :: nat

datatype simple_command =
    Sc_Declare_Exchange string exchange_declaration
  | Sc_Declare_Queue topic queue_declaration
  | Sc_Bind_Queue topic string string
  | Sc_Purge_Queue topic
  | Sc_Publish string string string bool
  | Sc_Ack nat
  | Sc_Reject nat bool
  | Sc_Cancel string

text \<open>How the bounded TCP connect ends: not in time, with an error text and value, or connected.\<close>

datatype probe_outcome = Probe_Timed_Out | Probe_Error string nat | Probe_Connected

text \<open>
  Resolving gives an error text or an endpoint; a receive gives nothing within the time bound or
  a delivery; the clock is read in milliseconds.
\<close>

record 'w simple_client =
  sc_literal :: "string \<Rightarrow> bool"
  sc_resolve :: "string \<Rightarrow> u16 \<Rightarrow> 'w \<Rightarrow> string option \<times> 'w"
  sc_probe :: "string \<Rightarrow> u16 \<Rightarrow> nat \<Rightarrow> 'w \<Rightarrow> probe_outcome \<times> 'w"
  sc_create :: "string \<Rightarrow> u16 \<Rightarrow> string \<Rightarrow> string \<Rightarrow> string \<Rightarrow> 'w \<Rightarrow> unit result \<times> 'w"
  sc_drop :: "'w \<Rightarrow> 'w"
  sc_command :: "simple_command \<Rightarrow> 'w \<Rightarrow> unit result \<times> 'w"
  sc_counts :: "topic \<Rightarrow> queue_declaration \<Rightarrow> 'w \<Rightarrow> u32 result \<times> 'w"
  sc_consume :: "topic \<Rightarrow> consume_request \<Rightarrow> 'w \<Rightarrow> string result \<times> 'w"
  sc_receive :: "string \<Rightarrow> i32 \<Rightarrow> 'w \<Rightarrow> delivery option result \<times> 'w"
  sc_now :: "'w \<Rightarrow> int \<times> 'w"

section \<open>State\<close>

record ('w, 'h) simple_amqp =
  sa_channel :: bool
  sa_consumerTag :: string
  sa_endpoint :: endpoint
  sa_policy :: reconnect_policy
  sa_topic :: topic
  sa_topicOptions :: topic_options
  sa_topicDeclared :: bool
  sa_subscribed :: bool
  sa_connected :: bool
  sa_failedAttempts :: u32
  sa_nextAttempt :: int
  sa_handler :: "'h delivery_handler option"
  sa_stats :: stats
  sa_world :: 'w

definition simple_amqp_new :: "'w \<Rightarrow> ('w, 'h) simple_amqp" where
  "simple_amqp_new w =
     \<lparr>sa_channel = False, sa_consumerTag = [], sa_endpoint = default_endpoint,
      sa_policy = default_reconnect_policy, sa_topic = [], sa_topicOptions = default_topic_options,
      sa_topicDeclared = False, sa_subscribed = False, sa_connected = False, sa_failedAttempts = 0,
      sa_nextAttempt = 0, sa_handler = None, sa_stats = no_stats, sa_world = w\<rparr>"

definition sa_count :: "(stats \<Rightarrow> stats) \<Rightarrow> ('w, 'h) simple_amqp \<Rightarrow> ('w, 'h) simple_amqp" where
  "sa_count f t = t\<lparr>sa_stats := f (sa_stats t)\<rparr>"

text \<open>A call on the world, and one operation after another.\<close>

definition sa_call ::
  "('w \<Rightarrow> 'r \<times> 'w) \<Rightarrow> ('w, 'h) simple_amqp \<Rightarrow> 'r \<times> ('w, 'h) simple_amqp" where
  "sa_call f t = (case f (sa_world t) of (r, w) \<Rightarrow> (r, t\<lparr>sa_world := w\<rparr>))"

definition sa_then ::
  "'a result \<times> ('w, 'h) simple_amqp \<Rightarrow> ('a \<Rightarrow> ('w, 'h) simple_amqp \<Rightarrow> 'b result \<times> ('w, 'h) simple_amqp)
     \<Rightarrow> 'b result \<times> ('w, 'h) simple_amqp" where
  "sa_then x k = (case x of (Inl e, t) \<Rightarrow> (Inl e, t) | (Inr a, t) \<Rightarrow> k a t)"

section \<open>Connecting\<close>

definition kDefaultPort :: u16 where
  "kDefaultPort = 5672"

definition sa_unresolved :: "string \<Rightarrow> string \<Rightarrow> exn" where
  "sa_unresolved host reason = Runtime_Error
     (''cannot resolve '' @ quoted host @ '': '' @ reason @
      '' (pass an IP literal such as 127.0.0.1 instead -- restrictive DNS policy can'' @
      '' break even localhost lookups)'')"

definition sa_timed_out :: "nat \<Rightarrow> string \<Rightarrow> u16 \<Rightarrow> exn" where
  "sa_timed_out ms host port = Runtime_Error
     (''timed out after '' @ to_string ms @ ''ms connecting to '' @ host @ '':'' @ to_string (unat port))"

definition sa_unreachable :: "string \<Rightarrow> u16 \<Rightarrow> string \<Rightarrow> nat \<Rightarrow> exn" where
  "sa_unreachable host port reason v = Runtime_Error
     (''cannot reach broker at '' @ host @ '':'' @ to_string (unat port) @ '' -- '' @ reason @
      '' (value='' @ to_string v @ ''; is rabbitmq-server.bat running?)'')"

definition probeReachable :: "'w simple_client \<Rightarrow> string \<Rightarrow> u16 \<Rightarrow> nat \<Rightarrow> 'w \<Rightarrow> unit result \<times> 'w" where
  "probeReachable lib host port timeout w =
     (case (if sc_literal lib host then (None, w) else sc_resolve lib host port w) of
        (Some reason, w1) \<Rightarrow> (Inl (sa_unresolved host reason), w1)
      | (None, w1) \<Rightarrow>
          (case sc_probe lib host port timeout w1 of
             (Probe_Timed_Out, w2) \<Rightarrow> (Inl (sa_timed_out timeout host port), w2)
           | (Probe_Error reason v, w2) \<Rightarrow> (Inl (sa_unreachable host port reason v), w2)
           | (Probe_Connected, w2) \<Rightarrow> (Inr (), w2)))"

text \<open>\<open>_channel.reset()\<close>, also for the channel that an assignment replaces.\<close>

definition sa_reset :: "'w simple_client \<Rightarrow> ('w, 'h) simple_amqp \<Rightarrow> ('w, 'h) simple_amqp" where
  "sa_reset lib t =
     (if sa_channel t then t\<lparr>sa_channel := False, sa_world := sc_drop lib (sa_world t)\<rparr> else t)"

definition openChannel ::
  "'w simple_client \<Rightarrow> nat \<Rightarrow> ('w, 'h) simple_amqp \<Rightarrow> unit result \<times> ('w, 'h) simple_amqp" where
  "openChannel lib timeout t =
     (let ep = sa_endpoint t; port = (if ep_port ep \<noteq> 0 then ep_port ep else kDefaultPort) in
      sa_then (sa_call (probeReachable lib (ep_host ep) port timeout) t) (\<lambda>_ t1.
      sa_then (sa_call (sc_create lib (ep_host ep) port (ep_user ep) (ep_password ep) (ep_realm ep)) t1) (\<lambda>_ t2.
      (Inr (), (sa_reset lib t2)\<lparr>sa_channel := True, sa_connected := True\<rparr>))))"

definition sa_connect ::
  "'w simple_client \<Rightarrow> endpoint \<Rightarrow> nat \<Rightarrow> ('w, 'h) simple_amqp \<Rightarrow> unit result \<times> ('w, 'h) simple_amqp" where
  "sa_connect lib ep timeout t = openChannel lib timeout (t\<lparr>sa_endpoint := ep\<rparr>)"

text \<open>\<open>BasicCancel\<close> is fenced for standard exceptions only.\<close>

definition sa_close ::
  "'w simple_client \<Rightarrow> ('w, 'h) simple_amqp \<Rightarrow> unit result \<times> ('w, 'h) simple_amqp" where
  "sa_close lib t =
     (case (if sa_channel t \<and> sa_subscribed t \<and> sa_consumerTag t \<noteq> []
            then (case sa_call (sc_command lib (Sc_Cancel (sa_consumerTag t))) t of
                    (Inl e, t1) \<Rightarrow> (if is_std_exception e then Inr () else Inl e, t1)
                  | (Inr _, t1) \<Rightarrow> (Inr (), t1))
            else (Inr (), t)) of
        (Inl e, t1) \<Rightarrow> (Inl e, t1)
      | (Inr _, t1) \<Rightarrow>
          (Inr (), (sa_reset lib t1)\<lparr>sa_connected := False, sa_subscribed := False, sa_consumerTag := [],
                                    sa_handler := None\<rparr>))"

definition sa_ready :: "('w, 'h) simple_amqp \<Rightarrow> bool" where
  "sa_ready t \<longleftrightarrow> sa_connected t \<and> sa_channel t"

definition sa_capabilities :: capabilities where
  "sa_capabilities =
     default_capabilities
       \<lparr>cap_name := ''simpleamqp'', durableDelivery := True, publisherConfirms := False,
        manualAcknowledgement := True, redeliveryFlag := True, deadLetterCap := True,
        routingGroups := False, fifoPerTopic := True, competingConsumers := True,
        topicDepthCap := True, purgeCap := True, requeueCap := True, reconnectCap := True,
        deferredAcknowledgement := False, boundedQueue := True\<rparr>"

section \<open>Destinations\<close>

definition sa_before_connect :: "string \<Rightarrow> exn" where
  "sa_before_connect operation = Logic_Error (operation @ ''() called before connect()'')"

definition sa_declaration :: "topic \<Rightarrow> topic_options \<Rightarrow> queue_declaration" where
  "sa_declaration tp options =
     \<lparr>qd_passive = False, qd_durable = durable options, qd_exclusive = \<not> shared options,
      qd_auto_delete = deleteWhenUnused options, qd_arguments = queueArguments tp options\<rparr>"

definition sa_exchange :: exchange_declaration where
  "sa_exchange =
     \<lparr>xd_type = EXCHANGE_TYPE_DIRECT, xd_passive = False, xd_durable = True, xd_auto_delete = False\<rparr>"

text \<open>The commands of a declaration, in order; the first that throws ends it.\<close>

definition sa_declaring :: "topic \<Rightarrow> topic_options \<Rightarrow> simple_command list" where
  "sa_declaring tp options =
     (if deadLetter options
      then [Sc_Declare_Exchange kDeadLetterExchange sa_exchange,
            Sc_Declare_Queue (deadLetterTopic tp)
              (sa_declaration (deadLetterTopic tp) (forensicTopicOptions tp)),
            Sc_Bind_Queue (deadLetterTopic tp) kDeadLetterExchange tp]
      else []) @
     [Sc_Declare_Queue tp (sa_declaration tp options)]"

fun sa_commands ::
  "'w simple_client \<Rightarrow> simple_command list \<Rightarrow> ('w, 'h) simple_amqp \<Rightarrow> unit result \<times> ('w, 'h) simple_amqp" where
  "sa_commands lib [] t = (Inr (), t)"
| "sa_commands lib (c # cs) t = sa_then (sa_call (sc_command lib c) t) (\<lambda>_. sa_commands lib cs)"

definition sa_ensureTopic ::
  "'w simple_client \<Rightarrow> topic \<Rightarrow> topic_options \<Rightarrow> ('w, 'h) simple_amqp \<Rightarrow> unit result \<times> ('w, 'h) simple_amqp" where
  "sa_ensureTopic lib tp options t =
     (if \<not> sa_channel t then (Inl (sa_before_connect ''ensureTopic''), t)
      else sa_then (sa_commands lib (sa_declaring tp options) t) (\<lambda>_ t1.
        (Inr (), t1\<lparr>sa_topic := tp, sa_topicOptions := options, sa_topicDeclared := True\<rparr>)))"

text \<open>The options a depth reading declares a topic with.\<close>

definition sa_depth_options :: "topic \<Rightarrow> ('w, 'h) simple_amqp \<Rightarrow> topic_options" where
  "sa_depth_options tp t =
     (if take (length kDeadLetterPrefix) tp = kDeadLetterPrefix
      then forensicTopicOptions (drop (length kDeadLetterPrefix) tp)
      else if sa_topicDeclared t \<and> tp = sa_topic t then sa_topicOptions t
      else default_topic_options)"

definition sa_topicDepth ::
  "'w simple_client \<Rightarrow> topic \<Rightarrow> ('w, 'h) simple_amqp \<Rightarrow> u32 result \<times> ('w, 'h) simple_amqp" where
  "sa_topicDepth lib tp t =
     (if \<not> sa_channel t then (Inl (sa_before_connect ''topicDepth''), t)
      else sa_call (sc_counts lib tp (sa_declaration tp (sa_depth_options tp t))) t)"

definition sa_purgeTopic ::
  "'w simple_client \<Rightarrow> topic \<Rightarrow> ('w, 'h) simple_amqp \<Rightarrow> u32 result \<times> ('w, 'h) simple_amqp" where
  "sa_purgeTopic lib tp t =
     (if \<not> sa_channel t then (Inl (sa_before_connect ''purgeTopic''), t)
      else sa_then (sa_topicDepth lib tp t) (\<lambda>before t1.
        sa_then (sa_call (sc_command lib (Sc_Purge_Queue tp)) t1) (\<lambda>_ t2. (Inr before, t2))))"

section \<open>Sending and subscribing\<close>

definition sa_no_confirms :: exn where
  "sa_no_confirms = Logic_Error
     (''backend '' @ quoted ''simpleamqp'' @ '' does not support publisher confirms '' @
      ''(Capabilities::publisherConfirms is false); SimpleAmqpClient'' @ [CHR 0x27] @
      ''s Channel exposes no confirm API at all. Check the capability before requesting it.'')"

definition sa_send ::
  "'w simple_client \<Rightarrow> topic \<Rightarrow> string \<Rightarrow> send_options \<Rightarrow> ('w, 'h) simple_amqp
     \<Rightarrow> bool result \<times> ('w, 'h) simple_amqp" where
  "sa_send lib tp body options t =
     (if \<not> sa_channel t then (Inl (sa_before_connect ''send''), t)
      else if so_confirm options then (Inl sa_no_confirms, t)
      else sa_then (sa_call (sc_command lib (Sc_Publish [] tp body (so_durable options))) t) (\<lambda>_ t1.
        (Inr True, sa_count (\<lambda>s. s\<lparr>sent := sent s + 1, bytesSent := bytesSent s + length body\<rparr>) t1)))"

definition sa_consume_request :: consume_request where
  "sa_consume_request =
     \<lparr>cr_tag = [], cr_no_local = False, cr_no_ack = False, cr_exclusive = False, cr_prefetch = 1\<rparr>"

definition startConsuming ::
  "'w simple_client \<Rightarrow> ('w, 'h) simple_amqp \<Rightarrow> unit result \<times> ('w, 'h) simple_amqp" where
  "startConsuming lib t =
     sa_then (sa_call (sc_consume lib (sa_topic t) sa_consume_request) t) (\<lambda>tag t1. (Inr (), t1\<lparr>sa_consumerTag := tag\<rparr>))"

definition sa_subscribed_twice :: "topic \<Rightarrow> exn" where
  "sa_subscribed_twice tp = Logic_Error
     (''subscribe() called twice on one transport; use one transport per '' @
      ''topic instead of overwriting the active subscription to '' @ quoted tp)"

definition sa_subscribe ::
  "'w simple_client \<Rightarrow> topic \<Rightarrow> 'h delivery_handler option \<Rightarrow> ('w, 'h) simple_amqp
     \<Rightarrow> unit result \<times> ('w, 'h) simple_amqp" where
  "sa_subscribe lib tp handler t =
     (if \<not> sa_channel t then (Inl (sa_before_connect ''subscribe''), t)
      else if handler = None
      then (Inl (Invalid_Argument ''subscribe() requires a callable handler''), t)
      else if sa_subscribed t then (Inl (sa_subscribed_twice (sa_topic t)), t)
      else sa_then (startConsuming lib (t\<lparr>sa_handler := handler, sa_topic := tp\<rparr>)) (\<lambda>_ t1.
        (Inr (), t1\<lparr>sa_subscribed := True\<rparr>)))"

definition sa_settle :: "nat \<Rightarrow> disposition \<Rightarrow> ('w, 'h) simple_amqp \<Rightarrow> unit result \<times> ('w, 'h) simple_amqp" where
  "sa_settle tag d t = (Inl (Logic_Error
     (''backend '' @ quoted ''simpleamqp'' @ '' does not support deferred acknowledgement '' @
      ''(Capabilities::deferredAcknowledgement is false); check the capability before '' @
      ''returning Disposition::Deferred against it'')), t)"

section \<open>Reconnecting and pumping\<close>

definition sa_setReconnectPolicy :: "reconnect_policy \<Rightarrow> ('w, 'h) simple_amqp \<Rightarrow> ('w, 'h) simple_amqp" where
  "sa_setReconnectPolicy policy t =
     t\<lparr>sa_policy := policy, sa_failedAttempts := 0, sa_nextAttempt := 0\<rparr>"

definition sa_restore ::
  "'w simple_client \<Rightarrow> ('w, 'h) simple_amqp \<Rightarrow> unit result \<times> ('w, 'h) simple_amqp" where
  "sa_restore lib t =
     sa_then (openChannel lib 5000 (sa_reset lib t)) (\<lambda>_ t1.
     sa_then (if sa_topicDeclared t1 then sa_ensureTopic lib (sa_topic t1) (sa_topicOptions t1) t1
              else (Inr (), t1)) (\<lambda>_ t2.
     if sa_subscribed t2 then startConsuming lib t2 else (Inr (), t2)))"

definition sa_serviceReconnect ::
  "'w simple_client \<Rightarrow> ('w, 'h) simple_amqp \<Rightarrow> bool result \<times> ('w, 'h) simple_amqp" where
  "sa_serviceReconnect lib t =
     (if \<not> rp_enabled (sa_policy t) then (Inr False, t)
      else if sa_failedAttempts t \<ge> rp_maxAttempts (sa_policy t) then (Inr False, t)
      else
        (case sa_call (sc_now lib) t of
           (now, t0) \<Rightarrow>
             if now < sa_nextAttempt t0 then (Inr True, t0)
             else
               (case sa_restore lib (t0\<lparr>sa_failedAttempts := sa_failedAttempts t0 + 1\<rparr>) of
                  (Inr _, t1) \<Rightarrow>
                    (Inr True,
                     sa_count (\<lambda>s. s\<lparr>reconnects := reconnects s + 1\<rparr>) (t1\<lparr>sa_failedAttempts := 0\<rparr>))
                | (Inl e, t1) \<Rightarrow>
                    if is_std_exception e
                    then
                      (case sa_call (sc_now lib) t1 of
                         (later, t2) \<Rightarrow>
                           (Inr True,
                            t2\<lparr>sa_nextAttempt := later + reconnect_delay (sa_policy t2) (sa_failedAttempts t2),
                               sa_connected := False\<rparr>))
                    else (Inl e, t1))))"

definition sa_lost ::
  "'w simple_client \<Rightarrow> ('w, 'h) simple_amqp \<Rightarrow> bool result \<times> ('w, 'h) simple_amqp" where
  "sa_lost lib t = (if rp_enabled (sa_policy t) then sa_serviceReconnect lib t else (Inr False, t))"

text \<open>What is done about a delivery once the handler decided. A deferral has no case.\<close>

definition sa_perform ::
  "'w simple_client \<Rightarrow> nat \<Rightarrow> disposition \<Rightarrow> ('w, 'h) simple_amqp \<Rightarrow> unit result \<times> ('w, 'h) simple_amqp" where
  "sa_perform lib tag d t =
     (case d of
        Ack \<Rightarrow> sa_then (sa_call (sc_command lib (Sc_Ack tag)) t)
                 (\<lambda>_ t1. (Inr (), sa_count (\<lambda>s. s\<lparr>acksPerformed := acksPerformed s + 1\<rparr>) t1))
      | Requeue \<Rightarrow> sa_then (sa_call (sc_command lib (Sc_Reject tag True)) t)
                 (\<lambda>_ t1. (Inr (), sa_count (\<lambda>s. s\<lparr>requeuesPerformed := requeuesPerformed s + 1\<rparr>) t1))
      | Reject \<Rightarrow> sa_then (sa_call (sc_command lib (Sc_Reject tag False)) t)
                 (\<lambda>_ t1. (Inr (), sa_count (\<lambda>s. s\<lparr>rejectsPerformed := rejectsPerformed s + 1\<rparr>) t1))
      | Deferred \<Rightarrow> (Inr (), t))"

definition sa_deliver ::
  "'w simple_client \<Rightarrow> 'h delivery_handler \<Rightarrow> delivery \<Rightarrow> ('w, 'h) simple_amqp \<Rightarrow> 'h
     \<Rightarrow> bool result \<times> ('w, 'h) simple_amqp \<times> 'h" where
  "sa_deliver lib handler d t h =
     (let t1 = sa_count (\<lambda>s. s\<lparr>received := received s + 1,
                             bytesReceived := bytesReceived s + length (d_body d)\<rparr>) t in
      case handler d h of
        (Inl e, h1) \<Rightarrow> (Inl e, sa_count (\<lambda>s. s\<lparr>abandoned := abandoned s + 1\<rparr>) t1, h1)
      | (Inr disposition, h1) \<Rightarrow>
          (case sa_perform lib (d_tag d) disposition t1 of
             (Inl e, t2) \<Rightarrow> (Inl e, t2, h1)
           | (Inr _, t2) \<Rightarrow> (Inr True, t2, h1)))"

definition sa_pump ::
  "'w simple_client \<Rightarrow> i64 \<Rightarrow> ('w, 'h) simple_amqp \<Rightarrow> 'h \<Rightarrow> bool result \<times> ('w, 'h) simple_amqp \<times> 'h" where
  "sa_pump lib duration t h =
     (let still = (\<lambda>(r, t). (r, t, h)) in
      if \<not> sa_ready t then still (sa_lost lib t)
      else
        (case (if sa_subscribed t then sa_handler t else None) of
           None \<Rightarrow> (Inr True, t, h)
         | Some handler \<Rightarrow>
             (case sa_call (sc_receive lib (sa_consumerTag t) (ucast duration)) t of
                (Inl e, t1) \<Rightarrow>
                  if is_std_exception e then still (sa_lost lib (t1\<lparr>sa_connected := False\<rparr>))
                  else (Inl e, t1, h)
              | (Inr None, t1) \<Rightarrow> (Inr True, t1, h)
              | (Inr (Some d), t1) \<Rightarrow> sa_deliver lib handler d t1 h)))"

text \<open>Time bounds are milliseconds.\<close>

definition simple_transport :: "'w simple_client \<Rightarrow> (i64, ('w, 'h) simple_amqp, 'h) itransport" where
  "simple_transport lib =
     \<lparr>it_capabilities = sa_capabilities,
      it_connect = (\<lambda>ep ms t h. case sa_connect lib ep (unat ms) t of (r, t1) \<Rightarrow> (r, t1, h)),
      it_close = (\<lambda>_ t h. case sa_close lib t of (r, t1) \<Rightarrow> (r, t1, h)),
      it_ready = sa_ready,
      it_ensureTopic = (\<lambda>tp options _ t h. case sa_ensureTopic lib tp options t of (r, t1) \<Rightarrow> (r, t1, h)),
      it_topicDepth = (\<lambda>tp _ t h. case sa_topicDepth lib tp t of (r, t1) \<Rightarrow> (r, t1, h)),
      it_purgeTopic = (\<lambda>tp _ t h. case sa_purgeTopic lib tp t of (r, t1) \<Rightarrow> (r, t1, h)),
      it_send = sa_send lib,
      it_subscribe = (\<lambda>tp f _ t h. case sa_subscribe lib tp f t of (r, t1) \<Rightarrow> (r, t1, h)),
      it_settle = sa_settle,
      it_setReconnectPolicy = sa_setReconnectPolicy,
      it_pump = sa_pump lib,
      it_stats = sa_stats\<rparr>"

end
