(* ===== verification/Simple_Amqp_Props.thy ===== *)
theory Simple_Amqp_Props
  imports Simple_Amqp Consumer_Props
begin

text \<open>
  Properties of the SimpleAmqpClient backend: what a pump performs for every outcome of the handler
  and of the library, hence how far its counters can fall behind those of a consumer, and that a
  failed reconnection is retried.
\<close>

section \<open>Lemmas\<close>

lemma sa_call_rest:
  "sa_call f t = (r, t') \<Longrightarrow> \<exists>w. t' = t\<lparr>sa_world := w\<rparr>"
  by (auto simp: sa_call_def split: prod.splits)

text \<open>What stays, whatever the calls do to the world.\<close>

definition tried :: "stats \<Rightarrow> nat \<times> nat" where
  "tried s = (received s, abandoned s)"

definition sa_kept :: "('w, 'h) simple_amqp \<Rightarrow> ('w, 'h) simple_amqp \<Rightarrow> bool" where
  "sa_kept t t' \<longleftrightarrow> sa_handler t' = sa_handler t \<and> performed (sa_stats t') = performed (sa_stats t) \<and>
     tried (sa_stats t') = tried (sa_stats t) \<and> reconnects (sa_stats t') = reconnects (sa_stats t) \<and> sa_policy t' = sa_policy t \<and>
     sa_failedAttempts t' = sa_failedAttempts t"

lemma sa_kept_refl [simp]: "sa_kept t t"
  by (simp add: sa_kept_def)

lemma sa_kept_trans: "sa_kept t u \<Longrightarrow> sa_kept u v \<Longrightarrow> sa_kept t v"
  by (simp add: sa_kept_def)

lemma sa_kept_upd [simp]:
  "sa_kept t (u\<lparr>sa_world := w\<rparr>) = sa_kept t u" "sa_kept t (u\<lparr>sa_channel := b\<rparr>) = sa_kept t u"
  "sa_kept t (u\<lparr>sa_connected := b\<rparr>) = sa_kept t u" "sa_kept t (u\<lparr>sa_consumerTag := tag\<rparr>) = sa_kept t u"
  "sa_kept t (u\<lparr>sa_topic := tp\<rparr>) = sa_kept t u" "sa_kept t (u\<lparr>sa_topicOptions := opts\<rparr>) = sa_kept t u"
  "sa_kept t (u\<lparr>sa_topicDeclared := b\<rparr>) = sa_kept t u" "sa_kept t (u\<lparr>sa_nextAttempt := i\<rparr>) = sa_kept t u"
  by (simp_all add: sa_kept_def)

text \<open>An operation keeps these if its parts do; the parts are collected.\<close>

named_theorems sa_keeps

lemma sa_call_keeps [sa_keeps]: "sa_call f t = (r, t') \<Longrightarrow> sa_kept t t'"
  by (auto dest: sa_call_rest)

lemma sa_then_keeps:
  assumes "sa_then x k = (r, t')" "sa_kept t (snd x)"
    and "\<And>a u. x = (Inr a, u) \<Longrightarrow> k a u = (r, t') \<Longrightarrow> sa_kept u t'"
  shows "sa_kept t t'"
proof (cases x)
  case (Pair y u)
  then show ?thesis using assms sa_kept_trans by (cases y) (auto simp: sa_then_def)
qed

lemma sa_reset_keeps [simp]: "sa_kept t (sa_reset lib t)"
  by (simp add: sa_reset_def)

lemma openChannel_keeps [sa_keeps]:
  assumes "openChannel lib ms t = (r, t')"
  shows "sa_kept t t'"
proof -
  have c: "sa_kept t (snd (sa_call f t))" for f and t :: "('a, 'b) simple_amqp"
    by (rule sa_call_keeps) (rule prod.collapse [symmetric])
  show ?thesis
    using assms unfolding openChannel_def Let_def
    by (elim sa_then_keeps) (auto intro: c elim!: sa_then_keeps simp: c)
qed

lemma sa_commands_keeps [sa_keeps]: "sa_commands lib cs t = (r, t') \<Longrightarrow> sa_kept t t'"
proof (induction cs arbitrary: t)
  case (Cons c cs)
  show ?case
  proof (rule sa_then_keeps)
    show "sa_then (sa_call (sc_command lib c) t) (\<lambda>_. sa_commands lib cs) = (r, t')" using Cons.prems by simp
    show "sa_kept t (snd (sa_call (sc_command lib c) t))"
      by (rule sa_call_keeps) (rule prod.collapse [symmetric])
  qed (rule Cons.IH)
qed simp

lemma sa_ensureTopic_keeps [sa_keeps]:
  assumes "sa_ensureTopic lib tp opts t = (r, t')"
  shows "sa_kept t t'"
proof -
  obtain x u where 1: "sa_commands lib (sa_declaring tp opts) t = (x, u)" by fastforce
  from assms sa_commands_keeps [OF 1] 1 show ?thesis
    by (cases x) (auto simp: sa_ensureTopic_def sa_then_def split: if_splits)
qed

lemma startConsuming_keeps [sa_keeps]:
  assumes "startConsuming lib t = (r, t')"
  shows "sa_kept t t'"
proof -
  obtain x u where 1: "sa_call (sc_consume lib (sa_topic t) sa_consume_request) t = (x, u)" by fastforce
  from assms sa_call_keeps [OF 1] 1 show ?thesis
    by (cases x) (auto simp: startConsuming_def sa_then_def)
qed

lemma sa_restore_keeps:
  assumes "sa_restore lib t = (r, t')"
  shows "sa_kept t t'"
proof -
  obtain x u where 1: "openChannel lib 5000 (sa_reset lib t) = (x, u)" by fastforce
  have u: "sa_kept t u" by (rule sa_kept_trans [OF sa_reset_keeps openChannel_keeps [OF 1]])
  obtain y v where 2: "(if sa_topicDeclared u then sa_ensureTopic lib (sa_topic u) (sa_topicOptions u) u
      else (Inr (), u)) = (y, v)" by fastforce
  have v: "sa_kept t v"
    using 2 u sa_kept_trans [OF u sa_ensureTopic_keeps] by (auto split: if_splits)
  show ?thesis
  proof (cases x)
    case (Inl e)
    with assms 1 u show ?thesis by (simp add: sa_restore_def sa_then_def)
  next
    case (Inr a)
    with assms 1 2 have "sa_then (y, v) (\<lambda>_ t2. if sa_subscribed t2 then startConsuming lib t2 else (Inr (), t2)) =
        (r, t')" by (simp add: sa_restore_def sa_then_def)
    with v sa_kept_trans [OF v startConsuming_keeps] show ?thesis
      by (cases y) (auto simp: sa_then_def split: if_splits)
  qed
qed

lemma sa_serviceReconnect_keeps:
  assumes "sa_serviceReconnect lib t = (r, t')"
  shows "sa_handler t' = sa_handler t \<and> performed (sa_stats t') = performed (sa_stats t) \<and>
    tried (sa_stats t') = tried (sa_stats t)"
proof -
  obtain now u where 1: "sa_call (sc_now lib) t = (now, u)" by fastforce
  obtain x v where 2: "sa_restore lib (u\<lparr>sa_failedAttempts := sa_failedAttempts u + 1\<rparr>) = (x, v)" by fastforce
  obtain again w where 3: "sa_call (sc_now lib) v = (again, w)" by fastforce
  note k = sa_call_keeps [OF 1] sa_restore_keeps [OF 2] sa_call_keeps [OF 3]
  have "t' = t \<or> t' = u \<or> t' = v \<or> t' = sa_count (\<lambda>s. s\<lparr>reconnects := reconnects s + 1\<rparr>) (v\<lparr>sa_failedAttempts := 0\<rparr>) \<or>
      (\<exists>i. t' = w\<lparr>sa_nextAttempt := i, sa_connected := False\<rparr>)"
    using assms 1 2 3 by (cases x) (auto simp: sa_serviceReconnect_def split: if_splits)
  with k show ?thesis by (auto simp: sa_kept_def sa_count_def performed_def tried_def)
qed

lemma sa_lost_keeps:
  "sa_lost lib t = (r, t') \<Longrightarrow>
     sa_handler t' = sa_handler t \<and> performed (sa_stats t') = performed (sa_stats t) \<and>
     tried (sa_stats t') = tried (sa_stats t)"
  using sa_serviceReconnect_keeps by (auto simp: sa_lost_def split: if_splits)

section \<open>What a pump performs\<close>

text \<open>A disposition is counted exactly if the library did not throw; a deferral asks nothing of it.\<close>

lemma sa_perform_outcome:
  assumes "sa_perform lib tag d t = (r, t')"
  shows "sa_handler t' = sa_handler t \<and> tried (sa_stats t') = tried (sa_stats t) \<and>
    performed (sa_stats t') = (if r = Inr () then tally (Inr d) (performed (sa_stats t)) else performed (sa_stats t)) \<and>
    (d = Deferred \<longrightarrow> r = Inr ())"
proof -
  have c: "\<exists>x w. sa_call (sc_command lib cmd) t = (x, t\<lparr>sa_world := w\<rparr>)" for cmd
    by (auto simp: sa_call_def split: prod.split)
  obtain x1 w1 x2 w2 x3 w3 where
    "sa_call (sc_command lib (Sc_Ack tag)) t = (x1, t\<lparr>sa_world := w1\<rparr>)"
    "sa_call (sc_command lib (Sc_Reject tag True)) t = (x2, t\<lparr>sa_world := w2\<rparr>)"
    "sa_call (sc_command lib (Sc_Reject tag False)) t = (x3, t\<lparr>sa_world := w3\<rparr>)"
    using c by metis
  with assms show ?thesis
    by (cases d; cases x1; cases x2; cases x3)
      (auto simp: sa_perform_def sa_then_def sa_count_def performed_def tried_def)
qed

lemma sa_deliver_outcome:
  assumes "sa_deliver lib f d t h = (r, t', h')"
  shows "\<exists>outcome. f d h = (outcome, h') \<and> sa_handler t' = sa_handler t \<and>
    tried (sa_stats t') =
      (received (sa_stats t) + 1, abandoned (sa_stats t) + (case outcome of Inl _ \<Rightarrow> 1 | Inr _ \<Rightarrow> 0)) \<and>
    (performed (sa_stats t') = tally outcome (performed (sa_stats t)) \<or>
     isl r \<and> performed (sa_stats t') = performed (sa_stats t) \<and> (\<exists>dis. outcome = Inr dis \<and> dis \<noteq> Deferred))"
proof -
  obtain outcome h1 where f: "f d h = (outcome, h1)" by fastforce
  let ?t = "sa_count (\<lambda>s. s\<lparr>received := received s + 1, bytesReceived := bytesReceived s + length (d_body d)\<rparr>) t"
  have p: "performed (sa_stats ?t) = performed (sa_stats t)" "sa_handler ?t = sa_handler t"
    "tried (sa_stats ?t) = (received (sa_stats t) + 1, abandoned (sa_stats t))"
    by (simp_all add: sa_count_def performed_def tried_def)
  show ?thesis
  proof (cases outcome)
    case (Inl e)
    with assms f show ?thesis
      by (cases "performed (sa_stats t)") (auto simp: sa_deliver_def Let_def sa_count_def performed_def tried_def)
  next
    case (Inr dis)
    obtain x u where x: "sa_perform lib (d_tag d) dis ?t = (x, u)" by fastforce
    from sa_perform_outcome [OF x] assms f Inr x p show ?thesis
      by (cases x) (auto simp: sa_deliver_def Let_def)
  qed
qed

lemma simple_transport_sel [simp]:
  "it_pump (simple_transport lib) = sa_pump lib" "it_settle (simple_transport lib) = sa_settle"
  "it_stats (simple_transport lib) = sa_stats"
  by (simp_all add: simple_transport_def)

text \<open>A pump either calls the handler for one delivery, or only services the connection.\<close>

lemma sa_pump_cases:
  assumes "sa_handler t = Some f" "sa_pump lib ms t h = (r, t', h')"
  shows "(h' = h \<and> sa_handler t' = sa_handler t \<and> performed (sa_stats t') = performed (sa_stats t) \<and>
      tried (sa_stats t') = tried (sa_stats t)) \<or>
    (\<exists>u d. sa_kept t u \<and> sa_deliver lib f d u h = (r, t', h'))"
proof -
  have lost: "sa_handler t' = sa_handler t \<and> performed (sa_stats t') = performed (sa_stats t) \<and>
      tried (sa_stats t') = tried (sa_stats t)"
    if "sa_lost lib u = (r, t')" "sa_kept t u" for u
    using sa_lost_keeps [OF that(1)] that(2) by (simp add: sa_kept_def)
  show ?thesis
  proof (cases "sa_ready t \<and> sa_subscribed t")
    case False
    with assms lost [OF _ sa_kept_refl] show ?thesis
      by (auto simp: sa_pump_def Let_def split: if_splits prod.splits)
  next
    case True
    obtain x u where x: "sa_call (sc_receive lib (sa_consumerTag t) (ucast ms)) t = (x, u)" by fastforce
    note k = sa_call_keeps [OF x]
    show ?thesis
    proof (cases "\<exists>d. x = Inr (Some d)")
      case True
      then obtain d where "sa_deliver lib f d u h = (r, t', h')"
        using assms x \<open>sa_ready t \<and> sa_subscribed t\<close> by (auto simp: sa_pump_def Let_def)
      with k show ?thesis by blast
    next
      case False
      then have "(t' = u \<and> h' = h) \<or> (sa_lost lib (u\<lparr>sa_connected := False\<rparr>) = (r, t') \<and> h' = h)"
        using assms x \<open>sa_ready t \<and> sa_subscribed t\<close>
        by (cases x) (auto simp: sa_pump_def Let_def split: if_splits prod.splits option.splits)
      with k lost [of "u\<lparr>sa_connected := False\<rparr>"] show ?thesis by (auto simp: sa_kept_def)
    qed
  qed
qed

lemma sa_drain_same:
  "consumer_drain sa_settle arrivals q c t = (r, q', c', t') \<Longrightarrow> t' = t \<and> c' = c"
  by (subst (asm) consumer_drain.simps) (auto simp: sa_settle_def split: option.splits prod.splits)

text \<open>A poll is at most one pump, since \<open>settle\<close> always throws.\<close>

lemma sa_poll_pump:
  assumes "consumer_poll (simple_transport lib) arrivals ms c t = (r, c', t')"
  obtains "decisions c' = decisions c" "t' = t" "con_handlers c' = con_handlers c" "con_deferred c' = con_deferred c"
  | c1 where "decisions c1 = decisions c" "con_handlers c1 = con_handlers c" "con_deferred c1 = con_deferred c"
      "sa_pump lib ms t c1 = (r, t', c')"
proof (cases "con_settlements c")
  case None
  with assms that(2) [of c] show thesis by (auto simp: consumer_poll_def split: prod.splits)
next
  case (Some q)
  obtain x q1 c1 t1 where d: "consumer_drain sa_settle arrivals q c t = (x, q1, c1, t1)" by (metis prod_cases4)
  show thesis
    using assms Some d sa_drain_same [OF d] that(1) that(2) [of "c\<lparr>con_settlements := Some q1\<rparr>"]
    by (cases x) (auto simp: consumer_poll_def split: prod.splits)
qed

text \<open>The second counts are at most \<open>n\<close> behind the first in all, and nowhere ahead.\<close>

fun lags :: "nat \<Rightarrow> nat \<times> nat \<times> nat \<Rightarrow> nat \<times> nat \<times> nat \<Rightarrow> bool" where
  "lags n (a, r, q) (a', r', q') \<longleftrightarrow> a' \<le> a \<and> r' \<le> r \<and> q' \<le> q \<and> a + r + q \<le> a' + r' + q' + n"

lemma lags_refl: "lags 0 x x"
  by (cases x) simp

lemma lags_more: "lags n x y \<Longrightarrow> n \<le> k \<Longrightarrow> lags k x y"
  by (cases x; cases y) simp

lemma lags_both: "lags n x y \<Longrightarrow> lags n (tally outcome x) (tally outcome y)"
  by (cases x; cases y; cases outcome; cases "projr outcome") simp_all

lemma lags_one: "lags n x y \<Longrightarrow> lags (Suc n) (tally outcome x) y"
  by (cases x; cases y; cases outcome; cases "projr outcome") simp_all

lemma sa_pump_lags:
  assumes "sa_handler t = Some (consumer_deliver caps)" "sa_pump lib ms t c = (r, t', c')"
    and "lags n (decisions c) (performed (sa_stats t))"
  shows "sa_handler t' = Some (consumer_deliver caps) \<and>
    lags (n + (if isl r then 1 else 0)) (decisions c') (performed (sa_stats t'))"
  using sa_pump_cases [OF assms(1,2)]
proof (elim disjE exE conjE)
  fix u d
  assume u: "sa_kept t u" "sa_deliver lib (consumer_deliver caps) d u c = (r, t', c')"
  from sa_deliver_outcome [OF u(2)] obtain outcome where o:
    "consumer_deliver caps d c = (outcome, c')" "sa_handler t' = sa_handler u"
    "performed (sa_stats t') = tally outcome (performed (sa_stats u)) \<or>
      isl r \<and> performed (sa_stats t') = performed (sa_stats u)" by blast
  have p: "performed (sa_stats u) = performed (sa_stats t)" "sa_handler u = sa_handler t"
    using u(1) by (simp_all add: sa_kept_def)
  note both = lags_more [OF lags_both [OF assms(3)], of "n + (if isl r then 1 else 0)" outcome]
  from o(3) have "lags (n + (if isl r then 1 else 0)) (tally outcome (decisions c)) (performed (sa_stats t'))"
    using both lags_one [OF assms(3), of outcome] p by auto
  then show ?thesis using consumer_deliver_tally [OF o(1)] o(2) p assms(1) by simp
qed (use assms in \<open>auto intro: lags_more\<close>)

lemma sa_poll_lags:
  assumes "sa_handler t = Some (consumer_deliver caps)"
    and "consumer_poll (simple_transport lib) arrivals ms c t = (r, c', t')"
    and "lags n (decisions c) (performed (sa_stats t))"
  shows "sa_handler t' = Some (consumer_deliver caps) \<and>
    lags (n + (if isl r then 1 else 0)) (decisions c') (performed (sa_stats t'))"
  using assms(2)
proof (cases rule: sa_poll_pump)
  case (2 c1)
  with sa_pump_lags [OF assms(1) 2(4), of n] assms(3) show ?thesis by simp
qed (use assms in \<open>auto intro: lags_more\<close>)

lemma sa_polls_lag:
  assumes "sa_handler t = Some (consumer_deliver caps)"
    and "poll_all (simple_transport lib) polls c t = (c', t')"
    and "lags n (decisions c) (performed (sa_stats t))"
  shows "lags (n + failed_polls (simple_transport lib) polls c t) (decisions c') (performed (sa_stats t'))"
  using assms
proof (induction polls arbitrary: c t n)
  case (Cons poll polls)
  obtain arrivals ms where poll: "poll = (arrivals, ms)" by fastforce
  obtain r c1 t1 where p: "consumer_poll (simple_transport lib) arrivals ms c t = (r, c1, t1)" by (metis prod_cases3)
  from sa_poll_lags [OF Cons.prems(1) p Cons.prems(3)]
  show ?case using Cons.IH [of t1 c1 "n + (if isl r then 1 else 0)"] Cons.prems(2) poll p
    by (simp add: add.assoc)
qed simp

section \<open>Reconnecting\<close>

lemma sa_call_ready: "sa_call f t = (r, t') \<Longrightarrow> sa_ready t' = sa_ready t"
  by (auto simp: sa_ready_def dest!: sa_call_rest)

lemma sa_commands_ready: "sa_commands lib cs t = (r, t') \<Longrightarrow> sa_ready t' = sa_ready t"
proof (induction cs arbitrary: t)
  case (Cons c cs)
  obtain x u where x: "sa_call (sc_command lib c) t = (x, u)" by fastforce
  with Cons sa_call_ready [OF x] show ?case by (cases x) (auto simp: sa_then_def)
qed simp

lemma openChannel_ready:
  "openChannel lib ms t = (Inr u, t') \<Longrightarrow> sa_ready t'"
  by (auto simp: openChannel_def Let_def sa_then_def sa_ready_def split: prod.splits sum.splits)

lemma sa_restore_ready:
  assumes "sa_restore lib t = (Inr u, t')"
  shows "sa_ready t'"
proof -
  obtain x v where 1: "openChannel lib 5000 (sa_reset lib t) = (x, v)" by fastforce
  obtain y w where 2: "sa_commands lib (sa_declaring (sa_topic v) (sa_topicOptions v)) v = (y, w)" by fastforce
  have x: "x = Inr ()" using assms 1 by (cases x) (simp_all add: sa_restore_def sa_then_def)
  let ?v = "if sa_topicDeclared v then w\<lparr>sa_topic := sa_topic v, sa_topicOptions := sa_topicOptions v,
    sa_topicDeclared := True\<rparr> else v"
  have v: "sa_ready v" "sa_ready ?v"
    using openChannel_ready [of lib 5000 "sa_reset lib t" "()" v] 1 x sa_commands_ready [OF 2]
    by (simp_all add: sa_ready_def)
  have "(if sa_subscribed ?v then startConsuming lib ?v else (Inr (), ?v)) = (Inr u, t')"
    using assms 1 2 x
    by (cases y) (auto simp: sa_restore_def sa_then_def sa_ensureTopic_def split: if_splits)
  then show ?thesis
    using v(2) sa_call_ready [of "sc_consume lib (sa_topic ?v) sa_consume_request" ?v]
    by (auto simp: startConsuming_def sa_then_def sa_ready_def split: if_splits prod.splits sum.splits)
qed

section \<open>A small library\<close>

text \<open>
  A library that succeeds in everything; its state lists what the next receives return.
\<close>

definition steady_client :: "delivery option result list simple_client" where
  "steady_client =
     \<lparr>sc_literal = (\<lambda>_. True), sc_resolve = (\<lambda>_ _ w. (None, w)),
      sc_probe = (\<lambda>_ _ _ w. (Probe_Connected, w)), sc_create = (\<lambda>_ _ _ _ _ w. (Inr (), w)),
      sc_drop = id, sc_command = (\<lambda>_ w. (Inr (), w)), sc_counts = (\<lambda>_ _ w. (Inr 7, w)),
      sc_consume = (\<lambda>_ _ w. (Inr ''tag'', w)),
      sc_receive = (\<lambda>_ _ w. case w of [] \<Rightarrow> (Inr None, []) | x # w' \<Rightarrow> (x, w')),
      sc_now = (\<lambda>w. (0, w))\<rparr>"

lemma ran: "fst x = a \<Longrightarrow> x = (a, fst (snd x), snd (snd x))"
  by (cases x) simp

lemma returned: "fst x = a \<Longrightarrow> x = (a, snd x)"
  by (cases x) simp

definition small_policy :: reconnect_policy where
  "small_policy = default_reconnect_policy\<lparr>rp_enabled := True\<rparr>"

section \<open>Properties\<close>

text \<open>
  C18: how a consumer's counters compare with what its SimpleAmqpClient transport performed. Over any
  sequence of polls, whatever the broker delivers, however often the connection is lost and
  whatever the library throws, the transport never counts more acknowledgements, rejections or
  returns than the consumer decided, and it misses at most one decision for each poll that threw: a
  decision is missed only where the library threw on it. As long as no poll throws, the counters
  are equal.
\<close>

theorem sa_consumer_counts_performed:
  assumes "sa_handler t = Some (consumer_deliver caps)"
    and "decisions c = performed (it_stats (simple_transport lib) t)"
    and "poll_all (simple_transport lib) polls c t = (c', t')"
  shows "acksPerformed (it_stats (simple_transport lib) t') \<le> con_acked c' \<and>
    rejectsPerformed (it_stats (simple_transport lib) t') \<le> con_rejected c' \<and>
    requeuesPerformed (it_stats (simple_transport lib) t') \<le> con_requeued c' \<and>
    con_acked c' + con_rejected c' + con_requeued c' \<le>
      acksPerformed (it_stats (simple_transport lib) t') + rejectsPerformed (it_stats (simple_transport lib) t') +
      requeuesPerformed (it_stats (simple_transport lib) t') + failed_polls (simple_transport lib) polls c t"
proof -
  have "lags 0 (decisions c) (performed (sa_stats t))" using assms(2) by (simp add: lags_refl)
  from sa_polls_lag [OF assms(1,3) this] show ?thesis by (simp add: decisions_def performed_def)
qed

text \<open>One delivery that is acknowledged.\<close>

definition small_receiving :: "(delivery option result list, nat consumer) simple_amqp" where
  "small_receiving =
     (simple_amqp_new [Inr (Some \<lparr>d_body = ''motus:1:hi'', d_redelivered = False, d_tag = 1\<rparr>)])
       \<lparr>sa_channel := True, sa_connected := True, sa_subscribed := True,
        sa_handler := Some (consumer_deliver sa_capabilities)\<rparr>"

text \<open>A library that throws on every acknowledgement.\<close>

definition unacknowledging :: "delivery option result list simple_client" where
  "unacknowledging = steady_client
     \<lparr>sc_command := (\<lambda>cmd w. case cmd of Sc_Ack _ \<Rightarrow> (Inl (Runtime_Error ''gone''), w) | _ \<Rightarrow> (Inr (), w))\<rparr>"

definition counting_consumer :: "nat consumer" where
  "counting_consumer =
     \<lparr>con_handlers = \<lparr>onMessage = Some (\<lambda>m u. (Inr (), u + 1)), onDeferred = None\<rparr>, con_acked = 0,
      con_rejected = 0, con_requeued = 0, con_deferred = 0, con_settlements = None, con_user = 0\<rparr>"

lemma sa_consumer_counts_performed_witness:
  "\<exists>c' t'. poll_all (simple_transport unacknowledging) [([], 250)] counting_consumer small_receiving = (c', t') \<and>
     acksPerformed (it_stats (simple_transport unacknowledging) t') \<le> con_acked c' \<and>
     con_acked c' \<le> acksPerformed (it_stats (simple_transport unacknowledging) t') +
       rejectsPerformed (it_stats (simple_transport unacknowledging) t') +
       requeuesPerformed (it_stats (simple_transport unacknowledging) t') + 1"
proof -
  obtain c' t' where r: "poll_all (simple_transport unacknowledging) [([], 250)] counting_consumer small_receiving = (c', t')"
    by fastforce
  have "failed_polls (simple_transport unacknowledging) [([], 250)] counting_consumer small_receiving \<le> 1"
    by (simp split: prod.split)
  moreover have "decisions counting_consumer = performed (it_stats (simple_transport unacknowledging) small_receiving)"
    by (simp add: decisions_def performed_def no_stats_def small_receiving_def simple_amqp_new_def counting_consumer_def)
  ultimately show ?thesis
    using sa_consumer_counts_performed [OF _ _ r, of sa_capabilities] r
    by (auto simp: small_receiving_def)
qed

text \<open>
  A pump of a transport that lost its connection, with reconnection enabled and attempts
  left, does one of three things and always reports the transport alive without running the
  handler: it reconnects, which makes the transport ready, restarts the count of failures and is
  counted once; or it waits, because the backoff has not elapsed; or its attempt fails, is
  counted, and the transport stays unready, so that the next pump tries again.
\<close>

theorem sa_pump_while_lost:
  assumes "\<not> sa_ready t" "rp_enabled (sa_policy t)" "sa_failedAttempts t < rp_maxAttempts (sa_policy t)"
    and "sa_pump lib ms t h = (Inr alive, t', h')"
  shows "alive \<and> h' = h \<and>
    (if sa_ready t'
     then sa_failedAttempts t' = 0 \<and> reconnects (sa_stats t') = reconnects (sa_stats t) + 1
     else reconnects (sa_stats t') = reconnects (sa_stats t) \<and>
       sa_failedAttempts t' = (if fst (sc_now lib (sa_world t)) < sa_nextAttempt t
         then sa_failedAttempts t else sa_failedAttempts t + 1))"
proof -
  obtain now u where 1: "sa_call (sc_now lib) t = (now, u)" by fastforce
  obtain x v where 2: "sa_restore lib (u\<lparr>sa_failedAttempts := sa_failedAttempts u + 1\<rparr>) = (x, v)" by fastforce
  obtain again w where 3: "sa_call (sc_now lib) v = (again, w)" by fastforce
  have now: "now = fst (sc_now lib (sa_world t))" "sa_nextAttempt u = sa_nextAttempt t"
    using 1 by (auto simp: sa_call_def split: prod.splits)
  note k = sa_call_keeps [OF 1] sa_restore_keeps [OF 2] sa_call_keeps [OF 3]
  have s: "sa_serviceReconnect lib t = (Inr alive, t')" "h' = h"
    using assms by (auto simp: sa_pump_def Let_def sa_lost_def split: prod.splits)
  show ?thesis
  proof (cases "now < sa_nextAttempt t")
    case True
    with s 1 assms now k(1) sa_call_ready [OF 1] show ?thesis
      by (simp add: sa_serviceReconnect_def sa_kept_def not_le [symmetric])
  next
    case False
    show ?thesis
    proof (cases x)
      case (Inl e)
      with False s 1 2 3 assms now k show ?thesis
        by (auto simp: sa_serviceReconnect_def sa_kept_def sa_ready_def not_le [symmetric] split: if_splits)
    next
      case (Inr a)
      have "sa_ready v" using sa_restore_ready 2 Inr by blast
      with Inr False s 1 2 assms now k show ?thesis
        by (auto simp: sa_serviceReconnect_def sa_kept_def sa_ready_def sa_count_def not_le [symmetric])
    qed
  qed
qed

lemma sa_pump_while_lost_witness:
  "let lost = (simple_amqp_new [] :: (_, nat) simple_amqp)\<lparr>sa_policy := small_policy\<rparr>;
       refusing = steady_client\<lparr>sc_probe := (\<lambda>_ _ _ w. (Probe_Timed_Out, w))\<rparr> in
     sa_ready (fst (snd (sa_pump steady_client 250 lost 0))) \<and>
     sa_failedAttempts (fst (snd (sa_pump refusing 250 lost 0))) = 1"
proof -
  let ?lost = "(simple_amqp_new [] :: (_, nat) simple_amqp)\<lparr>sa_policy := small_policy\<rparr>"
  let ?refusing = "steady_client\<lparr>sc_probe := (\<lambda>_ _ _ w. (Probe_Timed_Out, w))\<rparr>"
  have l: "\<not> sa_ready ?lost" "rp_enabled (sa_policy ?lost)"
    "sa_failedAttempts ?lost < rp_maxAttempts (sa_policy ?lost)" by code_simp+
  have r: "fst (sa_pump ?refusing 250 ?lost 0) = Inr True"
    "\<not> sa_ready (fst (snd (sa_pump ?refusing 250 ?lost 0)))"
    by (simp_all add: sa_pump_def sa_lost_def sa_serviceReconnect_def sa_restore_def sa_reset_def openChannel_def
        sa_call_def sa_then_def probeReachable_def steady_client_def small_policy_def simple_amqp_new_def
        sa_ready_def sa_timed_out_def default_reconnect_policy_def)
  have n: "\<not> fst (sc_now ?refusing (sa_world ?lost)) < sa_nextAttempt ?lost" "sa_failedAttempts ?lost + 1 = 1"
    "sa_ready (fst (snd (sa_pump steady_client 250 ?lost 0)))" by code_simp+
  have "sa_pump ?refusing 250 ?lost 0 = (Inr True, fst (snd (sa_pump ?refusing 250 ?lost 0)),
      snd (snd (sa_pump ?refusing 250 ?lost 0)))" using r(1) by (rule ran)
  from sa_pump_while_lost [OF l this, THEN conjunct2, THEN conjunct2,
      unfolded if_not_P [OF r(2)] if_not_P [OF n(1)] n(2), THEN conjunct2] n(3)
  show ?thesis unfolding Let_def by (rule conjI [rotated])
qed

end
