(* ===== verification/Simple_Amqp_Sessions.thy ===== *)
theory Simple_Amqp_Sessions
  imports Simple_Amqp_Props
begin

text \<open>
  What the SimpleAmqpClient backend tells its library, over any library: a recorder notes each
  call, and the properties compare the calls of the first connection with those of a
  reconnection, and the declarations a depth reading repeats with those that were made.
\<close>

section \<open>The recorder\<close>

datatype simple_event =
    E_Probe string u16
  | E_Create string u16 string string string
  | E_Drop
  | E_Command simple_command
  | E_Counts topic queue_declaration
  | E_Consume topic consume_request

definition noting :: "'e \<Rightarrow> ('w \<Rightarrow> 'r \<times> 'w) \<Rightarrow> 'e list \<times> 'w \<Rightarrow> 'r \<times> 'e list \<times> 'w" where
  "noting e f lw = (case lw of (l, w) \<Rightarrow> case f w of (r, w1) \<Rightarrow> (r, l @ [e], w1))"

definition passing :: "('w \<Rightarrow> 'r \<times> 'w) \<Rightarrow> 'l \<times> 'w \<Rightarrow> 'r \<times> 'l \<times> 'w" where
  "passing f lw = (case lw of (l, w) \<Rightarrow> case f w of (r, w1) \<Rightarrow> (r, l, w1))"

definition recorded :: "'w simple_client \<Rightarrow> (simple_event list \<times> 'w) simple_client" where
  "recorded lib =
     \<lparr>sc_literal = sc_literal lib,
      sc_resolve = (\<lambda>host port. passing (sc_resolve lib host port)),
      sc_probe = (\<lambda>host port ms. noting (E_Probe host port) (sc_probe lib host port ms)),
      sc_create = (\<lambda>host port user pw realm.
         noting (E_Create host port user pw realm) (sc_create lib host port user pw realm)),
      sc_drop = (\<lambda>lw. snd (noting E_Drop (\<lambda>w. ((), sc_drop lib w)) lw)),
      sc_command = (\<lambda>c. noting (E_Command c) (sc_command lib c)),
      sc_counts = (\<lambda>tp qd. noting (E_Counts tp qd) (sc_counts lib tp qd)),
      sc_consume = (\<lambda>tp n. noting (E_Consume tp n) (sc_consume lib tp n)),
      sc_receive = (\<lambda>tag ms. passing (sc_receive lib tag ms)),
      sc_now = passing (sc_now lib)\<rparr>"

definition sa_log :: "(simple_event list \<times> 'w, 'h) simple_amqp \<Rightarrow> simple_event list" where
  "sa_log t = fst (sa_world t)"

text \<open>What opening, and a whole session, tells the library.\<close>

definition openings :: "endpoint \<Rightarrow> simple_event list" where
  "openings ep =
     (let port = (if ep_port ep \<noteq> 0 then ep_port ep else kDefaultPort) in
      [E_Probe (ep_host ep) port,
       E_Create (ep_host ep) port (ep_user ep) (ep_password ep) (ep_realm ep)])"

definition first_session :: "endpoint \<Rightarrow> topic \<Rightarrow> topic_options \<Rightarrow> simple_event list" where
  "first_session ep tp opts = openings ep @ map E_Command (sa_declaring tp opts) @
     [E_Consume tp
       \<lparr>cr_tag = [], cr_no_local = False, cr_no_ack = False, cr_exclusive = False, cr_prefetch = 1\<rparr>]"

section \<open>Lemmas\<close>

text \<open>A recorded operation that adds to the log and changes nothing a later step depends on.\<close>

definition told :: "simple_event list \<Rightarrow> (simple_event list \<times> 'w, 'h) simple_amqp
     \<Rightarrow> (simple_event list \<times> 'w, 'h) simple_amqp \<Rightarrow> bool" where
  "told es t t' \<longleftrightarrow> sa_log t' = sa_log t @ es \<and> sa_endpoint t' = sa_endpoint t \<and>
     sa_channel t' = sa_channel t \<and> sa_subscribed t' = sa_subscribed t \<and>
     sa_topicDeclared t' = sa_topicDeclared t \<and> sa_topic t' = sa_topic t \<and>
     sa_topicOptions t' = sa_topicOptions t \<and> sa_stats t' = sa_stats t \<and>
     sa_connected t' = sa_connected t"

lemma told_call:
  assumes "sa_call (noting e f) t = (r, t')"
  shows "told [e] t t'"
  using assms by (cases "sa_world t") (auto simp: sa_call_def noting_def told_def sa_log_def split: prod.splits)

lemma told_trans: "told es t u \<Longrightarrow> told es' u v \<Longrightarrow> told (es @ es') t v"
  by (simp add: told_def)

lemma sa_then_Inr:
  "sa_then x k = (Inr b, t') \<longleftrightarrow> (\<exists>a u. x = (Inr a, u) \<and> k a u = (Inr b, t'))"
  by (auto simp: sa_then_def split: prod.splits sum.splits)

lemma told_passing: "sa_call (passing f) t = (r, t') \<Longrightarrow> told [] t t'"
  by (cases "sa_world t") (auto simp: sa_call_def passing_def told_def sa_log_def split: prod.splits)

lemma recorded_sel [simp]:
  "sc_command (recorded lib) c = noting (E_Command c) (sc_command lib c)"
  "sc_counts (recorded lib) tp qd = noting (E_Counts tp qd) (sc_counts lib tp qd)"
  "sc_consume (recorded lib) tp n = noting (E_Consume tp n) (sc_consume lib tp n)"
  "sc_create (recorded lib) host port user pw realm =
     noting (E_Create host port user pw realm) (sc_create lib host port user pw realm)"
  "sc_now (recorded lib) = passing (sc_now lib)"
  "sc_receive (recorded lib) tag i = passing (sc_receive lib tag i)"
  by (simp_all add: recorded_def)

lemma told_commands:
  "sa_commands (recorded lib) cs t = (Inr u, t') \<Longrightarrow> told (map E_Command cs) t t'"
proof (induction cs arbitrary: t)
  case (Cons c cs)
  then obtain a v where "sa_call (noting (E_Command c) (sc_command lib c)) t = (Inr a, v)"
    "sa_commands (recorded lib) cs v = (Inr u, t')" by (auto simp: sa_then_Inr)
  then show ?case using told_trans [OF told_call Cons.IH] by fastforce
qed (simp add: told_def)

lemma told_probe:
  assumes "sa_call (probeReachable (recorded lib) host port ms) t = (Inr u, t')"
  shows "told [E_Probe host port] t t'"
  using assms
  by (cases "sa_world t")
    (auto simp: sa_call_def probeReachable_def recorded_def noting_def passing_def told_def sa_log_def
      split: prod.splits option.splits probe_outcome.splits if_splits)

text \<open>Opening, declaring and consuming, when they succeed.\<close>

lemma openChannel_log:
  assumes "openChannel (recorded lib) ms t = (Inr u, t')"
  shows "sa_log t' = sa_log t @ openings (sa_endpoint t) @ (if sa_channel t then [E_Drop] else []) \<and>
    sa_endpoint t' = sa_endpoint t \<and> sa_channel t' \<and> sa_subscribed t' = sa_subscribed t \<and>
    sa_topicDeclared t' = sa_topicDeclared t \<and> sa_topic t' = sa_topic t \<and>
    sa_topicOptions t' = sa_topicOptions t \<and> sa_stats t' = sa_stats t \<and> sa_connected t'"
proof -
  let ?ep = "sa_endpoint t"
  let ?port = "if ep_port ?ep \<noteq> 0 then ep_port ?ep else kDefaultPort"
  obtain a b v w where
    1: "sa_call (probeReachable (recorded lib) (ep_host ?ep) ?port ms) t = (Inr a, v)" and
    2: "sa_call (noting (E_Create (ep_host ?ep) ?port (ep_user ?ep) (ep_password ?ep) (ep_realm ?ep))
         (sc_create lib (ep_host ?ep) ?port (ep_user ?ep) (ep_password ?ep) (ep_realm ?ep))) v = (Inr b, w)" and
    3: "t' = (sa_reset (recorded lib) w)\<lparr>sa_channel := True, sa_connected := True\<rparr>"
    using assms by (auto simp: openChannel_def Let_def sa_then_Inr)
  have tw: "told (openings ?ep) t w"
    using told_trans [OF told_probe [OF 1] told_call [OF 2]] by (simp add: openings_def Let_def)
  then show ?thesis
    by (cases "sa_world w")
      (simp add: 3 told_def sa_reset_def recorded_def noting_def sa_log_def)
qed

lemma ensureTopic_log:
  assumes "sa_ensureTopic (recorded lib) tp opts t = (Inr u, t')"
  shows "sa_log t' = sa_log t @ map E_Command (sa_declaring tp opts) \<and>
    sa_endpoint t' = sa_endpoint t \<and> sa_channel t' = sa_channel t \<and> sa_subscribed t' = sa_subscribed t \<and>
    sa_topicDeclared t' \<and> sa_topic t' = tp \<and> sa_topicOptions t' = opts \<and> sa_stats t' = sa_stats t \<and>
    sa_connected t' = sa_connected t"
proof -
  obtain a v where v: "sa_commands (recorded lib) (sa_declaring tp opts) t = (Inr a, v)"
    and t': "t' = v\<lparr>sa_topic := tp, sa_topicOptions := opts, sa_topicDeclared := True\<rparr>"
    using assms by (auto simp: sa_ensureTopic_def sa_then_Inr split: if_splits)
  show ?thesis using told_commands [OF v] by (simp add: t' told_def sa_log_def)
qed

lemma startConsuming_log:
  assumes "startConsuming (recorded lib) t = (Inr u, t')"
  shows "told [E_Consume (sa_topic t) sa_consume_request] t t'"
proof -
  obtain tag v where v: "sa_call (noting (E_Consume (sa_topic t) sa_consume_request)
      (sc_consume lib (sa_topic t) sa_consume_request)) t = (Inr tag, v)"
    and "t' = v\<lparr>sa_consumerTag := tag\<rparr>"
    using assms by (auto simp: startConsuming_def sa_then_Inr)
  with told_call [OF v] show ?thesis by (simp add: told_def sa_log_def)
qed

text \<open>A state on which a session was established, and the session that restoring it makes.\<close>

definition established ::
  "endpoint \<Rightarrow> topic \<Rightarrow> topic_options \<Rightarrow> (simple_event list \<times> 'w, 'h) simple_amqp \<Rightarrow> bool" where
  "established ep tp opts t \<longleftrightarrow> sa_endpoint t = ep \<and> sa_channel t \<and> sa_subscribed t \<and> sa_topicDeclared t \<and>
     sa_topic t = tp \<and> sa_topicOptions t = opts"

lemma sa_reset_log:
  "sa_channel t \<Longrightarrow> sa_log (sa_reset (recorded lib) t) = sa_log t @ [E_Drop] \<and>
     \<not> sa_channel (sa_reset (recorded lib) t) \<and> sa_endpoint (sa_reset (recorded lib) t) = sa_endpoint t \<and>
     sa_subscribed (sa_reset (recorded lib) t) = sa_subscribed t \<and>
     sa_topicDeclared (sa_reset (recorded lib) t) = sa_topicDeclared t \<and>
     sa_topic (sa_reset (recorded lib) t) = sa_topic t \<and>
     sa_topicOptions (sa_reset (recorded lib) t) = sa_topicOptions t"
  by (cases "sa_world t") (simp add: sa_reset_def sa_log_def recorded_def noting_def)

lemma sa_restore_log:
  assumes "established ep tp opts t" "sa_restore (recorded lib) t = (Inr u, t')"
  shows "sa_log t' = sa_log t @ E_Drop # first_session ep tp opts"
proof -
  let ?t = "sa_reset (recorded lib) t"
  note e = assms(1) [unfolded established_def]
  obtain a b v w where
    1: "openChannel (recorded lib) 5000 ?t = (Inr a, v)" and
    2: "(if sa_topicDeclared v then sa_ensureTopic (recorded lib) (sa_topic v) (sa_topicOptions v) v
         else (Inr (), v)) = (Inr b, w)" and
    3: "(if sa_subscribed w then startConsuming (recorded lib) w else (Inr (), w)) = (Inr u, t')"
    using assms(2) by (auto simp: sa_restore_def sa_then_Inr)
  have r: "sa_log ?t = sa_log t @ [E_Drop]" "sa_endpoint ?t = ep" "\<not> sa_channel ?t" "sa_subscribed ?t"
    "sa_topicDeclared ?t" "sa_topic ?t = tp" "sa_topicOptions ?t = opts"
    using sa_reset_log [of t lib] e by simp_all
  have v: "sa_log v = sa_log t @ E_Drop # openings ep" "sa_subscribed v" "sa_topicDeclared v"
    "sa_topic v = tp" "sa_topicOptions v = opts"
    using openChannel_log [OF 1] r by simp_all
  have w: "sa_log w = sa_log v @ map E_Command (sa_declaring tp opts)" "sa_subscribed w" "sa_topic w = tp"
    using ensureTopic_log [of lib tp opts v b w] 2 v by simp_all
  have "told [E_Consume tp sa_consume_request] w t'"
    using startConsuming_log [of lib w u t'] 3 w by simp
  with v(1) w(1) show ?thesis by (simp add: told_def first_session_def sa_consume_request_def)
qed

lemma sa_serviceReconnect_reconnected:
  assumes "sa_serviceReconnect lib t = (r, t')" "reconnects (sa_stats t') \<noteq> reconnects (sa_stats t)"
  shows "\<exists>now u v. sa_call (sc_now lib) t = (now, u) \<and>
    sa_restore lib (u\<lparr>sa_failedAttempts := sa_failedAttempts u + 1\<rparr>) = (Inr (), v) \<and>
    t' = sa_count (\<lambda>s. s\<lparr>reconnects := reconnects s + 1\<rparr>) (v\<lparr>sa_failedAttempts := 0\<rparr>)"
proof -
  obtain now u where 1: "sa_call (sc_now lib) t = (now, u)" by fastforce
  obtain x v where 2: "sa_restore lib (u\<lparr>sa_failedAttempts := sa_failedAttempts u + 1\<rparr>) = (x, v)" by fastforce
  obtain again w where 3: "sa_call (sc_now lib) v = (again, w)" by fastforce
  note k = sa_call_keeps [OF 1] sa_restore_keeps [OF 2] sa_call_keeps [OF 3]
  have "x = Inr () \<and> t' = sa_count (\<lambda>s. s\<lparr>reconnects := reconnects s + 1\<rparr>) (v\<lparr>sa_failedAttempts := 0\<rparr>)"
    using assms 1 2 3 k by (cases x) (auto simp: sa_serviceReconnect_def sa_kept_def split: if_splits)
  with 1 2 show ?thesis by blast
qed

lemma sa_perform_reconnects:
  "sa_perform lib tag d t = (r, t') \<Longrightarrow> reconnects (sa_stats t') = reconnects (sa_stats t)"
  by (cases d)
    (auto simp: sa_perform_def sa_then_def sa_call_def sa_count_def split: prod.splits sum.splits)

lemma sa_deliver_reconnects:
  "sa_deliver lib f d t h = (r, t', h') \<Longrightarrow> reconnects (sa_stats t') = reconnects (sa_stats t)"
  by (auto simp: sa_deliver_def Let_def sa_count_def split: prod.splits sum.splits
      dest!: sa_perform_reconnects)

text \<open>A pump that reconnects over an established session.\<close>

lemma sa_pump_restores:
  assumes "established ep tp opts t" "sa_ready t" "sa_pump (recorded lib) ms t h = (r, t', h')"
    and "reconnects (sa_stats t') \<noteq> reconnects (sa_stats t)"
  shows "sa_log t' = sa_log t @ E_Drop # first_session ep tp opts"
proof -
  obtain x u where x: "sa_call (passing (sc_receive lib (sa_consumerTag t) (ucast ms))) t = (x, u)" by fastforce
  note u = told_passing [OF x]
  have f: "sa_handler t \<noteq> None"
    using assms(2-4) by (cases "sa_handler t"; cases "sa_subscribed t") (auto simp: sa_pump_def)
  have "sa_serviceReconnect (recorded lib) (u\<lparr>sa_connected := False\<rparr>) = (r, t')"
    using assms u x f
    by (cases x) (auto simp: sa_pump_def Let_def sa_lost_def told_def established_def
        split: if_splits prod.splits option.splits dest!: sa_deliver_reconnects)
  then obtain now v w where
    v: "sa_call (passing (sc_now lib)) (u\<lparr>sa_connected := False\<rparr>) = (now, v)" and
    w: "sa_restore (recorded lib) (v\<lparr>sa_failedAttempts := sa_failedAttempts v + 1\<rparr>) = (Inr (), w)" and
    t': "t' = sa_count (\<lambda>s. s\<lparr>reconnects := reconnects s + 1\<rparr>) (w\<lparr>sa_failedAttempts := 0\<rparr>)"
    using assms(4) u by (auto simp: told_def dest!: sa_serviceReconnect_reconnected)
  have "established ep tp opts (v\<lparr>sa_failedAttempts := sa_failedAttempts v + 1\<rparr>)"
    using assms(1) u told_passing [OF v] by (simp add: told_def established_def)
  from sa_restore_log [OF this w] u told_passing [OF v] show ?thesis
    by (simp add: t' sa_count_def told_def sa_log_def)
qed

section \<open>A small session\<close>

text \<open>The small library loses its connection in the first receive.\<close>

definition small_endpoint :: endpoint where
  "small_endpoint = default_endpoint\<lparr>ep_host := ''127.0.0.1''\<rparr>"

definition small_connected :: "(simple_event list \<times> delivery option result list, nat) simple_amqp" where
  "small_connected = snd (sa_connect (recorded steady_client) small_endpoint 1000 (simple_amqp_new ([], [Inl (Runtime_Error ''gone'')])))"

definition small_declared :: "(simple_event list \<times> delivery option result list, nat) simple_amqp" where
  "small_declared = snd (sa_ensureTopic (recorded steady_client) ''a'' default_topic_options small_connected)"

definition small_handler :: "nat delivery_handler" where
  "small_handler d n = (Inr Ack, n + 1)"

definition small_subscribed :: "(simple_event list \<times> delivery option result list, nat) simple_amqp" where
  "small_subscribed = snd (sa_subscribe (recorded steady_client) ''a'' (Some small_handler) small_declared)"

lemma small_steps:
  "sa_connect (recorded steady_client) small_endpoint 1000 (simple_amqp_new ([], [Inl (Runtime_Error ''gone'')])) = (Inr (), small_connected)"
  "sa_ensureTopic (recorded steady_client) ''a'' default_topic_options small_connected = (Inr (), small_declared)"
  "sa_subscribe (recorded steady_client) ''a'' (Some small_handler) small_declared = (Inr (), small_subscribed)"
  unfolding small_connected_def small_declared_def small_subscribed_def by (rule returned, code_simp)+

section \<open>Properties\<close>

text \<open>
  C15: a reconnection repeats the session. Whatever the library and the broker do: if connecting,
  declaring a topic and subscribing to it succeeded, and a later pump finds the connection lost
  and reconnects, then the pump drops the channel and tells the library exactly what the first
  connection told it, in the same order: the same broker, the same credentials, the same
  declarations with the same options, and a consumer with prefetch 1 on the same topic.
\<close>

theorem sa_reconnect_repeats_session:
  assumes "sa_connect (recorded lib) ep ms (simple_amqp_new ([], w)) = (Inr (), t1)"
    and "sa_ensureTopic (recorded lib) tp opts t1 = (Inr (), t2)"
    and "sa_subscribe (recorded lib) tp handler t2 = (Inr (), t3)"
    and "sa_pump (recorded lib) bound (sa_setReconnectPolicy policy t3) h = (r, t4, h')"
    and "reconnects (sa_stats t4) = 1"
  shows "sa_log t4 = sa_log t3 @ E_Drop # sa_log t3 \<and> sa_log t3 = first_session ep tp opts"
proof -
  have 1: "sa_log t1 = openings ep" "sa_endpoint t1 = ep" "sa_channel t1" "sa_connected t1" "sa_stats t1 = no_stats"
    using openChannel_log [OF assms(1) [unfolded sa_connect_def]]
    by (simp_all add: simple_amqp_new_def sa_log_def)
  note 2 = ensureTopic_log [OF assms(2)]
  obtain t2' where "startConsuming (recorded lib) (t2\<lparr>sa_handler := handler, sa_topic := tp\<rparr>) = (Inr (), t2')"
    and t3: "t3 = t2'\<lparr>sa_subscribed := True\<rparr>"
    using assms(3) by (auto simp: sa_subscribe_def sa_then_Inr split: if_splits)
  note 3 = startConsuming_log [OF this(1)]
  have log: "sa_log t3 = first_session ep tp opts"
    using 1 2 3 by (simp add: t3 told_def first_session_def sa_consume_request_def sa_log_def)
  have "established ep tp opts (sa_setReconnectPolicy policy t3)" "sa_ready (sa_setReconnectPolicy policy t3)"
    using 1 2 3 by (simp_all add: t3 told_def established_def sa_setReconnectPolicy_def sa_ready_def)
  from sa_pump_restores [OF this assms(4)] assms(5) 1 2 3 log show ?thesis
    by (simp add: t3 told_def sa_setReconnectPolicy_def sa_log_def no_stats_def)
qed

lemma sa_reconnect_repeats_session_witness:
  "sa_log (fst (snd (sa_pump (recorded steady_client) 250
       (sa_setReconnectPolicy small_policy small_subscribed) 0))) =
     sa_log small_subscribed @ E_Drop # sa_log small_subscribed \<and>
   sa_log small_subscribed = first_session small_endpoint ''a'' default_topic_options"
proof (rule sa_reconnect_repeats_session)
  show "sa_pump (recorded steady_client) 250 (sa_setReconnectPolicy small_policy small_subscribed) 0 =
      (fst (sa_pump (recorded steady_client) 250 (sa_setReconnectPolicy small_policy small_subscribed) 0),
       fst (snd (sa_pump (recorded steady_client) 250 (sa_setReconnectPolicy small_policy small_subscribed) 0)),
       snd (snd (sa_pump (recorded steady_client) 250 (sa_setReconnectPolicy small_policy small_subscribed) 0)))"
    by simp
qed (rule small_steps | code_simp)+

text \<open>
  A depth reading repeats the declaration that was made. After a topic without the forensic
  prefix was declared last, whatever the library does, reading the depth of any queue of that
  declaration, the topic or its forensic queue, declares it with the same durability, exclusivity,
  deletion and arguments, so that the broker finds no conflict.
\<close>

theorem sa_depth_repeats_declaration:
  assumes "sa_ensureTopic (recorded lib) tp opts t = (Inr (), t1)"
    and "take (length kDeadLetterPrefix) tp \<noteq> kDeadLetterPrefix"
    and "Sc_Declare_Queue q qd \<in> set (sa_declaring tp opts)"
    and "sa_topicDepth (recorded lib) q t1 = (r, t2)"
  shows "sa_log t1 = sa_log t @ map E_Command (sa_declaring tp opts) \<and>
    sa_log t2 = sa_log t1 @ [E_Counts q qd]"
proof -
  note 1 = ensureTopic_log [OF assms(1)]
  have "sa_declaration q (sa_depth_options q t1) = qd"
    using assms(2,3) 1 by (auto simp: sa_declaring_def sa_depth_options_def deadLetterTopic_def split: if_splits)
  moreover have "sa_channel t1" using assms(1) 1 by (auto simp: sa_ensureTopic_def split: if_splits)
  ultimately show ?thesis
    using assms(4) 1 by (auto simp: sa_topicDepth_def told_def dest!: told_call)
qed

lemma sa_depth_repeats_declaration_witness:
  "last (sa_log (snd (sa_topicDepth (recorded steady_client) (deadLetterTopic ''a'') small_declared))) =
     E_Counts (deadLetterTopic ''a'') (sa_declaration (deadLetterTopic ''a'') (forensicTopicOptions ''a''))"
proof -
  have "sa_log small_declared = sa_log small_connected @
        map E_Command (sa_declaring ''a'' default_topic_options) \<and>
      sa_log (snd (sa_topicDepth (recorded steady_client) (deadLetterTopic ''a'') small_declared)) =
        sa_log small_declared @ [E_Counts (deadLetterTopic ''a'')
          (sa_declaration (deadLetterTopic ''a'') (forensicTopicOptions ''a''))]"
    by (rule sa_depth_repeats_declaration [OF small_steps(2) _ _ prod.collapse [symmetric]]) code_simp+
  then show ?thesis by simp
qed

text \<open>
  A depth reading forgets the declarations before the last. After a bounded topic and then
  another topic were declared on one transport, reading the depth of the first declares it again
  with other arguments than it was created with, which a broker refuses as a conflict.
\<close>

theorem sa_depth_forgets_earlier_topics:
  assumes "sa_ensureTopic (recorded lib) a opts t = (Inr (), t1)" "maxLength opts \<noteq> 0"
    and "sa_ensureTopic (recorded lib) b opts' t1 = (Inr (), t2)" "b \<noteq> a"
    and "take (length kDeadLetterPrefix) a \<noteq> kDeadLetterPrefix"
    and "sa_topicDepth (recorded lib) a t2 = (Inr n, t3)"
  shows "\<exists>qd qd'. E_Command (Sc_Declare_Queue a qd) \<in> set (sa_log t1) \<and>
    last (sa_log t3) = E_Counts a qd' \<and> qd_arguments qd' \<noteq> qd_arguments qd"
proof -
  note 1 = ensureTopic_log [OF assms(1)] and 2 = ensureTopic_log [OF assms(3)]
  have "last (sa_log t3) = E_Counts a (sa_declaration a default_topic_options)"
    using assms(4-6) 2 by (auto simp: sa_topicDepth_def sa_depth_options_def told_def dest!: told_call split: if_splits)
  moreover have "E_Command (Sc_Declare_Queue a (sa_declaration a opts)) \<in> set (sa_log t1)"
    using 1 by (simp add: sa_declaring_def)
  moreover have "qd_arguments (sa_declaration a default_topic_options) \<noteq> qd_arguments (sa_declaration a opts)"
    using assms(2) by (simp add: sa_declaration_def queueArguments_def default_topic_options_def word_gt_0)
  ultimately show ?thesis by blast
qed

lemma sa_depth_forgets_earlier_topics_witness:
  "let bounded = default_topic_options\<lparr>maxLength := 10\<rparr>;
       t1 = snd (sa_ensureTopic (recorded steady_client) ''a'' bounded small_connected);
       t2 = snd (sa_ensureTopic (recorded steady_client) ''b'' default_topic_options t1);
       t3 = snd (sa_topicDepth (recorded steady_client) ''a'' t2) in
     \<exists>qd qd'. E_Command (Sc_Declare_Queue ''a'' qd) \<in> set (sa_log t1) \<and>
       last (sa_log t3) = E_Counts ''a'' qd' \<and> qd_arguments qd' \<noteq> qd_arguments qd"
  unfolding Let_def
  by (rule sa_depth_forgets_earlier_topics [OF returned _ returned _ _ returned [where a = "Inr 7"]]) code_simp+

text \<open>
  A declaration takes over the subscription. After a transport that consumes one topic declared
  another, a reconnection consumes the topic declared last: \<open>ensureTopic\<close> overwrites the topic that
  \<open>subscribe\<close> stored.
\<close>

lemma sa_reconnect_consumes_last_declared:
  assumes "established ep a opts t" "sa_ready t"
    and "sa_ensureTopic (recorded lib) b opts' t = (Inr (), t1)"
    and "sa_pump (recorded lib) ms (sa_setReconnectPolicy policy t1) h = (r, t2, h')"
    and "reconnects (sa_stats t2) \<noteq> reconnects (sa_stats t)"
  shows "last (sa_log t2) = E_Consume b sa_consume_request"
proof -
  note 1 = ensureTopic_log [OF assms(3)]
  have "established ep b opts' (sa_setReconnectPolicy policy t1)" "sa_ready (sa_setReconnectPolicy policy t1)"
    using 1 assms(1,2) by (simp_all add: established_def sa_setReconnectPolicy_def sa_ready_def)
  from sa_pump_restores [OF this assms(4)] assms(5) 1 show ?thesis
    by (simp add: sa_setReconnectPolicy_def first_session_def sa_consume_request_def)
qed

lemma sa_reconnect_consumes_last_declared_witness:
  "let t = sa_setReconnectPolicy small_policy
         (snd (sa_ensureTopic (recorded steady_client) ''b'' default_topic_options small_subscribed)) in
     last (sa_log (fst (snd (sa_pump (recorded steady_client) 250 t 0)))) = E_Consume ''b'' sa_consume_request"
proof -
  let ?t1 = "snd (sa_ensureTopic (recorded steady_client) ''b'' default_topic_options small_subscribed)"
  let ?p = "sa_pump (recorded steady_client) 250 (sa_setReconnectPolicy small_policy ?t1) 0"
  have "established small_endpoint ''a'' default_topic_options small_subscribed" "sa_ready small_subscribed"
    unfolding established_def by code_simp+
  moreover have "sa_ensureTopic (recorded steady_client) ''b'' default_topic_options small_subscribed = (Inr (), ?t1)"
    by (rule returned, code_simp)
  moreover have "?p = (fst ?p, fst (snd ?p), snd (snd ?p))" by simp
  moreover have "reconnects (sa_stats (fst (snd ?p))) \<noteq> reconnects (sa_stats small_subscribed)" by code_simp
  ultimately show ?thesis unfolding Let_def by (rule sa_reconnect_consumes_last_declared)
qed

end
