(* ===== verification/Simple_Amqp_Clients.thy ===== *)
theory Simple_Amqp_Clients
  imports Simple_Amqp_Props Conveyance
begin

text \<open>
  A producer and a consumer on the SimpleAmqpClient backend, each with a connection and a client
  library of its own to one broker. What AMQP 0-9-1 promises about queues is stated over an
  abstract view of the broker, and the interface of theory Conveyance is interpreted over it.
\<close>

section \<open>What the broker promises\<close>

text \<open>
  The messages that are ready in each queue that exists, and for each consumer of the receiving
  channel the queue it consumes and the delivery it has not acknowledged.
\<close>

record amqp_view =
  av_ready :: "topic \<Rightarrow> string list option"
  av_consumers :: "string \<Rightarrow> topic option"
  av_unacked :: "string \<Rightarrow> nat option"

text \<open>
  A message published to the default exchange with the name of a queue is appended to that queue;
  a consumer with nothing unacknowledged receives the first ready message of its queue, under a
  tag that no other delivery of the channel has; acknowledging that tag leaves the consumer with
  nothing unacknowledged.
\<close>

definition queueing :: "'w simple_client \<Rightarrow> 'w simple_client \<Rightarrow> ('w \<Rightarrow> amqp_view) \<Rightarrow> bool" where
  "queueing plib clib view \<longleftrightarrow>
     (\<forall>w tp ms body d. av_ready (view w) tp = Some ms \<longrightarrow>
        (\<exists>w'. sc_command plib (Sc_Publish [] tp body d) w = (Inr (), w') \<and>
           view w' = (view w)\<lparr>av_ready := (av_ready (view w))(tp \<mapsto> ms @ [body])\<rparr>)) \<and>
     (\<forall>w ct tp body rest i. av_consumers (view w) ct = Some tp \<and> av_unacked (view w) ct = None \<and>
        av_ready (view w) tp = Some (body # rest) \<longrightarrow>
        (\<exists>n r w'. n \<notin> ran (av_unacked (view w)) \<and>
           sc_receive clib ct i w = (Inr (Some \<lparr>d_body = body, d_redelivered = r, d_tag = n\<rparr>), w') \<and>
           view w' = (view w)\<lparr>av_ready := (av_ready (view w))(tp \<mapsto> rest),
                             av_unacked := (av_unacked (view w))(ct \<mapsto> n)\<rparr>)) \<and>
     (\<forall>w ct n. av_unacked (view w) ct = Some n \<and> n \<notin> ran ((av_unacked (view w))(ct := None)) \<longrightarrow>
        (\<exists>w'. sc_command clib (Sc_Ack n) w = (Inr (), w') \<and>
           view w' = (view w)\<lparr>av_unacked := (av_unacked (view w))(ct := None)\<rparr>))"

definition sa_sender ::
  "'w simple_client \<Rightarrow> 'w simple_client \<Rightarrow> ('w \<Rightarrow> amqp_view) \<Rightarrow> topic \<Rightarrow> send_options
     \<Rightarrow> ('w, 'g) simple_amqp \<Rightarrow> bool" where
  "sa_sender plib clib view tp so s \<longleftrightarrow> queueing plib clib view \<and> sa_channel s \<and> \<not> so_confirm so \<and>
     av_ready (view (sa_world s)) tp \<noteq> None"

definition sa_receiver ::
  "'w simple_client \<Rightarrow> 'w simple_client \<Rightarrow> ('w \<Rightarrow> amqp_view) \<Rightarrow> topic \<Rightarrow> 'h delivery_handler
     \<Rightarrow> ('w, 'h) simple_amqp \<Rightarrow> bool" where
  "sa_receiver plib clib view tp f t \<longleftrightarrow> queueing plib clib view \<and> sa_ready t \<and> sa_subscribed t \<and>
     sa_handler t = Some f \<and> av_consumers (view (sa_world t)) (sa_consumerTag t) = Some tp \<and>
     av_unacked (view (sa_world t)) (sa_consumerTag t) = None \<and> av_ready (view (sa_world t)) tp \<noteq> None"

definition sa_waiting :: "('w \<Rightarrow> amqp_view) \<Rightarrow> topic \<Rightarrow> ('w, 'h) simple_amqp \<Rightarrow> string list" where
  "sa_waiting view tp t = (case av_ready (view (sa_world t)) tp of None \<Rightarrow> [] | Some ms \<Rightarrow> ms)"

lemma sa_send_conveys:
  assumes "sa_sender plib clib view tp so s"
  shows "\<exists>s'. it_send (simple_transport plib) tp body so s = (Inr True, s') \<and>
    sa_sender plib clib view tp so s' \<and>
    (\<forall>f t. sa_receiver plib clib view tp f (t\<lparr>sa_world := sa_world s\<rparr>) \<longrightarrow>
       sa_receiver plib clib view tp f (t\<lparr>sa_world := sa_world s'\<rparr>) \<and>
       sa_waiting view tp (t\<lparr>sa_world := sa_world s'\<rparr>) = sa_waiting view tp (t\<lparr>sa_world := sa_world s\<rparr>) @ [body])"
proof -
  obtain ms where ms: "av_ready (view (sa_world s)) tp = Some ms" using assms by (auto simp: sa_sender_def)
  then obtain w' where w': "sc_command plib (Sc_Publish [] tp body (so_durable so)) (sa_world s) = (Inr (), w')"
    "view w' = (view (sa_world s))\<lparr>av_ready := (av_ready (view (sa_world s)))(tp \<mapsto> ms @ [body])\<rparr>"
    using assms unfolding sa_sender_def queueing_def by metis
  let ?s = "sa_count (\<lambda>st. st\<lparr>sent := sent st + 1, bytesSent := bytesSent st + length body\<rparr>) (s\<lparr>sa_world := w'\<rparr>)"
  have "it_send (simple_transport plib) tp body so s = (Inr True, ?s)"
    using assms w'(1) by (simp add: simple_transport_def sa_send_def sa_sender_def sa_call_def sa_then_def)
  moreover have "sa_sender plib clib view tp so ?s" using assms w'(2) by (simp add: sa_sender_def sa_count_def)
  ultimately show ?thesis
    using ms w'(2) by (intro exI [of _ ?s]) (simp add: sa_receiver_def sa_waiting_def sa_ready_def sa_count_def)
qed

lemma sa_pump_conveys:
  assumes "sa_receiver plib clib view tp f t" "sa_waiting view tp t = body # rest"
    and "\<And>d. d_body d = body \<Longrightarrow> f d h = (Inr Ack, h')"
  shows "\<exists>t'. it_pump (simple_transport clib) bound t h = (Inr True, t', h') \<and>
    sa_receiver plib clib view tp f t' \<and> sa_waiting view tp t' = rest"
proof -
  let ?ct = "sa_consumerTag t" and ?w = "sa_world t"
  have v: "av_consumers (view ?w) ?ct = Some tp" "av_unacked (view ?w) ?ct = None"
    "av_ready (view ?w) tp = Some (body # rest)"
    using assms(1,2) by (auto simp: sa_receiver_def sa_waiting_def)
  then obtain n r w1 where n: "n \<notin> ran (av_unacked (view ?w))" and w1:
    "sc_receive clib ?ct (ucast bound) ?w = (Inr (Some \<lparr>d_body = body, d_redelivered = r, d_tag = n\<rparr>), w1)"
    "view w1 = (view ?w)\<lparr>av_ready := (av_ready (view ?w))(tp \<mapsto> rest), av_unacked := (av_unacked (view ?w))(?ct \<mapsto> n)\<rparr>"
    using assms(1) unfolding sa_receiver_def queueing_def by metis
  have "av_unacked (view w1) ?ct = Some n" "n \<notin> ran ((av_unacked (view w1))(?ct := None))"
    using n w1(2) v(2) by (auto simp: ran_def)
  then obtain w2 where w2: "sc_command clib (Sc_Ack n) w1 = (Inr (), w2)"
    "view w2 = (view w1)\<lparr>av_unacked := (av_unacked (view w1))(?ct := None)\<rparr>"
    using assms(1) unfolding sa_receiver_def queueing_def by metis
  have "f \<lparr>d_body = body, d_redelivered = r, d_tag = n\<rparr> h = (Inr Ack, h')" by (rule assms(3)) simp
  with assms(1) v w1 w2 show ?thesis
    by (simp add: sa_receiver_def sa_waiting_def sa_pump_def sa_call_def sa_deliver_def sa_perform_def
        sa_then_def sa_count_def sa_ready_def)
qed

interpretation sa_conveys: conveying "simple_transport plib" "simple_transport clib" bound
    "sa_sender plib clib view" "sa_receiver plib clib view" "\<lambda>s t. t\<lparr>sa_world := sa_world s\<rparr>" "sa_waiting view"
  for plib clib :: "'w simple_client" and view bound
  by unfold_locales (blast intro: sa_send_conveys, rule sa_pump_conveys)

section \<open>Properties\<close>

text \<open>
  C2: end to end over the SimpleAmqpClient backend: if the broker keeps its promises about queues,
  the messages a producer publishes to an empty queue reach the handler of a consumer on another
  connection decoded, each exactly once and in the order of publication, are all acknowledged,
  and leave the queue empty.
\<close>

theorem sa_end_to_end:
  assumes "queueing plib clib view" "sa_channel s" "\<not> so_confirm (prod_options p)"
    and "sa_ready t" "sa_subscribed t" "sa_handler t = Some (consumer_deliver caps)"
    and "av_consumers (view (sa_world s)) (sa_consumerTag t) = Some tp"
    and "av_unacked (view (sa_world s)) (sa_consumerTag t) = None"
    and "av_ready (view (sa_world s)) tp = Some []" "list_all encodable ms"
    and "con_handlers c = recorder" "con_settlements c = None"
    and "publish_all (simple_transport plib) serialize tp ms p s = (p', s')"
    and "poll_all (simple_transport clib) (replicate (length ms) ([], bound)) c (t\<lparr>sa_world := sa_world s'\<rparr>) = (c', t')"
  shows "con_user c' = con_user c @ ms \<and> con_acked c' = con_acked c + length ms \<and>
    prod_published p' = prod_published p + length ms \<and> sa_waiting view tp t' = []"
proof -
  have "sa_sender plib clib view tp (prod_options p) s"
    "sa_receiver plib clib view tp (consumer_deliver caps) (t\<lparr>sa_world := sa_world s\<rparr>)"
    "sa_waiting view tp (t\<lparr>sa_world := sa_world s\<rparr>) = []"
    using assms(1-9) by (simp_all add: sa_sender_def sa_receiver_def sa_waiting_def sa_ready_def)
  from sa_conveys.end_to_end [OF this assms(10-14)] show ?thesis .
qed

text \<open>
  A broker with one consumer, of the queue \<open>t\<close>, that keeps its promises: the state is what is ready
  and the number of the delivery that is out, if any.
\<close>

definition one_consumer :: "(topic \<Rightarrow> string list option) \<times> nat option \<Rightarrow> amqp_view" where
  "one_consumer w = \<lparr>av_ready = fst w, av_consumers = [''tag'' \<mapsto> ''t''],
     av_unacked = (case snd w of None \<Rightarrow> \<lambda>_. None | Some n \<Rightarrow> [''tag'' \<mapsto> n])\<rparr>"

definition queueing_library :: "((topic \<Rightarrow> string list option) \<times> nat option) simple_client" where
  "queueing_library =
     \<lparr>sc_literal = (\<lambda>_. True), sc_resolve = (\<lambda>_ _ w. (None, w)), sc_probe = (\<lambda>_ _ _ w. (Probe_Connected, w)),
      sc_create = (\<lambda>_ _ _ _ _ w. (Inr (), w)), sc_drop = id,
      sc_command = (\<lambda>c (r, out). case c of
         Sc_Publish x tp body d \<Rightarrow>
           (Inr (), case r tp of None \<Rightarrow> (r, out) | Some ms \<Rightarrow> (r(tp \<mapsto> ms @ [body]), out))
       | Sc_Ack n \<Rightarrow> (Inr (), (r, if out = Some n then None else out))
       | _ \<Rightarrow> (Inr (), (r, out))),
      sc_counts = (\<lambda>_ _ w. (Inr 0, w)), sc_consume = (\<lambda>tp _ w. (Inr ''tag'', w)),
      sc_receive = (\<lambda>ct _ (r, out).
         if ct = ''tag'' \<and> out = None then
           (case r ''t'' of
              Some (body # rest) \<Rightarrow>
                (Inr (Some \<lparr>d_body = body, d_redelivered = False, d_tag = 1\<rparr>), (r(''t'' \<mapsto> rest), Some 1))
            | _ \<Rightarrow> (Inr None, (r, out)))
         else (Inr None, (r, out))),
      sc_now = (\<lambda>w. (0, w))\<rparr>"

lemma queueing_small: "queueing queueing_library queueing_library one_consumer"
  unfolding queueing_def
  by (auto simp: queueing_library_def one_consumer_def split: if_splits option.splits)

definition small_sending :: "((topic \<Rightarrow> string list option) \<times> nat option, byte_message list consumer) simple_amqp" where
  "small_sending = (simple_amqp_new ([''t'' \<mapsto> []], None))\<lparr>sa_channel := True, sa_connected := True\<rparr>"

definition small_polling :: "((topic \<Rightarrow> string list option) \<times> nat option, byte_message list consumer) simple_amqp" where
  "small_polling = small_sending\<lparr>sa_subscribed := True, sa_consumerTag := ''tag'',
     sa_handler := Some (consumer_deliver sa_capabilities)\<rparr>"

lemma sa_end_to_end_witness:
  "\<exists>p' s' c' t'.
     publish_all (simple_transport queueing_library) serialize ''t'' [\<lparr>payload = ''a''\<rparr>, \<lparr>payload = ''b''\<rparr>]
       \<lparr>prod_options = default_send_options, prod_published = 0\<rparr> small_sending = (p', s') \<and>
     poll_all (simple_transport queueing_library) (replicate (length [\<lparr>payload = ''a''\<rparr>, \<lparr>payload = ''b''\<rparr>]) ([], 250))
       (small_consumer recorder []) (small_polling\<lparr>sa_world := sa_world s'\<rparr>) = (c', t') \<and>
     con_user c' = [\<lparr>payload = ''a''\<rparr>, \<lparr>payload = ''b''\<rparr>]"
proof -
  let ?ms = "[\<lparr>payload = ''a''\<rparr>, \<lparr>payload = ''b''\<rparr>]" and ?p = "\<lparr>prod_options = default_send_options, prod_published = 0\<rparr>"
  obtain p' s' where p: "publish_all (simple_transport queueing_library) serialize ''t'' ?ms ?p small_sending = (p', s')"
    by fastforce
  obtain c' t' where c: "poll_all (simple_transport queueing_library) (replicate (length ?ms) ([], 250))
      (small_consumer recorder []) (small_polling\<lparr>sa_world := sa_world s'\<rparr>) = (c', t')" by fastforce
  have "list_all encodable ?ms" by (simp add: encodable_def byteCount_def MAX_PAYLOAD_BYTES_def)
  from sa_end_to_end [OF queueing_small _ _ _ _ _ _ _ _ this _ _ p c, of sa_capabilities]
  have "con_user c' = ?ms"
    by (simp add: small_sending_def small_polling_def simple_amqp_new_def default_send_options_def
        sa_ready_def one_consumer_def)
  with p c show ?thesis by blast
qed

end
