(* ===== verification/Simple_Amqp_Resolution.thy ===== *)
theory Simple_Amqp_Resolution
  imports Simple_Amqp_Props
begin

text \<open>
  What the constructor of \<open>Consumer\<close> guards on the SimpleAmqpClient backend, whose \<open>pump\<close> does nothing
  about a deferred delivery and whose \<open>settle\<close> only throws: a consumer that could be constructed
  there leaves no delivery unresolved except where the library throws on its disposition.
\<close>

section \<open>Nothing stays unresolved\<close>

text \<open>Deliveries received that were neither performed nor given up by a throwing handler.\<close>

definition unresolved :: "stats \<Rightarrow> int" where
  "unresolved s = int (received s) - int (acksPerformed s + rejectsPerformed s + requeuesPerformed s + abandoned s)"

lemma unresolved_eq:
  "performed s' = performed s \<Longrightarrow> tried s' = tried s \<Longrightarrow> unresolved s' = unresolved s"
  by (simp add: unresolved_def performed_def tried_def)

lemma unresolved_outcome:
  assumes "outcome \<noteq> Inr Deferred"
    and "tried s' = (received s + 1, abandoned s + (case outcome of Inl _ \<Rightarrow> 1 | Inr _ \<Rightarrow> 0))"
  shows "performed s' = tally outcome (performed s) \<Longrightarrow> unresolved s' = unresolved s"
    and "performed s' = performed s \<Longrightarrow> outcome = Inr d \<Longrightarrow> unresolved s' = unresolved s + 1"
  using assms
  by (cases outcome; cases "projr outcome"; simp add: unresolved_def performed_def tried_def)+

lemma caught_not_deferred: "caught e redelivered = Inr y \<Longrightarrow> dr_disposition y \<noteq> Deferred"
  by (cases e) (auto simp: classifyTransient_def split: if_splits)

lemma dispatch_plain:
  assumes "onDeferred hs = None" "dispatch body hs redelivered n u = (Inr y, u')"
  shows "dr_disposition y \<noteq> Deferred"
  using assms caught_not_deferred [of _ redelivered y]
  by (auto simp: dispatch_def decode_eq split: sum.splits option.splits prod.splits)

lemma plain_never_defers:
  assumes "onDeferred (con_handlers c) = None" "consumer_deliver caps d c = (outcome, c')"
  shows "outcome \<noteq> Inr Deferred \<and> con_handlers c' = con_handlers c \<and> con_deferred c' = con_deferred c"
proof -
  obtain x u where x: "dispatch (d_body d) (con_handlers c) (d_redelivered d) (d_tag d) (con_user c) = (x, u)"
    by fastforce
  have "dr_disposition y \<noteq> Deferred" if "x = Inr y" for y
    using dispatch_plain [OF assms(1)] x that by auto
  with assms x show ?thesis
    by (auto simp: consumer_deliver_def Let_def split: sum.splits disposition.splits if_splits)
qed

text \<open>
  The state of a consumer without a deferred handler and of the transport it polls: no delivery
  was deferred, and at most \<open>n\<close> became unresolved.
\<close>

definition plainly ::
  "capabilities \<Rightarrow> nat \<Rightarrow> int \<Rightarrow> nat \<Rightarrow> 'u consumer \<Rightarrow> ('w, 'u consumer) simple_amqp \<Rightarrow> bool" where
  "plainly caps m k n c t \<longleftrightarrow> sa_handler t = Some (consumer_deliver caps) \<and>
     onDeferred (con_handlers c) = None \<and> con_deferred c = m \<and>
     k \<le> unresolved (sa_stats t) \<and> unresolved (sa_stats t) \<le> k + int n"

lemma pump_plainly:
  assumes "plainly caps m k n c t" "sa_pump lib ms t c = (r, t', c')"
  shows "plainly caps m k (n + (if isl r then 1 else 0)) c' t'"
proof -
  have f: "sa_handler t = Some (consumer_deliver caps)" using assms(1) by (simp add: plainly_def)
  show ?thesis
    using sa_pump_cases [OF f assms(2)]
  proof (elim disjE exE conjE)
    fix u d
    assume u: "sa_kept t u" "sa_deliver lib (consumer_deliver caps) d u c = (r, t', c')"
    from sa_deliver_outcome [OF u(2)] obtain outcome where o:
      "consumer_deliver caps d c = (outcome, c')" "sa_handler t' = sa_handler u"
      "tried (sa_stats t') =
        (received (sa_stats u) + 1, abandoned (sa_stats u) + (case outcome of Inl _ \<Rightarrow> 1 | Inr _ \<Rightarrow> 0))"
      "performed (sa_stats t') = tally outcome (performed (sa_stats u)) \<or>
        isl r \<and> performed (sa_stats t') = performed (sa_stats u) \<and> (\<exists>dis. outcome = Inr dis)" by blast
    have plain: "outcome \<noteq> Inr Deferred" "con_handlers c' = con_handlers c" "con_deferred c' = con_deferred c"
      using plain_never_defers [OF _ o(1)] assms(1) by (simp_all add: plainly_def)
    have same: "unresolved (sa_stats u) = unresolved (sa_stats t)" "sa_handler u = sa_handler t"
      using u(1) unresolved_eq [of "sa_stats u" "sa_stats t"] by (simp_all add: sa_kept_def)
    have "unresolved (sa_stats t') = unresolved (sa_stats u) \<or>
        isl r \<and> unresolved (sa_stats t') = unresolved (sa_stats u) + 1"
      using o(4) unresolved_outcome [OF plain(1) o(3)] by blast
    with assms(1) plain same o(2) show ?thesis by (auto simp: plainly_def)
  next
    assume "c' = c" "sa_handler t' = sa_handler t" "performed (sa_stats t') = performed (sa_stats t)"
      "tried (sa_stats t') = tried (sa_stats t)"
    with assms(1) unresolved_eq [of "sa_stats t'" "sa_stats t"] show ?thesis by (simp add: plainly_def)
  qed
qed

lemma poll_plainly:
  assumes "plainly caps m k n c t" "consumer_poll (simple_transport lib) arrivals ms c t = (r, c', t')"
  shows "plainly caps m k (n + (if isl r then 1 else 0)) c' t'"
  using assms(2)
proof (cases rule: sa_poll_pump)
  case (2 c1)
  then have "plainly caps m k n c1 t" using assms(1) by (simp add: plainly_def)
  then show ?thesis using 2(4) by (rule pump_plainly)
qed (use assms(1) in \<open>auto simp: plainly_def\<close>)

lemma polls_plainly:
  "plainly caps m k n c t \<Longrightarrow> poll_all (simple_transport lib) polls c t = (c', t') \<Longrightarrow>
     plainly caps m k (n + failed_polls (simple_transport lib) polls c t) c' t'"
proof (induction polls arbitrary: c t n)
  case (Cons p polls)
  obtain arrivals ms where p: "p = (arrivals, ms)" by fastforce
  obtain r c1 t1 where 1: "consumer_poll (simple_transport lib) arrivals ms c t = (r, c1, t1)"
    by (metis prod_cases3)
  from Cons.IH [OF poll_plainly [OF Cons.prems(1) 1]] Cons.prems(2) p 1 show ?case by (simp add: add.assoc)
qed simp

section \<open>Properties\<close>

text \<open>
  C19: a consumer that could be constructed for the SimpleAmqpClient backend does not leave a
  delivery hanging by itself. Over any sequence of polls, lost connections and throwing calls of the
  library included, none was deferred, which this backend could not settle; and of the deliveries
  its transport received, all were acknowledged, rejected or returned, or their handler threw what
  no catch clause takes, but for at most one for each poll that threw: where the library throws on
  a disposition, that delivery stays unresolved. The constructor's check of the capabilities is
  what ensures it.
\<close>

theorem sa_resolves_deliveries:
  assumes "consumer_new sa_capabilities handlers u = Inr c0" "con_handlers c = handlers"
    and "sa_handler t = Some (consumer_deliver sa_capabilities)"
    and "poll_all (simple_transport lib) polls c t = (c', t')"
  shows "unresolved (sa_stats t) \<le> unresolved (sa_stats t') \<and>
    unresolved (sa_stats t') \<le> unresolved (sa_stats t) + int (failed_polls (simple_transport lib) polls c t) \<and>
    con_deferred c' = con_deferred c"
proof -
  have "onDeferred (con_handlers c) = None"
    using assms(1,2) by (auto simp: consumer_new_def sa_capabilities_def split: if_splits)
  then have "plainly sa_capabilities (con_deferred c) (unresolved (sa_stats t)) 0 c t"
    using assms(3) by (simp add: plainly_def)
  from polls_plainly [OF this assms(4)] show ?thesis by (simp add: plainly_def)
qed

text \<open>A delivery whose body is no message, and one that is acknowledged.\<close>

definition two_deliveries :: "delivery option result list" where
  "two_deliveries =
     [Inr (Some \<lparr>d_body = ''noise'', d_redelivered = False, d_tag = 1\<rparr>),
      Inr (Some \<lparr>d_body = ''motus:1:hi'', d_redelivered = False, d_tag = 2\<rparr>)]"

definition polling :: "(delivery option result list, nat consumer) simple_amqp" where
  "polling = small_receiving\<lparr>sa_world := two_deliveries\<rparr>"

definition counting :: "nat handlers" where
  "counting = \<lparr>onMessage = Some (\<lambda>m n. (Inr (), n + 1)), onDeferred = None\<rparr>"

lemma sa_resolves_deliveries_witness:
  "\<exists>c c' t'. consumer_new sa_capabilities counting 0 = Inr c \<and>
     poll_all (simple_transport steady_client) [([], 250), ([], 250)] c polling = (c', t') \<and>
     0 \<le> unresolved (sa_stats t') \<and> unresolved (sa_stats t') \<le> 2 \<and> con_deferred c' = 0"
proof -
  let ?c = "counting_consumer\<lparr>con_handlers := counting\<rparr>"
  have c: "consumer_new sa_capabilities counting 0 = Inr ?c" "con_handlers ?c = counting" "con_deferred ?c = 0"
    by (simp_all add: consumer_new_def counting_def sa_capabilities_def default_capabilities_def counting_consumer_def)
  obtain c' t' where r: "poll_all (simple_transport steady_client) [([], 250), ([], 250)] ?c polling = (c', t')"
    by fastforce
  have "sa_handler polling = Some (consumer_deliver sa_capabilities)" "unresolved (sa_stats polling) = 0"
    by (simp_all add: polling_def small_receiving_def simple_amqp_new_def unresolved_def no_stats_def)
  moreover have "failed_polls (simple_transport steady_client) [([], 250), ([], 250)] ?c polling \<le> 2"
    by (simp split: prod.split)
  ultimately have "0 \<le> unresolved (sa_stats t') \<and> unresolved (sa_stats t') \<le> 2 \<and> con_deferred c' = 0"
    using sa_resolves_deliveries [OF c(1,2) _ r] c(3) by simp
  with c r show ?thesis by blast
qed

end
