(* ===== verification/Simple_Amqp_Delivery.thy ===== *)
theory Simple_Amqp_Delivery
  imports Simple_Amqp_Resolution Conveyance "HOL-Library.Multiset"
begin

text \<open>
  Delivery across lost connections on the SimpleAmqpClient backend. What the broker holds of a
  queue, waiting or delivered and not acknowledged, shrinks only by what the consumer was given,
  however often receiving, acknowledging and reconnecting fail.
\<close>

section \<open>What the broker promises\<close>

text \<open>The commands a reconnection sends.\<close>

fun provisions :: "simple_command \<Rightarrow> bool" where
  "provisions (Sc_Declare_Exchange x b) = True"
| "provisions (Sc_Declare_Queue q d) = True"
| "provisions (Sc_Bind_Queue q x key) = True"
| "provisions c = False"

text \<open>
  \<open>held w\<close> are the bodies the broker holds of the queue of one consumer, and \<open>out w n\<close> the body that
  was delivered under the tag \<open>n\<close> of the present channel. As AMQP documents, a message is held until
  its delivery is acknowledged or rejected for good, also when the command fails after the broker
  took it; dropping a channel returns what was delivered over it. A consumer with \<open>no_ack\<close> has its
  messages counted as acknowledged when they are sent, so nothing is promised of such a one.
\<close>

definition retaining :: "('w \<Rightarrow> string multiset) \<Rightarrow> ('w \<Rightarrow> 'r \<times> 'w) \<Rightarrow> bool" where
  "retaining held f \<longleftrightarrow> (\<forall>w. held w \<subseteq># held (snd (f w)))"

definition delivered_as :: "('w \<Rightarrow> nat \<Rightarrow> string option) \<Rightarrow> 'w \<Rightarrow> nat \<Rightarrow> string multiset" where
  "delivered_as out w n = (case out w n of None \<Rightarrow> {#} | Some body \<Rightarrow> {#body#})"

definition keeps_messages ::
  "'w simple_client \<Rightarrow> ('w \<Rightarrow> string multiset) \<Rightarrow> ('w \<Rightarrow> nat \<Rightarrow> string option) \<Rightarrow> bool" where
  "keeps_messages lib held out \<longleftrightarrow>
     (\<forall>host port. retaining held (sc_resolve lib host port)) \<and>
     (\<forall>host port ms. retaining held (sc_probe lib host port ms)) \<and>
     (\<forall>host port user pw realm. retaining held (sc_create lib host port user pw realm)) \<and>
     retaining held (\<lambda>w. ((), sc_drop lib w)) \<and>
     (\<forall>c. provisions c \<longrightarrow> retaining held (sc_command lib c)) \<and>
     (\<forall>tp req. \<not> cr_no_ack req \<longrightarrow> retaining held (sc_consume lib tp req)) \<and>
     (\<forall>tag ms. retaining held (sc_receive lib tag ms)) \<and>
     retaining held (sc_now lib) \<and>
     (\<forall>tag ms w d w'. sc_receive lib tag ms w = (Inr (Some d), w') \<longrightarrow> out w' (d_tag d) = Some (d_body d)) \<and>
     (\<forall>n. retaining held (sc_command lib (Sc_Reject n True))) \<and>
     (\<forall>n c w. c = Sc_Ack n \<or> c = Sc_Reject n False \<longrightarrow>
        held w \<subseteq># held (snd (sc_command lib c w)) + delivered_as out w n)"

section \<open>Operations that retain everything\<close>

definition retained :: "('w \<Rightarrow> string multiset) \<Rightarrow> ('w, 'h) simple_amqp \<Rightarrow> ('w, 'h) simple_amqp \<Rightarrow> bool" where
  "retained held t t' \<longleftrightarrow> held (sa_world t) \<subseteq># held (sa_world t')"

lemma retained_refl [simp]: "retained held t t"
  by (simp add: retained_def)

lemma retained_trans: "retained held t u \<Longrightarrow> retained held u v \<Longrightarrow> retained held t v"
  unfolding retained_def by (rule subset_mset.order_trans)

lemma retained_upd [simp]:
  "retained held t (u\<lparr>sa_channel := b\<rparr>) = retained held t u" "retained held t (u\<lparr>sa_connected := b\<rparr>) = retained held t u"
  "retained held t (u\<lparr>sa_consumerTag := tag\<rparr>) = retained held t u" "retained held t (u\<lparr>sa_topic := tp\<rparr>) = retained held t u"
  "retained held t (u\<lparr>sa_topicOptions := opts\<rparr>) = retained held t u"
  "retained held t (u\<lparr>sa_topicDeclared := b\<rparr>) = retained held t u"
  "retained held t (u\<lparr>sa_nextAttempt := i\<rparr>) = retained held t u"
  "retained held t (u\<lparr>sa_failedAttempts := n\<rparr>) = retained held t u"
  "retained held (t\<lparr>sa_failedAttempts := n\<rparr>) u = retained held t u"
  "retained held (t\<lparr>sa_connected := b\<rparr>) u = retained held t u"
  "retained held t (sa_count f u) = retained held t u" "retained held (sa_count f t) u = retained held t u"
  by (simp_all add: retained_def sa_count_def)

lemma sa_call_retained: "retaining held f \<Longrightarrow> sa_call f t = (r, t') \<Longrightarrow> retained held t t'"
  by (auto simp: sa_call_def retaining_def retained_def split: prod.splits) (metis snd_conv)

lemma sa_then_retained:
  assumes "sa_then x k = (r, t')" "retained held t (snd x)"
    and "\<And>a u. x = (Inr a, u) \<Longrightarrow> k a u = (r, t') \<Longrightarrow> retained held u t'"
  shows "retained held t t'"
proof (cases x)
  case (Pair y u)
  then show ?thesis using assms retained_trans by (cases y) (auto simp: sa_then_def)
qed

lemma sa_called: "retaining held f \<Longrightarrow> retained held t (snd (sa_call f t))"
  by (erule sa_call_retained) (rule prod.collapse [symmetric])

lemma probe_retaining:
  assumes "keeps_messages lib held out"
  shows "retaining held (probeReachable lib host port ms)"
  unfolding retaining_def
proof
  fix w
  obtain x w1 where 1: "(if sc_literal lib host then (None, w) else sc_resolve lib host port w) = (x, w1)" by fastforce
  obtain y w2 where 2: "sc_probe lib host port ms w1 = (y, w2)" by fastforce
  have "held w \<subseteq># held w1"
    using assms 1 unfolding keeps_messages_def retaining_def
    by (metis Pair_inject snd_conv subset_mset.order_refl)
  moreover have "held w1 \<subseteq># held w2"
    using assms 2 unfolding keeps_messages_def retaining_def by (metis snd_conv)
  ultimately have "held w \<subseteq># held w1" "held w \<subseteq># held w2" using subset_mset.order_trans by blast+
  then show "held w \<subseteq># held (snd (probeReachable lib host port ms w))"
    by (simp add: probeReachable_def 1 2 split: option.split probe_outcome.split)
qed

lemma sa_reset_retained: "keeps_messages lib held out \<Longrightarrow> retained held t (sa_reset lib t)"
  by (simp add: keeps_messages_def retaining_def retained_def sa_reset_def)

lemma openChannel_retained:
  assumes "keeps_messages lib held out" "openChannel lib ms t = (r, t')"
  shows "retained held t t'"
  using assms(2) unfolding openChannel_def Let_def
proof (rule sa_then_retained, goal_cases)
  case 1
  then show ?case by (intro sa_called probe_retaining [OF assms(1)])
next
  case (2 a u)
  from this(2) show ?case
  proof (rule sa_then_retained, goal_cases)
    case 1
    then show ?case using assms(1) by (intro sa_called) (simp add: keeps_messages_def)
  next
    case (2 b v)
    then show ?case using sa_reset_retained [OF assms(1), of v] by auto
  qed
qed

lemma sa_commands_retained:
  assumes "keeps_messages lib held out"
  shows "\<forall>c \<in> set cs. provisions c \<Longrightarrow> sa_commands lib cs t = (r, t') \<Longrightarrow> retained held t t'"
proof (induction cs arbitrary: t)
  case (Cons c cs)
  show ?case
  proof (rule sa_then_retained)
    show "sa_then (sa_call (sc_command lib c) t) (\<lambda>_. sa_commands lib cs) = (r, t')" using Cons.prems by simp
    show "retained held t (snd (sa_call (sc_command lib c) t))"
      using assms Cons.prems(1) by (intro sa_called) (simp add: keeps_messages_def)
  qed (use Cons in auto)
qed simp

lemma sa_ensureTopic_retained:
  assumes "keeps_messages lib held out" "sa_ensureTopic lib tp opts t = (r, t')"
  shows "retained held t t'"
proof -
  obtain x u where 1: "sa_commands lib (sa_declaring tp opts) t = (x, u)" by fastforce
  have "\<forall>c \<in> set (sa_declaring tp opts). provisions c" by (auto simp: sa_declaring_def)
  from assms(2) sa_commands_retained [OF assms(1) this 1] 1 show ?thesis
    by (cases x) (auto simp: sa_ensureTopic_def sa_then_def split: if_splits)
qed

lemma startConsuming_retained:
  assumes "keeps_messages lib held out" "startConsuming lib t = (r, t')"
  shows "retained held t t'"
  using assms(2) unfolding startConsuming_def
  by (rule sa_then_retained) (use assms(1) in \<open>auto intro!: sa_called simp: keeps_messages_def sa_consume_request_def\<close>)

lemma sa_restore_retained:
  assumes "keeps_messages lib held out" "sa_restore lib t = (r, t')"
  shows "retained held t t'"
proof -
  have o: "retained held t (snd (openChannel lib 5000 (sa_reset lib t)))"
    by (rule retained_trans [OF sa_reset_retained [OF assms(1)] openChannel_retained [OF assms(1) prod.collapse [symmetric]]])
  show ?thesis
    using assms(2) o unfolding sa_restore_def
  proof (rule sa_then_retained, goal_cases)
    case (1 a u)
    from this(2) show ?case
    proof (rule sa_then_retained, goal_cases)
      case 1
      then show ?case by (simp add: sa_ensureTopic_retained [OF assms(1) prod.collapse [symmetric]])
    next
      case (2 b v)
      then show ?case using startConsuming_retained [OF assms(1)] by (auto split: if_splits)
    qed
  qed
qed

lemma sa_lost_retained:
  assumes "keeps_messages lib held out" "sa_lost lib t = (r, t')"
  shows "retained held t t'"
proof -
  have now: "retaining held (sc_now lib)" using assms(1) by (simp add: keeps_messages_def)
  obtain n u where 1: "sa_call (sc_now lib) t = (n, u)" by fastforce
  obtain x v where 2: "sa_restore lib (u\<lparr>sa_failedAttempts := sa_failedAttempts u + 1\<rparr>) = (x, v)" by fastforce
  obtain again w where 3: "sa_call (sc_now lib) v = (again, w)" by fastforce
  note u = sa_call_retained [OF now 1]
  have v: "retained held t v" using sa_restore_retained [OF assms(1) 2] u retained_trans by auto
  have "retained held t w" by (rule retained_trans [OF v sa_call_retained [OF now 3]])
  with assms(2) 1 2 3 u v show ?thesis
    by (cases x) (auto simp: sa_lost_def sa_serviceReconnect_def split: if_splits)
qed

section \<open>One delivery\<close>

text \<open>A handler's outcome after which the broker may drop the message.\<close>

abbreviation final :: "disposition result \<Rightarrow> bool" where
  "final outcome \<equiv> outcome = Inr Ack \<or> outcome = Inr Reject"

lemma sa_perform_releases:
  assumes "keeps_messages lib held out" "out (sa_world t) tag = Some body" "sa_perform lib tag d t = (r, t')"
  shows "held (sa_world t) \<subseteq># held (sa_world t') + (if final (Inr d) then {#body#} else {#}) \<and>
    sa_handler t' = sa_handler t"
proof -
  have release: "held (sa_world t) \<subseteq># held (snd (sc_command lib c (sa_world t))) + {#body#}"
    if "c = Sc_Ack tag \<or> c = Sc_Reject tag False" for c
  proof -
    have "held (sa_world t) \<subseteq># held (snd (sc_command lib c (sa_world t))) + delivered_as out (sa_world t) tag"
      using assms(1) that unfolding keeps_messages_def by blast
    then show ?thesis using assms(2) by (simp add: delivered_as_def)
  qed
  have again: "held (sa_world t) \<subseteq># held (snd (sc_command lib (Sc_Reject tag True) (sa_world t)))"
    using assms(1) by (simp add: keeps_messages_def retaining_def)
  note facts = again release [of "Sc_Ack tag"] release [of "Sc_Reject tag False"]
  show ?thesis
    using assms(3) facts
    by (cases d) (auto simp: sa_perform_def sa_then_def sa_call_def sa_count_def split: prod.splits sum.splits)
qed

lemma sa_deliver_releases:
  assumes "keeps_messages lib held out" "out (sa_world t) (d_tag d) = Some (d_body d)"
    and "sa_deliver lib f d t h = (r, t', h')"
  shows "sa_handler t' = sa_handler t \<and>
    (\<exists>outcome. f d h = (outcome, h') \<and>
       held (sa_world t) \<subseteq># held (sa_world t') + (if final outcome then {#d_body d#} else {#}))"
proof -
  let ?t = "sa_count (\<lambda>s. s\<lparr>received := received s + 1, bytesReceived := bytesReceived s + length (d_body d)\<rparr>) t"
  have w: "sa_world ?t = sa_world t" "sa_handler ?t = sa_handler t" by (simp_all add: sa_count_def)
  obtain outcome h1 where f: "f d h = (outcome, h1)" by fastforce
  show ?thesis
  proof (cases outcome)
    case (Inl e)
    with assms(3) f show ?thesis by (auto simp: sa_deliver_def Let_def sa_count_def)
  next
    case (Inr dis)
    obtain x u where x: "sa_perform lib (d_tag d) dis ?t = (x, u)" by fastforce
    have "out (sa_world ?t) (d_tag d) = Some (d_body d)" using assms(2) w by simp
    from sa_perform_releases [OF assms(1) this x] assms(3) f Inr x w show ?thesis
      by (cases x) (auto simp: sa_deliver_def Let_def)
  qed
qed

text \<open>A pump calls the handler for one delivery or for none, and releases only what it was given.\<close>

lemma sa_pump_releases:
  assumes "keeps_messages lib held out" "sa_handler t = Some f" "sa_pump lib ms t h = (r, t', h')"
  shows "sa_handler t' = Some f \<and>
    (h' = h \<and> retained held t t' \<or>
     (\<exists>d outcome. f d h = (outcome, h') \<and>
        held (sa_world t) \<subseteq># held (sa_world t') + (if final outcome then {#d_body d#} else {#})))"
proof (cases "sa_ready t \<and> sa_subscribed t")
  case False
  with assms sa_lost_retained [OF assms(1), of t r t'] sa_lost_keeps [of lib t r t'] show ?thesis
    by (auto simp: sa_pump_def Let_def split: if_splits prod.splits)
next
  case True
  obtain x u where x: "sa_call (sc_receive lib (sa_consumerTag t) (ucast ms)) t = (x, u)" by fastforce
  have u: "retained held t u"
    using assms(1) by (intro sa_call_retained [OF _ x]) (simp add: keeps_messages_def)
  have k: "sa_handler u = Some f" using sa_call_keeps [OF x] assms(2) by (simp add: sa_kept_def)
  show ?thesis
  proof (cases "\<exists>d. x = Inr (Some d)")
    case True
    then obtain d where d: "x = Inr (Some d)" by blast
    have "sa_deliver lib f d u h = (r, t', h')"
      using assms x d \<open>sa_ready t \<and> sa_subscribed t\<close> by (auto simp: sa_pump_def Let_def)
    moreover have "out (sa_world u) (d_tag d) = Some (d_body d)"
      using assms(1) x d unfolding keeps_messages_def sa_call_def by (auto split: prod.splits)
    ultimately obtain outcome where "sa_handler t' = Some f" "f d h = (outcome, h')"
      "held (sa_world u) \<subseteq># held (sa_world t') + (if final outcome then {#d_body d#} else {#})"
      using sa_deliver_releases [OF assms(1)] k by metis
    with u show ?thesis using subset_mset.order_trans unfolding retained_def by blast
  next
    case False
    then have "(t' = u \<and> h' = h) \<or> (sa_lost lib (u\<lparr>sa_connected := False\<rparr>) = (r, t') \<and> h' = h)"
      using assms x \<open>sa_ready t \<and> sa_subscribed t\<close>
      by (cases x) (auto simp: sa_pump_def Let_def split: if_splits prod.splits option.splits)
    with u k sa_lost_retained [OF assms(1), of "u\<lparr>sa_connected := False\<rparr>" r t']
      sa_lost_keeps [of lib "u\<lparr>sa_connected := False\<rparr>" r t'] retained_trans
    show ?thesis by auto
  qed
qed

section \<open>A consumer that records what it is given\<close>

text \<open>Its handler notes each message and then ends as \<open>g\<close> says.\<close>

definition observer :: "(byte_message \<Rightarrow> byte_message list \<Rightarrow> unit result) \<Rightarrow> byte_message list handlers" where
  "observer g = \<lparr>onMessage = Some (\<lambda>m u. (g m u, u @ [m])), onDeferred = None\<rparr>"

definition decoded :: "string multiset \<Rightarrow> byte_message multiset" where
  "decoded B = image_mset (\<lambda>b. projr (deserialize b)) (filter_mset (\<lambda>b. \<not> isl (deserialize b)) B)"

lemma decoded_simps [simp]:
  "decoded {#} = {#}" "decoded (A + B) = decoded A + decoded B"
  "decoded {#body#} = (case deserialize body of Inl _ \<Rightarrow> {#} | Inr m \<Rightarrow> {#m#})"
  by (simp_all add: decoded_def split: sum.split)

lemma decoded_mono: "A \<subseteq># B \<Longrightarrow> decoded A \<subseteq># decoded B"
  by (simp add: decoded_def image_mset_subseteq_mono multiset_filter_mono)

lemma observer_deliver:
  assumes "con_handlers c = observer g" "consumer_deliver caps d c = (outcome, c')"
  shows "con_handlers c' = observer g \<and>
    con_user c' = con_user c @ (case deserialize (d_body d) of Inl _ \<Rightarrow> [] | Inr m \<Rightarrow> [m])"
proof -
  obtain x u where x: "dispatch (d_body d) (con_handlers c) (d_redelivered d) (d_tag d) (con_user c) = (x, u)"
    by fastforce
  then have "u = con_user c @ (case deserialize (d_body d) of Inl _ \<Rightarrow> [] | Inr m \<Rightarrow> [m])"
    using assms(1) by (auto simp: dispatch_def decode_eq observer_def split: sum.splits)
  with x assms show ?thesis
    by (auto simp: consumer_deliver_def Let_def split: sum.splits disposition.splits)
qed

text \<open>How many deliveries the consumer decided for good.\<close>

definition decided :: "'u consumer \<Rightarrow> nat" where
  "decided c = con_acked c + con_rejected c"

lemma consumer_deliver_decided:
  "consumer_deliver caps d c = (outcome, c') \<Longrightarrow>
     decided c' = decided c + (if final outcome then 1 else 0)"
  by (auto simp: consumer_deliver_def decided_def Let_def split: prod.splits sum.splits disposition.splits)

text \<open>
  What was held is still held or was given to the handler, and no more left than was decided for
  good.
\<close>

definition accounted ::
  "('w \<Rightarrow> string multiset) \<Rightarrow> byte_message list consumer \<times> ('w, 'h) simple_amqp
     \<Rightarrow> byte_message list consumer \<times> ('w, 'h) simple_amqp \<Rightarrow> bool" where
  "accounted held s s' \<longleftrightarrow>
     (\<exists>new. con_user (fst s') = con_user (fst s) @ new \<and>
        decoded (held (sa_world (snd s))) \<subseteq># decoded (held (sa_world (snd s'))) + mset new) \<and>
     size (held (sa_world (snd s))) + decided (fst s) \<le> size (held (sa_world (snd s'))) + decided (fst s')"

lemma accounted_refl [simp]: "accounted held s s"
  by (simp add: accounted_def)

lemma accounted_trans: "accounted held s u \<Longrightarrow> accounted held u v \<Longrightarrow> accounted held s v"
proof -
  assume a: "accounted held s u" "accounted held u v"
  then obtain xs ys where
    "con_user (fst u) = con_user (fst s) @ xs" "con_user (fst v) = con_user (fst u) @ ys" and
    m: "decoded (held (sa_world (snd s))) \<subseteq># decoded (held (sa_world (snd u))) + mset xs"
      "decoded (held (sa_world (snd u))) \<subseteq># decoded (held (sa_world (snd v))) + mset ys"
    by (auto simp: accounted_def)
  moreover have "decoded (held (sa_world (snd s))) \<subseteq># decoded (held (sa_world (snd v))) + mset ys + mset xs"
    using m(1) subset_mset.add_right_mono [OF m(2), of "mset xs"] by (rule subset_mset.order_trans)
  ultimately show ?thesis using a
    by (intro accounted_def [THEN iffD2] conjI exI [of _ "xs @ ys"]) (simp_all add: ac_simps accounted_def)
qed

definition observing ::
  "(byte_message \<Rightarrow> byte_message list \<Rightarrow> unit result) \<Rightarrow> capabilities
     \<Rightarrow> byte_message list consumer \<times> ('w, byte_message list consumer) simple_amqp \<Rightarrow> bool" where
  "observing g caps s \<longleftrightarrow> con_handlers (fst s) = observer g \<and> sa_handler (snd s) = Some (consumer_deliver caps)"

lemma pump_accounted:
  assumes "keeps_messages lib held out" "observing g caps (c, t)" "sa_pump lib ms t c = (r, t', c')"
  shows "observing g caps (c', t') \<and> accounted held (c, t) (c', t')"
proof -
  have o: "con_handlers c = observer g" "sa_handler t = Some (consumer_deliver caps)"
    using assms(2) by (simp_all add: observing_def)
  from sa_pump_releases [OF assms(1) o(2) assms(3)] show ?thesis
  proof (elim conjE disjE exE)
    fix d outcome
    assume f: "consumer_deliver caps d c = (outcome, c')" "sa_handler t' = Some (consumer_deliver caps)"
      and h: "held (sa_world t) \<subseteq># held (sa_world t') + (if final outcome then {#d_body d#} else {#})"
    let ?new = "case deserialize (d_body d) of Inl _ \<Rightarrow> [] | Inr m \<Rightarrow> [m]"
    have new: "decoded (if final outcome then {#d_body d#} else {#}) \<subseteq># mset ?new"
      by (simp split: sum.split)
    have "decoded (held (sa_world t)) \<subseteq># decoded (held (sa_world t')) + mset ?new"
      using decoded_mono [OF h] subset_mset.add_left_mono [OF new] unfolding decoded_simps(2)
      by (rule subset_mset.order_trans)
    moreover have "size (held (sa_world t)) + decided c \<le> size (held (sa_world t')) + decided c'"
      using size_mset_mono [OF h] consumer_deliver_decided [OF f(1)] by (cases "final outcome") auto
    ultimately show ?thesis
      using observer_deliver [OF o(1) f(1)] f(2) unfolding observing_def accounted_def fst_conv snd_conv by blast
  qed (use o in \<open>simp add: observing_def accounted_def retained_def decoded_mono size_mset_mono\<close>)
qed

lemma poll_accounted:
  assumes "keeps_messages lib held out" "observing g caps (c, t)"
    and "consumer_poll (simple_transport lib) arrivals ms c t = (r, c', t')"
  shows "observing g caps (c', t') \<and> accounted held (c, t) (c', t')"
proof (cases "con_settlements c")
  case None
  with assms pump_accounted [OF assms(1,2)] show ?thesis by (auto simp: consumer_poll_def split: prod.splits)
next
  case (Some q)
  obtain x q1 c1 t1 where d: "consumer_drain sa_settle arrivals q c t = (x, q1, c1, t1)" by (metis prod_cases4)
  let ?c = "c\<lparr>con_settlements := Some q1\<rparr>"
  have p: "observing g caps (?c, t)" "accounted held (c, t) (?c, t)"
    using assms(2) by (simp_all add: observing_def accounted_def decided_def)
  show ?thesis
    using assms(3) Some d sa_drain_same [OF d] p pump_accounted [OF assms(1) p(1)] accounted_trans [OF p(2)]
    by (cases x) (auto simp: consumer_poll_def split: prod.splits)
qed

lemma polls_accounted:
  "keeps_messages lib held out \<Longrightarrow> observing g caps (c, t) \<Longrightarrow>
     poll_all (simple_transport lib) polls c t = (c', t') \<Longrightarrow> accounted held (c, t) (c', t')"
proof (induction polls arbitrary: c t)
  case (Cons p polls)
  obtain arrivals ms where p: "p = (arrivals, ms)" by fastforce
  obtain r c1 t1 where 1: "consumer_poll (simple_transport lib) arrivals ms c t = (r, c1, t1)"
    by (metis prod_cases3)
  note s = poll_accounted [OF Cons.prems(1,2) 1]
  with Cons.IH [OF Cons.prems(1), of c1 t1] Cons.prems(3) p 1 accounted_trans show ?case by fastforce
qed simp

section \<open>Properties\<close>

text \<open>
  C5: at least once, across lost connections. Let the broker hold a message until it is acknowledged
  or rejected for good, and return what was delivered when a channel is dropped. Then over any
  sequence of polls, whatever else the library does, receives, acknowledgements and reconnections
  that throw included, and however the handler ends: every message the broker held at the start is
  still held at the end or was given to the handler, counted with multiplicity, and no more
  messages left than the consumer acknowledged or rejected; what it requeued stays.
\<close>

theorem sa_at_least_once:
  assumes "keeps_messages lib held out"
    and "sa_handler t = Some (consumer_deliver caps)" "con_handlers c = observer g"
    and "poll_all (simple_transport lib) polls c t = (c', t')"
  shows "(\<exists>new. con_user c' = con_user c @ new \<and>
      decoded (held (sa_world t)) \<subseteq># decoded (held (sa_world t')) + mset new) \<and>
    size (held (sa_world t)) + (con_acked c + con_rejected c) \<le>
      size (held (sa_world t')) + (con_acked c' + con_rejected c')"
  using polls_accounted [OF assms(1) _ assms(4), of g caps] assms(2,3)
  by (simp add: observing_def accounted_def decided_def)

text \<open>
  A library that loses its connection as a script says: its state is what waits, what is delivered
  under the tag 1 and not acknowledged, and whether the next receives and acknowledgements fail.
  A consumer with \<open>no_ack\<close> empties the queue.
\<close>

type_synonym flaky = "string list \<times> string option \<times> bool list"

definition flaky_client :: "flaky simple_client" where
  "flaky_client =
     \<lparr>sc_literal = (\<lambda>_. True), sc_resolve = (\<lambda>_ _ w. (None, w)), sc_probe = (\<lambda>_ _ _ w. (Probe_Connected, w)),
      sc_create = (\<lambda>_ _ _ _ _ w. (Inr (), w)),
      sc_drop = (\<lambda>(q, x, fs). (case x of None \<Rightarrow> q | Some body \<Rightarrow> body # q, None, fs)),
      sc_command = (\<lambda>c (q, x, fs). case c of
         Sc_Ack n \<Rightarrow>
           if n = 1 \<and> hd (fs @ [False]) then (Inl (Runtime_Error ''gone''), (q, x, tl fs))
           else (Inr (), (q, if n = 1 then None else x, tl fs))
       | Sc_Reject n again \<Rightarrow>
           if n \<noteq> 1 then (Inr (), (q, x, fs))
           else (Inr (), (if again then case x of None \<Rightarrow> q | Some body \<Rightarrow> body # q else q, None, fs))
       | _ \<Rightarrow> (Inr (), (q, x, fs))),
      sc_counts = (\<lambda>_ _ w. (Inr 0, w)), 
      sc_consume = (\<lambda>_ req (q, x, fs). (Inr ''tag'', if cr_no_ack req then ([], None, fs) else (q, x, fs))),
      sc_receive = (\<lambda>_ _ (q, x, fs).
         if hd (fs @ [False]) then (Inl (Runtime_Error ''gone''), (q, x, tl fs))
         else (case (q, x) of
             (body # rest, None) \<Rightarrow>
               (Inr (Some \<lparr>d_body = body, d_redelivered = False, d_tag = 1\<rparr>), (rest, Some body, tl fs))
           | _ \<Rightarrow> (Inr None, (q, x, tl fs)))),
      sc_now = (\<lambda>w. (0, w))\<rparr>"

definition flaky_held :: "flaky \<Rightarrow> string multiset" where
  "flaky_held w = (case w of (q, x, fs) \<Rightarrow> mset q + (case x of None \<Rightarrow> {#} | Some body \<Rightarrow> {#body#}))"

definition flaky_out :: "flaky \<Rightarrow> nat \<Rightarrow> string option" where
  "flaky_out w n = (if n = 1 then fst (snd w) else None)"

lemma flaky_keeps_messages: "keeps_messages flaky_client flaky_held flaky_out"
proof -
  have "provisions c \<Longrightarrow> retaining flaky_held (sc_command flaky_client c)" for c
    by (cases c) (auto simp: flaky_client_def retaining_def)
  then show ?thesis
    unfolding keeps_messages_def
    by (auto simp: flaky_client_def flaky_held_def flaky_out_def retaining_def delivered_as_def
        split: option.splits list.splits if_splits)
qed

text \<open>The acknowledgement of the first of two messages fails, and the receive after it.\<close>

definition flaky_polling :: "(flaky, byte_message list consumer) simple_amqp" where
  "flaky_polling = (simple_amqp_new ([''motus:1:a'', ''motus:1:b''], None, [False, True, True]))
     \<lparr>sa_channel := True, sa_connected := True, sa_subscribed := True, sa_policy := small_policy,
      sa_handler := Some (consumer_deliver sa_capabilities)\<rparr>"

lemma sa_at_least_once_witness:
  "\<exists>c' t'. poll_all (simple_transport flaky_client) [([], 250), ([], 250), ([], 250), ([], 250)]
       (small_consumer (observer (\<lambda>_ _. Inr ())) []) flaky_polling = (c', t') \<and>
     {#\<lparr>payload = ''a''\<rparr>, \<lparr>payload = ''b''\<rparr>#} \<subseteq># decoded (flaky_held (sa_world t')) + mset (con_user c')"
proof -
  let ?c = "small_consumer (observer (\<lambda>_ _. Inr ())) []"
  let ?ps = "[([], 250), ([], 250), ([], 250), ([], 250)] :: (settlement list list \<times> i64) list"
  obtain c' t' where r: "poll_all (simple_transport flaky_client) ?ps ?c flaky_polling = (c', t')" by fastforce
  have h: "sa_handler flaky_polling = Some (consumer_deliver sa_capabilities)" by (simp add: flaky_polling_def)
  obtain new where "con_user c' = new"
    "decoded (flaky_held (sa_world flaky_polling)) \<subseteq># decoded (flaky_held (sa_world t')) + mset new"
    using sa_at_least_once [OF flaky_keeps_messages h _ r, of "\<lambda>_ _. Inr ()"] by auto
  moreover have "deserialize ''motus:1:a'' = Inr \<lparr>payload = ''a''\<rparr>" "deserialize ''motus:1:b'' = Inr \<lparr>payload = ''b''\<rparr>"
    using deserialize_encodable [of "\<lparr>payload = ''a''\<rparr>"] deserialize_encodable [of "\<lparr>payload = ''b''\<rparr>"]
    by (simp_all add: encodable_def byteCount_def MAX_PAYLOAD_BYTES_def envelopePrefix_eq)
  ultimately show ?thesis
    using r by (auto simp: flaky_polling_def simple_amqp_new_def flaky_held_def decoded_def)
qed

end
