(* ===== verification/Spec2Isabelle.thy ===== *)
theory Spec2Isabelle
  imports Wire_Envelope Route_Match Broker_Seqs Fleet_Conservation In_Memory_Deferral
    Competing_Consumers Factory Log_Sink Amqp_Cpp_Reconnect Amqp_Cpp_Clients Amqp_Cpp_Stale
    Simple_Amqp_Sessions Simple_Amqp_Clients Simple_Amqp_Resolution Simple_Amqp_Delivery
begin

text \<open>
  A verification of motus, a C++ library that carries messages between processes over
  interchangeable middleware. This root theory only gathers the library and documents it.

  \<^bold>\<open>The program.\<close> A producer (\<open>include/motus/Producer.hpp\<close>, \<open>MessagePublisher.hpp\<close>) encodes messages in
  a small text envelope (\<open>ByteMessage.hpp\<close>) and hands the bytes to a transport; a consumer
  (\<open>src/Consumer.cpp\<close>) registers a handler with a transport, decodes each delivery, runs the
  user's function and returns a disposition (acknowledge, reject, requeue, defer) that the
  transport performs. The seam between them is the abstract class \<open>ITransport\<close>
  (\<open>include/motus/transport/ITransport.hpp\<close>). There are three backends behind it: one in memory
  (\<open>src/transport/InMemoryTransport.cpp\<close>), one on AMQP-CPP (\<open>AmqpCppTransport.cpp\<close> over the
  blocking \<open>AmqpConnection.hpp\<close>) and one on SimpleAmqpClient (\<open>SimpleAmqpTransport.cpp\<close>). A factory
  (\<open>Factory.cpp\<close>) chooses among those of a build, and everything logs through \<open>Logger.cpp\<close>.

  \<^bold>\<open>How code becomes definitions.\<close> Operations of a class are functions from its state, a record with
  the members of the class, to its state. What may throw returns \<open>exn + 'a\<close>, \<open>Inl\<close> the exception
  with the text of the code; the state is that at the throw. Counters of 32 and 64 bits are
  words where wrap-around can matter (the version number, options, the backoff), natural
  numbers where a process would have to run for centuries. A handler is a function over a memory
  \<open>'h\<close> of its own, so that it may count, remember, throw and act. Log lines are left out, except in
  the theory about the logger.

  \<^bold>\<open>Theories.\<close>
  \<^item> Motus_Prelude: exceptions, results, ordered maps (\<open>std::map\<close>), decimal printing; the
    collection \<open>res_iff\<close> and the lemmas the other theories share.
  \<^item> Wire_Envelope (\<open>ByteMessage.hpp\<close>): \<open>serialize\<close>, \<open>deserialize\<close> and its 32-bit version loop; round
    trip, exactly which bodies are accepted, absence of overflow, all diagnostics.
  \<^item> Seam (\<open>ITransport.hpp\<close>, free functions and option structs), Route_Match (\<open>routeMatches\<close>, with the
    declarative meaning of patterns as its specification), Transport (class \<open>ITransport\<close> as a
    record of its virtual functions; the locale \<open>acknowledging\<close> is the contract of acknowledgement).
  \<^item> Fifo: the locale \<open>fifo_channel\<close>, interpreted for a topic of the broker and for the settlement
    queue between worker threads and a consumer.
  \<^item> Broker, Broker_Props, Broker_Seqs (class \<open>Broker\<close> of \<open>InMemoryTransport.cpp\<close>): state and every
    operation; well-formedness, bounds and overflow policies, recipients of a grouped publish,
    order, unique sequence numbers.
  \<^item> In_Memory, In_Memory_Props (class \<open>InMemoryTransport\<close>): the outcome of a \<open>pump\<close> for everything a
    handler may do, deferred settlement, return of outstanding work. Fleet: any number of
    competing transports as a step relation, with an invariant of the reachable states.
    Fleet_Conservation: what a fleet holds is lost in no crash, return or deferral; while nothing is
    rejected or published, it leaves the fleet with an acknowledgement only.
  \<^item> Consumer, Consumer_Props (\<open>Consumer.cpp\<close>, \<open>Consumer.hpp\<close>): \<open>dispatch\<close> and its decision table, the
    settlement queue, \<open>poll\<close>; the locale \<open>consumed\<close> extends \<open>acknowledging\<close> by what a consumer counts.
    Producer (\<open>Producer.hpp\<close>, \<open>MessagePublisher.hpp\<close>).
  \<^item> Conveyance: the locale \<open>conveying\<close> is what a client needs of a backend that conveys bodies in
    order, and its lemma \<open>end_to_end\<close> is about any producer and consumer over such a backend.
  \<^item> In_Memory_Contract, In_Memory_Clients: the in-memory backend satisfies both contracts.
    In_Memory_Deferral: deferred work from the delivery to the worker's settlement.
    Competing_Consumers: any number of consumers on one topic, polled along any schedule; what falls
    to each of them, and that the topic is drained within two polls for each message, shown by a
    credit that every poll of a topic with messages lowers.
  \<^item> Amqp_Connection, Amqp_Connection_Props (\<open>AmqpConnection.hpp\<close>): connecting, reading, waiting,
    closing; the locale \<open>session_relation\<close> lifts a relation that every callback keeps to all of it,
    and the locale \<open>streaming\<close> turns a wait over well-behaved callbacks into a fold over them.
  \<^item> Amqp_Common: argument tables and the backoff that both AMQP backends use.
  \<^item> Amqp_Cpp (class \<open>AmqpCppTransport\<close>): every operation. Amqp_Cpp_Relations: the locale
    \<open>channel_relation\<close> extends \<open>session_relation\<close> to operations that send commands, and
    \<open>pumping_relation\<close> extends that to pumps. Amqp_Cpp_Contract: the contract of acknowledgement, and
    that what is counted was sent where the channel refuses nothing. Amqp_Cpp_Props: declaring, sending, settling, closing.
    Amqp_Cpp_Reconnect: what an attempt sends, that attempts end, half-open connections.
    Amqp_Cpp_Stream: from the bytes that arrive in a pump to handler, commands and counters.
    Amqp_Cpp_Clients: producer and consumer from end to end. Amqp_Cpp_Stale: a reconnection forgets
    the deferred tags of the old connection, but a late settlement meets whatever the new channel
    delivered under the same number.
  \<^item> Simple_Amqp (class \<open>SimpleAmqpTransport\<close>): every operation. Simple_Amqp_Props: what a pump
    performs, how far the counters lag behind the decisions when the library throws, reconnecting. Simple_Amqp_Sessions: what the library is told, recorded.
    Simple_Amqp_Resolution: on a backend that cannot defer, at most one delivery stays unresolved
    for each poll that threw.
    Simple_Amqp_Clients: the locale \<open>conveying\<close> over a client library that queues as AMQP documents.
    Simple_Amqp_Delivery: at least once over a library that may fail in any call.
  \<^item> Factory (\<open>Factory.cpp\<close>); Logger (\<open>Logger.cpp\<close>: levels, time stamps, lines, hex dump) and Log_Sink
    (its asynchronous sink as a step relation between callers and the worker thread, with both
    condition variables, spurious wake-ups and writes that never return, and the static
    functions of \<open>Logger\<close> over both; \<open>flush\<close> returns unless a write blocks for good).

  \<^bold>\<open>How the parts meet.\<close> The consumer is verified once against the locale \<open>consumed\<close>: over any sequence
  of polls its counters and those of its transport move in step. The locale is interpreted for
  the in-memory backend and for AMQP-CPP, under what each needs: a topic declared before use, no
  failing write (\<open>im_consumer_counts_performed\<close>, \<open>am_consumer_counts_performed\<close>). On SimpleAmqpClient any
  disposition may throw after the consumer has counted it, so the contract does not hold there;
  \<open>sa_consumer_counts_performed\<close> bounds by how much the counters differ. In the
  same way \<open>conveying\<close> is interpreted for the in-memory backend and for SimpleAmqpClient
  (\<open>im_end_to_end\<close> and, for several consumers, \<open>competitors_share_messages\<close>; \<open>sa_end_to_end\<close>);
  for AMQP-CPP, where a poll may deliver any number of messages and tear frames apart, \<open>am_end_to_end\<close> says the same
  of what was told to one connection and read from another.

  \<^bold>\<open>What is a parameter, and the scripts.\<close> Code outside the repository is never defined here.
  The parser of AMQP-CPP is an argument (\<open>cpp_library\<close>): a function from its state and the bytes to
  callbacks. Sockets, resolver, clock and what a channel refuses are scripts, lists in the state
  that each use consumes; an exhausted script answers by a stated default (reads time out, writes
  succeed). Theorems quantify over all scripts. A wait with a deadline is a number of rounds, from
  the script too, so every wait ends by recursion on it; no theorem says that a wait succeeds
  without saying which answers arrive. SimpleAmqpClient is an argument (\<open>simple_client\<close>): its calls
  are functions on the state of the world. The wall clock of the in-memory \<open>pump\<close> is the list of
  what other threads do in each round. The version header that the build generates, and the set of
  backends a build contains, are arguments.

  \<^bold>\<open>Not modelled.\<close> Which log lines the components write (text output only); the conversion of a clock
  value to local time and the standard error stream, which are inputs of the model; Asio's
  asynchronous read and its draining (only its result); destructors that run while an exception
  unwinds (the end of the process by a throwing destructor is a flag of the state,
  \<open>am_terminated\<close>); tests, build files and packaging.
  Nothing else of the library is left to model: the lines of its files that no definition
  translates are comments, include directives, forward declarations and trivial accessors of
  members that are selectors of the records here.

  \<^bold>\<open>What the theorems do not say.\<close> Delivery across a lost connection is shown for what the broker holds
  (\<open>sa_at_least_once\<close>, \<open>fleet_at_least_once\<close>), not as a promise that a broker comes back; that attempts
  to reconnect end is \<open>am_gives_up\<close>. The draining of a topic (\<open>competitors_drain_topic\<close>) is for handlers
  that neither defer nor throw something other than a standard exception, since such a delivery
  is held until it is settled or its transport closes.
\<close>

end
